(* ===== verification/Prelude.thy ===== *)
theory Prelude
  imports Main "HOL-Library.Char_ord" "HOL-Library.List_Lexorder"
begin

text \<open>
  The vocabulary shared by every component of the development.

  \<^item> \<open>cpp_error\<close> and the state-and-error computations \<open>('s, 'a) M\<close>: a C++ function that
    reads and writes a state and may throw is a function from the state to its outcome and
    the state it leaves behind. An exception keeps the state changes made before it, as the
    program does (nothing is rolled back).
  \<^item> \<open>hoare\<close>: the partial-correctness triples the component invariants are stated with,
    with one rule per way of composing computations (collection \<open>hoare_rules\<close>).
  \<^item> \<open>std::map\<close> as a key-sorted association list (\<open>smap_put\<close>, \<open>map_of\<close>).
  \<^item> \<open>int\<close> at its 32-bit width (\<open>int32\<close>, \<open>to_int32\<close>), \<open>std::to_string\<close>,
    the extraction \<open>stream >> int\<close>, and \<open>c_str()\<close>.
\<close>

named_theorems hoare_rules "rules that compose triples"
named_theorems text_simps "equations that evaluate decimal text"

section \<open>Outcomes of C++ code\<close>

text \<open>
  What a function of the program can end with besides returning: an exception of the
  program (\<open>std::runtime_error\<close>, thrown by \<open>WsjcppLog::throw_err\<close>), an exception of the
  JSON library with its number, an exception of the standard library, or an access that the
  language leaves undefined (a null pointer, a missing column). \<open>Does_not_return\<close> is the
  outcome of a loop that never ends; loops are defined so that this is visible, and the
  components prove that theirs do end.
\<close>

datatype cpp_error =
    Runtime_error string
  | Json_type_error nat
  | Json_out_of_range nat
  | Json_parse_error
  | Std_invalid_argument
  | Std_out_of_range
  | Std_length_error
  | Null_pointer
  | Undefined_behaviour
  | Does_not_return

type_synonym ('s, 'a) M = "'s \<Rightarrow> (cpp_error + 'a) \<times> 's"

definition ret :: "'a \<Rightarrow> ('s, 'a) M" where
  "ret x = (\<lambda>s. (Inr x, s))"

definition throw :: "cpp_error \<Rightarrow> ('s, 'a) M" where
  "throw e = (\<lambda>s. (Inl e, s))"

definition mbind :: "('s, 'a) M \<Rightarrow> ('a \<Rightarrow> ('s, 'b) M) \<Rightarrow> ('s, 'b) M" where
  "mbind m f = (\<lambda>s. case m s of (Inl e, s') \<Rightarrow> (Inl e, s') | (Inr x, s') \<Rightarrow> f x s')"

definition gets :: "('s \<Rightarrow> 'a) \<Rightarrow> ('s, 'a) M" where
  "gets f = (\<lambda>s. (Inr (f s), s))"

definition modify :: "('s \<Rightarrow> 's) \<Rightarrow> ('s, unit) M" where
  "modify f = (\<lambda>s. (Inr (), f s))"

definition lift_sum :: "cpp_error + 'a \<Rightarrow> ('s, 'a) M" where
  "lift_sum r = (\<lambda>s. (r, s))"

text \<open>A range-for loop whose body may throw: it stops at the first exception.\<close>

primrec for_each :: "'x list \<Rightarrow> ('x \<Rightarrow> ('s, unit) M) \<Rightarrow> ('s, unit) M" where
  "for_each [] f = ret ()"
| "for_each (x # xs) f = mbind (f x) (\<lambda>_. for_each xs f)"

text \<open>The same loop with local variables carried from one turn to the next.\<close>

primrec for_fold :: "'x list \<Rightarrow> 'a \<Rightarrow> ('a \<Rightarrow> 'x \<Rightarrow> ('s, 'a) M) \<Rightarrow> ('s, 'a) M" where
  "for_fold [] a f = ret a"
| "for_fold (x # xs) a f = mbind (f a x) (\<lambda>a'. for_fold xs a' f)"

primrec traverse_sum :: "('x \<Rightarrow> cpp_error + 'a) \<Rightarrow> 'x list \<Rightarrow> cpp_error + 'a list" where
  "traverse_sum f [] = Inr []"
| "traverse_sum f (x # xs) =
     (case f x of Inl e \<Rightarrow> Inl e
      | Inr y \<Rightarrow> (case traverse_sum f xs of Inl e \<Rightarrow> Inl e | Inr ys \<Rightarrow> Inr (y # ys)))"

text \<open>Code that runs on one part of the state.\<close>

definition on_snd :: "('w, 'a) M \<Rightarrow> ('s \<times> 'w, 'a) M" where
  "on_snd m = (\<lambda>(s, w). case m w of (r, w') \<Rightarrow> (r, (s, w')))"

lemma mbind_Inr_iff:
  "mbind m f s = (Inr y, s') \<longleftrightarrow> (\<exists>x s1. m s = (Inr x, s1) \<and> f x s1 = (Inr y, s'))"
  by (auto simp: mbind_def split: prod.splits sum.splits)

lemma mbind_Inl_iff:
  "mbind m f s = (Inl e, s') \<longleftrightarrow>
     m s = (Inl e, s') \<or> (\<exists>x s1. m s = (Inr x, s1) \<and> f x s1 = (Inl e, s'))"
  by (auto simp: mbind_def split: prod.splits sum.splits)

lemma mbind_run: "m s = (Inr x, s1) \<Longrightarrow> mbind m f s = f x s1"
  by (simp add: mbind_def)

lemma mbind_fail: "m s = (Inl e, s1) \<Longrightarrow> mbind m f s = (Inl e, s1)"
  by (simp add: mbind_def)

lemma ret_Pair [simp]: "ret x = Pair (Inr x)"
  by (simp add: ret_def fun_eq_iff)

lemma throw_Pair [simp]: "throw e = Pair (Inl e)"
  by (simp add: throw_def fun_eq_iff)

lemma gets_apply [simp]: "gets f s = (Inr (f s), s)"
  by (simp add: gets_def)

lemma modify_apply [simp]: "modify f s = (Inr (), f s)"
  by (simp add: modify_def)

lemma lift_sum_Pair [simp]: "lift_sum r = Pair r"
  by (simp add: lift_sum_def fun_eq_iff)

lemma on_snd_apply [simp]: "on_snd m (s, w) = (fst (m w), (s, snd (m w)))"
  by (simp add: on_snd_def split: prod.splits)

lemma mbind_Pair [simp]: "mbind (Pair (Inr x)) f = f x" "mbind (Pair (Inl e)) f = Pair (Inl e)"
  by (simp_all add: mbind_def fun_eq_iff)

lemma mbind_assoc: "mbind (mbind m f) g = mbind m (\<lambda>x. mbind (f x) g)"
  by (auto simp: mbind_def fun_eq_iff split: prod.splits sum.splits)

lemma for_each_append:
  "for_each (xs @ ys) f = mbind (for_each xs f) (\<lambda>_. for_each ys f)"
  by (induction xs) (simp_all add: mbind_assoc)

lemma traverse_sum_Inr:
  "traverse_sum f xs = Inr ys \<longleftrightarrow> map f xs = map Inr ys"
proof (induction xs arbitrary: ys)
  case (Cons x xs)
  show ?case
  proof (cases ys)
    case Nil
    then show ?thesis by (auto split: sum.splits)
  next
    case ys: (Cons y zs)
    show ?thesis using Cons.IH [of zs] by (cases "traverse_sum f xs") (auto simp: ys split: sum.splits)
  qed
qed auto

section \<open>Triples\<close>

text \<open>
  \<open>hoare P m Q E\<close>: from a state that satisfies \<open>P\<close>, if \<open>m\<close> returns, its value and final
  state satisfy \<open>Q\<close>, and if it throws, the exception and the state left behind satisfy \<open>E\<close>.
  Computations are total functions, so there is no third outcome.
\<close>

definition hoare ::
    "('s \<Rightarrow> bool) \<Rightarrow> ('s, 'a) M \<Rightarrow> ('a \<Rightarrow> 's \<Rightarrow> bool) \<Rightarrow> (cpp_error \<Rightarrow> 's \<Rightarrow> bool) \<Rightarrow> bool" where
  "hoare P m Q E \<longleftrightarrow>
     (\<forall>s. P s \<longrightarrow> (case m s of (Inr x, s') \<Rightarrow> Q x s' | (Inl e, s') \<Rightarrow> E e s'))"

lemma hoareI:
  assumes "\<And>s x s'. P s \<Longrightarrow> m s = (Inr x, s') \<Longrightarrow> Q x s'"
    and "\<And>s e s'. P s \<Longrightarrow> m s = (Inl e, s') \<Longrightarrow> E e s'"
  shows "hoare P m Q E"
  using assms by (auto simp: hoare_def split: prod.splits sum.splits)

lemma hoare_returns: "hoare P m Q E \<Longrightarrow> P s \<Longrightarrow> m s = (Inr x, s') \<Longrightarrow> Q x s'"
  by (auto simp: hoare_def split: prod.splits sum.splits)

lemma hoare_throws: "hoare P m Q E \<Longrightarrow> P s \<Longrightarrow> m s = (Inl e, s') \<Longrightarrow> E e s'"
  by (auto simp: hoare_def split: prod.splits sum.splits)

lemma hoare_conseq:
  assumes "hoare P' m Q' E'"
    and "\<And>s. P s \<Longrightarrow> P' s" and "\<And>x s. Q' x s \<Longrightarrow> Q x s" and "\<And>e s. E' e s \<Longrightarrow> E e s"
  shows "hoare P m Q E"
  using assms by (fastforce simp: hoare_def split: prod.splits sum.splits)

lemma hoare_bind [hoare_rules]:
  assumes "hoare P m R E" and "\<And>x. hoare (R x) (f x) Q E"
  shows "hoare P (mbind m f) Q E"
  using assms by (fastforce simp: hoare_def mbind_def split: prod.splits sum.splits)

lemma hoare_ret [hoare_rules]: "hoare (Q x) (ret x) Q E"
  by (simp add: hoare_def)

lemma hoare_throw [hoare_rules]: "hoare (E e) (throw e) Q E"
  by (simp add: hoare_def)

lemma hoare_gets [hoare_rules]: "hoare (\<lambda>s. Q (f s) s) (gets f) Q E"
  by (simp add: hoare_def)

lemma hoare_modify [hoare_rules]: "hoare (\<lambda>s. Q () (f s)) (modify f) Q E"
  by (simp add: hoare_def)

lemma hoare_if [hoare_rules]:
  "(b \<Longrightarrow> hoare P m Q E) \<Longrightarrow> (\<not> b \<Longrightarrow> hoare P n Q E) \<Longrightarrow> hoare P (if b then m else n) Q E"
  by simp

lemma hoare_for_each [hoare_rules]:
  assumes "\<And>x. x \<in> set xs \<Longrightarrow> hoare I (f x) (\<lambda>_. I) E"
  shows "hoare I (for_each xs f) (\<lambda>_. I) E"
  using assms
proof (induction xs)
  case Nil
  then show ?case by (simp add: hoare_def)
next
  case (Cons x xs)
  then have "hoare I (f x) (\<lambda>_. I) E" and "hoare I (for_each xs f) (\<lambda>_. I) E" by auto
  then show ?case by (auto intro: hoare_bind)
qed

section \<open>std::map as a sorted association list\<close>

fun smap_put :: "'k::linorder \<Rightarrow> 'v \<Rightarrow> ('k \<times> 'v) list \<Rightarrow> ('k \<times> 'v) list" where
  "smap_put k v [] = [(k, v)]"
| "smap_put k v ((k', v') # m) =
     (if k < k' then (k, v) # (k', v') # m
      else if k = k' then (k, v) # m
      else (k', v') # smap_put k v m)"

definition smap_ok :: "('k::linorder \<times> 'v) list \<Rightarrow> bool" where
  "smap_ok m \<longleftrightarrow> sorted_wrt (<) (map fst m)"

lemma map_of_smap_put [simp]: "map_of (smap_put k v m) = (map_of m)(k \<mapsto> v)"
  by (induction k v m rule: smap_put.induct) (auto simp: fun_eq_iff)

lemma set_smap_put_keys [simp]: "fst ` set (smap_put k v m) = insert k (fst ` set m)"
  by (induction k v m rule: smap_put.induct) auto

lemma smap_ok_Nil [simp]: "smap_ok []"
  by (simp add: smap_ok_def)

lemma smap_ok_put [simp]: "smap_ok m \<Longrightarrow> smap_ok (smap_put k v m)"
proof (induction k v m rule: smap_put.induct)
  case (2 k v k' v' m)
  have "\<forall>x \<in> fst ` set (smap_put k v m). k' < x" if "k' < k" "smap_ok ((k', v') # m)"
    using that by (auto simp: smap_ok_def)
  with 2 show ?case by (auto simp: smap_ok_def not_less)
qed (simp add: smap_ok_def)

lemma smap_ok_distinct: "smap_ok m \<Longrightarrow> distinct (map fst m)"
  unfolding smap_ok_def
  by (induction m) (auto simp: image_iff)

lemma smap_ok_map_of: "smap_ok m \<Longrightarrow> (k, v) \<in> set m \<longleftrightarrow> map_of m k = Some v"
  by (simp add: smap_ok_distinct)

lemma smap_put_size:
  "smap_ok m \<Longrightarrow> length (smap_put k v m) = (if k \<in> dom (map_of m) then length m else Suc (length m))"
proof -
  assume ok: "smap_ok m"
  have "length (smap_put k v m) = card (fst ` set (smap_put k v m))"
    using smap_ok_distinct [OF smap_ok_put [OF ok, of k v]] by (metis distinct_card length_map list.set_map)
  also have "\<dots> = card (insert k (fst ` set m))" by simp
  also have "\<dots> = (if k \<in> fst ` set m then length m else Suc (length m))"
    using smap_ok_distinct [OF ok] by (auto simp: insert_absorb dest: distinct_card)
  finally show ?thesis by (simp add: dom_map_of_conv_image_fst)
qed

section \<open>The type int at its width\<close>

definition int32 :: "int \<Rightarrow> bool" where
  "int32 n \<longleftrightarrow> - (2 ^ 31) \<le> n \<and> n < 2 ^ 31"

text \<open>The conversion of a wider integer to \<open>int\<close>: two's complement wrap-around.\<close>

definition to_int32 :: "int \<Rightarrow> int" where
  "to_int32 n = (n + 2 ^ 31) mod 2 ^ 32 - 2 ^ 31"

lemma int32_to_int32 [simp]: "int32 (to_int32 n)"
  by (simp add: int32_def to_int32_def pos_mod_bound [of "2 ^ 32"])

lemma to_int32_id [simp]: "int32 n \<Longrightarrow> to_int32 n = n"
  by (simp add: int32_def to_int32_def)

lemma to_int32_idem: "to_int32 (to_int32 n) = to_int32 n"
  by simp

section \<open>Decimal text\<close>

definition is_digit :: "char \<Rightarrow> bool" where
  "is_digit c \<longleftrightarrow> 48 \<le> (of_char c :: nat) \<and> (of_char c :: nat) \<le> 57"

definition digit_val :: "char \<Rightarrow> nat" where
  "digit_val c = of_char c - 48"

definition digit_char :: "nat \<Rightarrow> char" where
  "digit_char d = char_of (48 + d)"

fun nat_to_string :: "nat \<Rightarrow> string" where
  "nat_to_string n =
     (if n < 10 then [digit_char n] else nat_to_string (n div 10) @ [digit_char (n mod 10)])"

declare nat_to_string.simps [simp del]

text \<open>\<open>std::to_string(int)\<close>.\<close>

definition to_string :: "int \<Rightarrow> string" where
  "to_string i = (if i < 0 then CHR ''-'' # nat_to_string (nat (- i)) else nat_to_string (nat i))"

definition digits_val :: "string \<Rightarrow> nat" where
  "digits_val ds = foldl (\<lambda>a c. a * 10 + digit_val c) 0 ds"

lemma digit_char_digit [simp]: "d < 10 \<Longrightarrow> is_digit (digit_char d)"
  by (simp add: is_digit_def digit_char_def)

lemma digit_val_char [simp]: "d < 10 \<Longrightarrow> digit_val (digit_char d) = d"
  by (simp add: digit_val_def digit_char_def)

lemma digits_val_snoc [simp]: "digits_val (ds @ [c]) = digits_val ds * 10 + digit_val c"
  by (simp add: digits_val_def)

lemma nat_to_string_digits: "\<forall>c \<in> set (nat_to_string n). is_digit c"
proof (induction n rule: nat_to_string.induct)
  case (1 n)
  then show ?case by (subst nat_to_string.simps) auto
qed

lemma nat_to_string_nonempty [simp]: "nat_to_string n \<noteq> []"
  by (subst nat_to_string.simps) simp

lemma digits_val_nat_to_string [simp]: "digits_val (nat_to_string n) = n"
proof (induction n rule: nat_to_string.induct)
  case (1 n)
  show ?case
  proof (cases "n < 10")
    case True
    then show ?thesis by (subst nat_to_string.simps) (simp add: digits_val_def)
  next
    case False
    with 1 show ?thesis by (subst nat_to_string.simps) simp
  qed
qed

lemma to_string_inject [simp]: "to_string i = to_string j \<longleftrightarrow> i = j"
proof
  assume eq: "to_string i = to_string j"
  have minus: "CHR ''-'' \<notin> set (nat_to_string n)" for n
    using nat_to_string_digits [of n] by (auto simp: is_digit_def)
  have nat_inj: "nat_to_string m = nat_to_string n \<Longrightarrow> m = n" for m n
    by (metis digits_val_nat_to_string)
  show "i = j"
    using eq minus [of "nat i"] minus [of "nat j"]
    by (auto simp: to_string_def dest!: nat_inj split: if_splits) (metis list.set_intros(1))+
qed simp

text \<open>
  \<open>std::stringstream(s) >> number\<close> into an \<open>int\<close> set to 0 before: white space is skipped, an
  optional sign and the longest run of digits are read; with no digit the result is 0, and a
  value that does not fit is replaced by the nearest \<open>int\<close>.
\<close>

definition is_space :: "char \<Rightarrow> bool" where
  "is_space c \<longleftrightarrow> c = CHR '' '' \<or> (9 \<le> (of_char c :: nat) \<and> (of_char c :: nat) \<le> 13)"

definition clamp_int32 :: "int \<Rightarrow> int" where
  "clamp_int32 n = (if n < - (2 ^ 31) then - (2 ^ 31) else if 2 ^ 31 \<le> n then 2 ^ 31 - 1 else n)"

definition stream_read_int :: "string \<Rightarrow> int" where
  "stream_read_int s =
     (case dropWhile is_space s of
        [] \<Rightarrow> 0
      | c # cs \<Rightarrow>
          let neg = (c = CHR ''-'');
              rest = (if c = CHR ''-'' \<or> c = CHR ''+'' then cs else c # cs);
              ds = takeWhile is_digit rest
          in if ds = [] then 0
             else clamp_int32 (if neg then - int (digits_val ds) else int (digits_val ds)))"

lemma clamp_int32_id [simp]: "int32 n \<Longrightarrow> clamp_int32 n = n"
  by (simp add: clamp_int32_def int32_def)

lemma int32_clamp_int32 [simp]: "int32 (clamp_int32 n)"
  by (simp add: clamp_int32_def int32_def)

lemma int32_stream_read_int [simp]: "int32 (stream_read_int s)"
  by (simp add: stream_read_int_def Let_def int32_def clamp_int32_def split: list.split)

lemma digit_not_space: "is_digit c \<Longrightarrow> \<not> is_space c"
  by (auto simp: is_digit_def is_space_def)

lemma digit_not_sign: "is_digit c \<Longrightarrow> c \<noteq> CHR ''-'' \<and> c \<noteq> CHR ''+''"
  by (auto simp: is_digit_def)

text \<open>What the database prints as a decimal number is read back as that number.\<close>

lemma stream_read_int_to_string [simp]:
  assumes "int32 n"
  shows "stream_read_int (to_string n) = n"
proof (cases "n < 0")
  case True
  have all: "takeWhile is_digit (nat_to_string (nat (- n))) = nat_to_string (nat (- n))"
    by (simp add: nat_to_string_digits)
  from True assms show ?thesis
    by (simp add: stream_read_int_def to_string_def is_space_def Let_def all)
next
  case False
  obtain c cs where c: "nat_to_string (nat n) = c # cs"
    by (metis nat_to_string_nonempty neq_Nil_conv)
  then have dig: "is_digit c" using nat_to_string_digits [of "nat n"] by simp
  have all: "takeWhile is_digit (c # cs) = c # cs"
    unfolding c [symmetric] by (simp add: nat_to_string_digits)
  have val: "digits_val (c # cs) = nat n" unfolding c [symmetric] by simp
  show ?thesis using False assms
    by (simp add: stream_read_int_def to_string_def c digit_not_space [OF dig]
        digit_not_sign [OF dig] Let_def all val del: takeWhile.simps)
qed

section \<open>C strings\<close>

text \<open>
  A \<open>std::string\<close> handed to a C interface as \<open>c_str()\<close>, or built from a \<open>char *\<close>, ends at the
  first NUL.
\<close>

definition c_str :: "string \<Rightarrow> string" where
  "c_str s = takeWhile (\<lambda>c. c \<noteq> CHR 0x00) s"

lemma c_str_id [simp]: "CHR 0x00 \<notin> set s \<Longrightarrow> c_str s = s"
  by (auto simp: c_str_def takeWhile_eq_all_conv)

lemma c_str_no_nul [simp]: "CHR 0x00 \<notin> set (c_str s)"
  by (auto simp: c_str_def dest: set_takeWhileD)

lemma to_string_no_nul [simp]: "CHR 0x00 \<notin> set (to_string i)"
  using nat_to_string_digits [of "nat i"] nat_to_string_digits [of "nat (- i)"]
  by (auto simp: to_string_def is_digit_def)

end
