(* ===== verification/Sql_Text.thy ===== *)
theory Sql_Text
  imports Prelude
begin

text \<open>
  The text the server sends to MySQL: \<open>MySqlStorageConnection::prepareStringValue\<close> and the query
  strings of \<open>src/database/mysql_storage_connection.cpp\<close>, character for character, as functions
  of the values the source inserts into them. \<open>scan_literal\<close> is how the MySQL manual says a
  double-quoted string literal is read (section String Literals, default SQL mode); it is used
  to state that a prepared value is read back as the value, whatever it contains.
\<close>

section \<open>String values\<close>

definition escape_char :: "char \<Rightarrow> string" where
  "escape_char c =
     (if c = CHR 0x0A then [CHR 0x5C, CHR ''n'']
      else if c = CHR 0x0D then [CHR 0x5C, CHR ''r'']
      else if c = CHR 0x5C \<or> c = CHR 0x22 \<or> c = CHR 0x27 then [CHR 0x5C, c]
      else if c = CHR 0x00 then [CHR 0x5C, CHR ''0'']
      else [c])"

definition prepareStringValue :: "string \<Rightarrow> string" where
  "prepareStringValue sValue = [CHR 0x22] @ concat (map escape_char sValue) @ [CHR 0x22]"

definition paramtoInt :: "string \<Rightarrow> int" where
  "paramtoInt p = stream_read_int (c_str p)"

text \<open>The character an escape sequence stands for; the escapes for pattern matching keep the backslash.\<close>

definition mysql_unescape :: "char \<Rightarrow> string" where
  "mysql_unescape d =
     (if d = CHR ''0'' then [CHR 0x00]
      else if d = CHR ''n'' then [CHR 0x0A]
      else if d = CHR ''r'' then [CHR 0x0D]
      else if d = CHR ''t'' then [CHR 0x09]
      else if d = CHR ''b'' then [CHR 0x08]
      else if d = CHR ''Z'' then [CHR 0x1A]
      else if d = CHR ''%'' \<or> d = CHR ''_'' then [CHR 0x5C, d]
      else [d])"

text \<open>The rest of a literal after its opening quote: its value and the text that follows it.\<close>

fun scan_body :: "string \<Rightarrow> (string \<times> string) option" where
  "scan_body [] = None"
| "scan_body (c # cs) =
     (if c = CHR 0x22 then
        (case cs of
           d # ds \<Rightarrow> (if d = CHR 0x22 then map_option (apfst (\<lambda>s. CHR 0x22 # s)) (scan_body ds)
                       else Some ([], cs))
         | [] \<Rightarrow> Some ([], []))
      else if c = CHR 0x5C then
        (case cs of
           [] \<Rightarrow> None
         | d # ds \<Rightarrow> map_option (apfst (\<lambda>s. mysql_unescape d @ s)) (scan_body ds))
      else map_option (apfst (\<lambda>s. c # s)) (scan_body cs))"

definition scan_literal :: "string \<Rightarrow> (string \<times> string) option" where
  "scan_literal s = (case s of [] \<Rightarrow> None | c # cs \<Rightarrow> if c = CHR 0x22 then scan_body cs else None)"

section \<open>Query texts\<close>

definition sql_last_db_version :: string where
  "sql_last_db_version =
     ''SELECT version FROM webdiff_db_updates ORDER BY dt DESC, version DESC LIMIT 0,1''"

definition sql_create_db_updates :: string where
  "sql_create_db_updates =
     '' CREATE TABLE webdiff_db_updates ('' @
     ''     `id` int(11) NOT NULL AUTO_INCREMENT,'' @
     ''     `version` int(11) NOT NULL,'' @
     ''     `dt` datetime NOT NULL,'' @
     ''     PRIMARY KEY (`id`)'' @
     '' ) ENGINE=InnoDB DEFAULT CHARSET=utf8 AUTO_INCREMENT=1;''"

definition sql_insert_update_info :: "int \<Rightarrow> string" where
  "sql_insert_update_info nVersion =
     ''INSERT INTO webdiff_db_updates(version, dt) '' @
     '' VALUES('' @ to_string nVersion @ '', NOW());''"

definition sql_select_versions :: string where
  "sql_select_versions = ''SELECT id, `name` FROM webdiff_versions ORDER BY `name`''"

definition sql_select_groups :: string where
  "sql_select_groups = ''SELECT id, `name` FROM webdiff_file_groups ORDER BY `name`''"

definition sql_groups_of_version :: "int \<Rightarrow> string" where
  "sql_groups_of_version nVersionId =
     '' SELECT'' @
     ''   version_id,'' @
     ''   file_group_id,'' @
     ''   `name` as title,'' @
     ''   COUNT(*) as amount_of_files'' @
     '' FROM webdiff_files'' @
     '' INNER JOIN webdiff_file_groups t1 ON t1.id = file_group_id'' @
     '' WHERE version_id = '' @ to_string nVersionId @
     '' GROUP BY version_id, file_group_id''"

definition sql_comments_of :: "int \<Rightarrow> string" where
  "sql_comments_of nDefineFileId =
     '' SELECT'' @
     ''   t0.id,'' @
     ''   t0.define_file_id,'' @
     ''   t0.comment'' @
     '' FROM webdiff_define_files_comments t0'' @
     '' WHERE t0.define_file_id = '' @ to_string nDefineFileId @ '' AND hided = 0'' @
     '' ORDER BY dt_created DESC''"

definition sql_files_of :: "int \<Rightarrow> int \<Rightarrow> int \<Rightarrow> string" where
  "sql_files_of nVersionId nGroupId nParentId =
     '' SELECT'' @
     ''   t0.version_id,'' @
     ''   t0.file_group_id,'' @
     ''   t0.id as file_id,'' @
     ''   t0.amount_of_children,'' @
     ''   t1.filename as title'' @
     '' FROM webdiff_files t0'' @
     '' INNER JOIN webdiff_define_files t1 ON t1.id = define_file_id'' @
     '' WHERE t0.version_id = '' @ to_string nVersionId @
     '' AND file_group_id = '' @ to_string nGroupId @
     '' AND t0.parent_id = '' @ to_string nParentId @
     '' ORDER BY t0.amount_of_children <> 0 DESC, title''"

definition sql_file_by_id :: "int \<Rightarrow> string" where
  "sql_file_by_id nFileId =
     '' SELECT'' @
     ''   t0.id,'' @
     ''   t0.parent_id,'' @
     ''   t0.amount_of_children,'' @
     ''   t0.define_file_id,'' @
     ''   t1.filepath,'' @
     ''   t1.filename'' @
     '' FROM webdiff_files t0'' @
     '' INNER JOIN webdiff_define_files t1 ON t1.id = t0.define_file_id'' @
     '' WHERE t0.id = '' @ to_string nFileId @ '';''"

definition sql_diff_files :: "int \<Rightarrow> int \<Rightarrow> string" where
  "sql_diff_files nLeftVersionId nRightVersionId =
     ''SELECT '' @
     ''    t0.id, '' @
     ''    t0.parent_id, '' @
     ''    t0.file_group_id, '' @
     ''    t0.amount_of_children, '' @
     ''    t2.name as group_name, '' @
     ''    t0.define_file_id, '' @
     ''    t1.filepath, '' @
     ''    t1.filename '' @
     ''FROM webdiff_files t0 '' @
     ''INNER JOIN webdiff_define_files t1 ON t1.id = t0.define_file_id '' @
     ''INNER JOIN webdiff_file_groups t2 ON t2.id = t0.file_group_id '' @
     ''WHERE '' @
     ''  version_id = '' @ to_string nLeftVersionId @
     ''  AND define_file_id NOT IN (SELECT define_file_id FROM webdiff_files t10 WHERE version_id = '' @
     to_string nRightVersionId @ '' AND t0.file_group_id = t10.file_group_id); ''"

definition sql_insert_comment :: "int \<Rightarrow> string \<Rightarrow> string" where
  "sql_insert_comment nDefineFileId comment_literal =
     '' INSERT INTO webdiff_define_files_comments(define_file_id, comment, dt_created)'' @
     '' VALUES('' @ to_string nDefineFileId @ '','' @ comment_literal @ '',NOW());''"

definition sql_hide_comment :: "int \<Rightarrow> string" where
  "sql_hide_comment nCommentId =
     ''  UPDATE webdiff_define_files_comments SET hided = 1 WHERE id = '' @ to_string nCommentId @ '';''"

definition sql_insert_version :: "string \<Rightarrow> string" where
  "sql_insert_version name_literal =
     '' INSERT INTO webdiff_versions(`name`, comment)'' @
     '' VALUES('' @ name_literal @ '','' @ [CHR 0x27, CHR 0x27] @ '');''"

definition sql_insert_group :: "string \<Rightarrow> string" where
  "sql_insert_group name_literal =
     '' INSERT INTO webdiff_file_groups(`name`)'' @
     '' VALUES('' @ name_literal @ '');''"

definition sql_insert_define_file :: "string \<Rightarrow> string \<Rightarrow> int \<Rightarrow> string" where
  "sql_insert_define_file path_literal name_literal nParentId =
     '' INSERT INTO webdiff_define_files(filepath, `filename`, parent_id)'' @
     '' VALUES('' @ path_literal @ '', '' @ name_literal @ '', '' @ to_string nParentId @ '');''"

definition sql_select_define_files :: string where
  "sql_select_define_files = '' SELECT id, filepath FROM webdiff_define_files;''"

definition sql_select_files :: string where
  "sql_select_files = '' SELECT id, version_id, define_file_id, file_group_id FROM webdiff_files;''"

definition sql_insert_file :: "int \<Rightarrow> int \<Rightarrow> int \<Rightarrow> int \<Rightarrow> string" where
  "sql_insert_file nVersionId nGroupId nDefineFileId nFileParentId =
     '' INSERT INTO webdiff_files(version_id, file_group_id, define_file_id,  parent_id)'' @
     '' VALUES('' @ to_string nVersionId @ '','' @ to_string nGroupId @ '','' @
     to_string nDefineFileId @ '','' @ to_string nFileParentId @ '');''"

definition sql_count_children :: "int \<Rightarrow> string" where
  "sql_count_children nFileParentId =
     '' SELECT COUNT(id) as cnt FROM webdiff_files WHERE parent_id = '' @ to_string nFileParentId @ '';''"

definition sql_set_children :: "int \<Rightarrow> int \<Rightarrow> string" where
  "sql_set_children nAmountOfChildren nFileParentId =
     '' UPDATE webdiff_files SET amount_of_children = '' @ to_string nAmountOfChildren @
     '' WHERE id = '' @ to_string nFileParentId @ '';''"

section \<open>Prepared values\<close>

lemma escape_char_no_nul: "CHR 0x00 \<notin> set (escape_char c)"
  by (auto simp: escape_char_def)

lemma prepareStringValue_no_nul [simp]: "CHR 0x00 \<notin> set (prepareStringValue s)"
  using escape_char_no_nul by (auto simp: prepareStringValue_def)

lemma scan_body_plain:
  "c \<noteq> CHR 0x22 \<Longrightarrow> c \<noteq> CHR 0x5C \<Longrightarrow>
     scan_body (c # cs) = map_option (apfst (\<lambda>s. c # s)) (scan_body cs)"
  by simp

lemma scan_body_backslash:
  "scan_body (CHR 0x5C # d # cs) = map_option (apfst (\<lambda>s. mysql_unescape d @ s)) (scan_body cs)"
  by simp

lemma scan_body_quote:
  "rest = [] \<or> hd rest \<noteq> CHR 0x22 \<Longrightarrow> scan_body (CHR 0x22 # rest) = Some ([], rest)"
  by (cases rest) simp_all

declare scan_body.simps [simp del]

lemma scan_body_escape:
  "scan_body (escape_char c @ cs) = map_option (apfst (\<lambda>s. c # s)) (scan_body cs)"
proof -
  consider "c = CHR 0x0A" | "c = CHR 0x0D" | "c = CHR 0x5C" | "c = CHR 0x22" | "c = CHR 0x27"
    | "c = CHR 0x00" | "c \<noteq> CHR 0x22" "c \<noteq> CHR 0x5C" "escape_char c = [c]"
    by (cases "escape_char c = [c]") (auto simp: escape_char_def split: if_splits)
  then show ?thesis
    by cases (simp_all add: escape_char_def scan_body_backslash scan_body_plain mysql_unescape_def)
qed

lemma scan_body_prepared:
  "rest = [] \<or> hd rest \<noteq> CHR 0x22 \<Longrightarrow>
     scan_body (concat (map escape_char s) @ CHR 0x22 # rest) = Some (s, rest)"
proof (induction s)
  case Nil
  then show ?case by (simp add: scan_body_quote)
next
  case (Cons c s)
  then show ?case by (simp add: scan_body_escape)
qed

lemma scan_literal_prepared:
  "rest = [] \<or> hd rest \<noteq> CHR 0x22 \<Longrightarrow> scan_literal (prepareStringValue s @ rest) = Some (s, rest)"
  by (simp add: scan_literal_def prepareStringValue_def scan_body_prepared)

text \<open>
  C8: whatever text a client sends, MySQL reads the prepared value as one string literal whose
  value is exactly that text, ending where the query text goes on, and the value hides no NUL that
  would cut the query off. No client text can end the literal early.
\<close>

theorem prepared_value_is_one_literal:
  assumes "rest = [] \<or> hd rest \<noteq> CHR 0x22"
  shows "scan_literal (prepareStringValue s @ rest) = Some (s, rest) \<and>
         CHR 0x00 \<notin> set (prepareStringValue s)"
  using scan_literal_prepared [OF assms] by simp

theorem prepared_value_is_one_literal_witness:
  "hd '');'' \<noteq> CHR 0x22 \<and>
   scan_literal (prepareStringValue ([CHR 0x22] @ '');DROP TABLE webdiff_files;--'' @ [CHR 0x5C]) @ '');'')
     = Some ([CHR 0x22] @ '');DROP TABLE webdiff_files;--'' @ [CHR 0x5C], '');'')"
  using prepared_value_is_one_literal
    [of "'');''" "[CHR 0x22] @ '');DROP TABLE webdiff_files;--'' @ [CHR 0x5C]"]
  by simp

end
