(* ===== verification/Json.thy ===== *)
theory Json
  imports Prelude
begin

text \<open>
  The part of \<open>nlohmann::json\<close> (\<open>src.wsjcpp/nlohmann_json/json.hpp\<close>) that the server uses: the
  value type, element access by key and by position, \<open>size\<close>, \<open>push_back\<close>, and the
  conversions to \<open>int\<close>, \<open>bool\<close> and \<open>std::string\<close> with the exceptions they throw.

  An object is a \<open>std::map<std::string, json>\<close>, a key-sorted association list. A number
  parsed with a fraction or an exponent is a binary floating-point value \<open>m * 2 ^ e\<close>
  (\<open>JFloat m e\<close>). The text form (\<open>parse\<close>, \<open>dump\<close>) is not modelled: messages
  are JSON values.
\<close>

datatype json =
    JNull
  | JBoolean bool
  | JInteger int
  | JUnsigned nat
  | JFloat int int
  | JString string
  | JArray "json list"
  | JObject "(string \<times> json) list"

section \<open>Element access\<close>

text \<open>
  \<open>j[key]\<close> on a value that is then read. A missing key reads as null and null reads as an
  empty object; every other kind of value throws 305. The library also stores the null it
  returns for a missing key, which a later read of the same key cannot tell apart.
\<close>

definition json_index :: "json \<Rightarrow> string \<Rightarrow> cpp_error + json" where
  "json_index j k =
     (case j of
        JNull \<Rightarrow> Inr JNull
      | JObject m \<Rightarrow> Inr (case map_of m k of None \<Rightarrow> JNull | Some v \<Rightarrow> v)
      | _ \<Rightarrow> Inl (Json_type_error 305))"

text \<open>\<open>j[key] = v\<close>: null turns into an object first.\<close>

definition json_set :: "string \<Rightarrow> json \<Rightarrow> json \<Rightarrow> cpp_error + json" where
  "json_set k v j =
     (case j of
        JNull \<Rightarrow> Inr (JObject [(k, v)])
      | JObject m \<Rightarrow> Inr (JObject (smap_put k v m))
      | _ \<Rightarrow> Inl (Json_type_error 305))"

text \<open>\<open>push_back\<close>: null turns into an array first.\<close>

definition json_push_back :: "json \<Rightarrow> json \<Rightarrow> cpp_error + json" where
  "json_push_back v j =
     (case j of
        JNull \<Rightarrow> Inr (JArray [v])
      | JArray xs \<Rightarrow> Inr (JArray (xs @ [v]))
      | _ \<Rightarrow> Inl (Json_type_error 308))"

definition json_size :: "json \<Rightarrow> nat" where
  "json_size j = (case j of JNull \<Rightarrow> 0 | JArray xs \<Rightarrow> length xs | JObject m \<Rightarrow> length m | _ \<Rightarrow> 1)"

definition json_at :: "json \<Rightarrow> nat \<Rightarrow> cpp_error + json" where
  "json_at j i =
     (case j of
        JArray xs \<Rightarrow> (if i < length xs then Inr (xs ! i) else Inl (Json_out_of_range 401))
      | _ \<Rightarrow> Inl (Json_type_error 304))"

section \<open>Conversions\<close>

text \<open>Conversion of a floating-point value to an integer truncates towards zero.\<close>

definition float_trunc :: "int \<Rightarrow> int \<Rightarrow> int" where
  "float_trunc m e = (if 0 \<le> e then m * 2 ^ nat e else sgn m * (\<bar>m\<bar> div 2 ^ nat (- e)))"

definition json_get_int :: "json \<Rightarrow> cpp_error + int" where
  "json_get_int j =
     (case j of
        JUnsigned n \<Rightarrow> Inr (to_int32 (int n))
      | JInteger n \<Rightarrow> Inr (to_int32 n)
      | JFloat m e \<Rightarrow>
          (if int32 (float_trunc m e) then Inr (float_trunc m e) else Inl Undefined_behaviour)
      | JBoolean b \<Rightarrow> Inr (if b then 1 else 0)
      | _ \<Rightarrow> Inl (Json_type_error 302))"

definition json_get_bool :: "json \<Rightarrow> cpp_error + bool" where
  "json_get_bool j = (case j of JBoolean b \<Rightarrow> Inr b | _ \<Rightarrow> Inl (Json_type_error 302))"

definition json_get_string :: "json \<Rightarrow> cpp_error + string" where
  "json_get_string j = (case j of JString s \<Rightarrow> Inr s | _ \<Rightarrow> Inl (Json_type_error 302))"

text \<open>A field read and converted in one statement, as in \<open>int n = j["key"]\<close>.\<close>

definition json_field :: "(json \<Rightarrow> cpp_error + 'a) \<Rightarrow> json \<Rightarrow> string \<Rightarrow> cpp_error + 'a" where
  "json_field conv j k = (case json_index j k of Inl e \<Rightarrow> Inl e | Inr v \<Rightarrow> conv v)"

section \<open>Building objects\<close>

text \<open>
  A fresh \<open>nlohmann::json\<close> filled by a sequence of assignments \<open>j[key] = v\<close>. It starts as null,
  so no assignment of the sequence throws, and it stays null when there is none.
\<close>

definition json_build :: "(string \<times> json) list \<Rightarrow> json" where
  "json_build kvs =
     foldl (\<lambda>j (k, v). case json_set k v j of Inl _ \<Rightarrow> j | Inr j' \<Rightarrow> j') JNull kvs"

lemma json_build_Nil [simp]: "json_build [] = JNull"
  by (simp add: json_build_def)

lemma json_build_Cons:
  "json_build ((k, v) # kvs) = JObject (foldl (\<lambda>m (k, v). smap_put k v m) [(k, v)] kvs)"
proof -
  have "foldl (\<lambda>j (k, v). case json_set k v j of Inl _ \<Rightarrow> j | Inr j' \<Rightarrow> j') (JObject m) kvs
        = JObject (foldl (\<lambda>m (k, v). smap_put k v m) m kvs)" for m
    by (induction kvs arbitrary: m) (auto simp: json_set_def)
  then show ?thesis by (simp add: json_build_def json_set_def)
qed

lemma map_of_foldl_smap_put:
  "map_of (foldl (\<lambda>m (k, v). smap_put k v m) m kvs) k =
     (case map_of (rev kvs) k of None \<Rightarrow> map_of m k | Some v \<Rightarrow> Some v)"
  by (induction kvs arbitrary: m)
     (auto simp: map_add_def split: option.splits)

text \<open>Reading a built object gives the last value assigned to the key, or null.\<close>

lemma json_index_build:
  "json_index (json_build kvs) k =
     Inr (case map_of (rev kvs) k of None \<Rightarrow> JNull | Some v \<Rightarrow> v)"
proof (cases kvs)
  case Nil
  then show ?thesis by (simp add: json_index_def)
next
  case (Cons kv kvs')
  obtain k' v' where kv: "kv = (k', v')" by fastforce
  have "map_of (rev ((k', v') # kvs')) k =
          (case map_of (rev kvs') k of None \<Rightarrow> map_of [(k', v')] k | Some v \<Rightarrow> Some v)"
    by (auto simp: map_add_def split: option.splits)
  then show ?thesis
    by (simp add: Cons kv json_index_def json_build_Cons map_of_foldl_smap_put)
qed

lemma json_index_set:
  "json_set k v j = Inr j' \<Longrightarrow>
     json_index j' k' = (if k' = k then Inr v else json_index j k')"
  by (auto simp: json_set_def json_index_def split: json.splits)

lemma int32_json_get_int: "json_get_int j = Inr n \<Longrightarrow> int32 n"
  by (auto simp: json_get_int_def int32_def to_int32_def split: json.splits if_splits)

lemma json_size_at: "json_at j i = Inr v \<Longrightarrow> i < json_size j"
  by (auto simp: json_at_def json_size_def split: json.splits if_splits)

end
