(* ===== verification/Models_Basic.thy ===== *)
theory Models_Basic
  imports Json
begin

text \<open>
  The value classes of \<open>src/database/models_basic.h\<close> and \<open>models_basic.cpp\<close>: versions, groups,
  groups of one version, files. Each class is a record, its default constructor a constant, its
  setters record updates, and \<open>toJson\<close> the sequence of assignments of the source. Members that
  a constructor leaves indeterminate are \<open>None\<close>.
\<close>

section \<open>ModelVersion\<close>

record ModelVersion =
  ver_nId :: int
  ver_sName :: string

definition ModelVersion_new :: ModelVersion where
  "ModelVersion_new = \<lparr>ver_nId = -1, ver_sName = ''None''\<rparr>"

definition ModelVersion_setId :: "int \<Rightarrow> ModelVersion \<Rightarrow> ModelVersion" where
  "ModelVersion_setId nId v = v\<lparr>ver_nId := nId\<rparr>"

definition ModelVersion_setName :: "string \<Rightarrow> ModelVersion \<Rightarrow> ModelVersion" where
  "ModelVersion_setName sName v = v\<lparr>ver_sName := sName\<rparr>"

definition ModelVersion_toJson :: "ModelVersion \<Rightarrow> json" where
  "ModelVersion_toJson v =
     json_build [(''version_id'', JInteger (ver_nId v)), (''name'', JString (ver_sName v))]"

section \<open>ModelGroup\<close>

record ModelGroup =
  grp_nId :: int
  grp_sTitle :: string

definition ModelGroup_new :: ModelGroup where
  "ModelGroup_new = \<lparr>grp_nId = -1, grp_sTitle = ''None''\<rparr>"

definition ModelGroup_setId :: "int \<Rightarrow> ModelGroup \<Rightarrow> ModelGroup" where
  "ModelGroup_setId nId g = g\<lparr>grp_nId := nId\<rparr>"

definition ModelGroup_setTitle :: "string \<Rightarrow> ModelGroup \<Rightarrow> ModelGroup" where
  "ModelGroup_setTitle sTitle g = g\<lparr>grp_sTitle := sTitle\<rparr>"

definition ModelGroup_toJson :: "ModelGroup \<Rightarrow> json" where
  "ModelGroup_toJson g =
     json_build [(''group_id'', JInteger (grp_nId g)), (''name'', JString (grp_sTitle g))]"

section \<open>ModelGroupForVersion\<close>

record ModelGroupForVersion =
  gfv_nGroupId :: int
  gfv_nVersionId :: int
  gfv_sTitle :: string
  gfv_nAmountOfFiles :: int

definition ModelGroupForVersion_new :: ModelGroupForVersion where
  "ModelGroupForVersion_new =
     \<lparr>gfv_nGroupId = -1, gfv_nVersionId = -1, gfv_sTitle = ''None'', gfv_nAmountOfFiles = 0\<rparr>"

definition ModelGroupForVersion_setId :: "int \<Rightarrow> ModelGroupForVersion \<Rightarrow> ModelGroupForVersion" where
  "ModelGroupForVersion_setId nId g = g\<lparr>gfv_nGroupId := nId\<rparr>"

definition ModelGroupForVersion_setVersionId ::
    "int \<Rightarrow> ModelGroupForVersion \<Rightarrow> ModelGroupForVersion" where
  "ModelGroupForVersion_setVersionId nId g = g\<lparr>gfv_nVersionId := nId\<rparr>"

definition ModelGroupForVersion_setTitle ::
    "string \<Rightarrow> ModelGroupForVersion \<Rightarrow> ModelGroupForVersion" where
  "ModelGroupForVersion_setTitle sTitle g = g\<lparr>gfv_sTitle := sTitle\<rparr>"

definition ModelGroupForVersion_setAmountOfFiles ::
    "int \<Rightarrow> ModelGroupForVersion \<Rightarrow> ModelGroupForVersion" where
  "ModelGroupForVersion_setAmountOfFiles nAmountOfFiles g = g\<lparr>gfv_nAmountOfFiles := nAmountOfFiles\<rparr>"

definition ModelGroupForVersion_toJson :: "ModelGroupForVersion \<Rightarrow> json" where
  "ModelGroupForVersion_toJson g =
     json_build
       [(''version_id'', JInteger (gfv_nVersionId g)),
        (''group_id'', JInteger (gfv_nGroupId g)),
        (''title'', JString (gfv_sTitle g)),
        (''amount_of_files'', JInteger (gfv_nAmountOfFiles g))]"

section \<open>ModelFile\<close>

record ModelFile =
  file_nFileId :: int
  file_nGroupId :: int
  file_nVersionId :: int
  file_nDefineFileId :: int
  file_nAmountOfChildren :: int
  file_sTitle :: string
  file_sPath :: string
  file_nSize :: "int option"
  file_nCompressSize :: "int option"
  file_sMode :: string
  file_bIsDir :: "bool option"
  file_sDatetime :: string

definition ModelFile_new :: ModelFile where
  "ModelFile_new =
     \<lparr>file_nFileId = -1, file_nGroupId = -1, file_nVersionId = -1, file_nDefineFileId = -1,
      file_nAmountOfChildren = 0, file_sTitle = ''None'', file_sPath = '''', file_nSize = None,
      file_nCompressSize = None, file_sMode = '''', file_bIsDir = None, file_sDatetime = ''''\<rparr>"

definition ModelFile_setId :: "int \<Rightarrow> ModelFile \<Rightarrow> ModelFile" where
  "ModelFile_setId n f = f\<lparr>file_nFileId := n\<rparr>"

definition ModelFile_setGroupId :: "int \<Rightarrow> ModelFile \<Rightarrow> ModelFile" where
  "ModelFile_setGroupId n f = f\<lparr>file_nGroupId := n\<rparr>"

definition ModelFile_setVersionId :: "int \<Rightarrow> ModelFile \<Rightarrow> ModelFile" where
  "ModelFile_setVersionId n f = f\<lparr>file_nVersionId := n\<rparr>"

definition ModelFile_setDefineFileId :: "int \<Rightarrow> ModelFile \<Rightarrow> ModelFile" where
  "ModelFile_setDefineFileId n f = f\<lparr>file_nDefineFileId := n\<rparr>"

definition ModelFile_setAmountOfChildren :: "int \<Rightarrow> ModelFile \<Rightarrow> ModelFile" where
  "ModelFile_setAmountOfChildren n f = f\<lparr>file_nAmountOfChildren := n\<rparr>"

definition ModelFile_setTitle :: "string \<Rightarrow> ModelFile \<Rightarrow> ModelFile" where
  "ModelFile_setTitle s f = f\<lparr>file_sTitle := s\<rparr>"

definition ModelFile_setPath :: "string \<Rightarrow> ModelFile \<Rightarrow> ModelFile" where
  "ModelFile_setPath s f = f\<lparr>file_sPath := s\<rparr>"

definition ModelFile_setSize :: "int \<Rightarrow> ModelFile \<Rightarrow> ModelFile" where
  "ModelFile_setSize n f = f\<lparr>file_nSize := Some n\<rparr>"

definition ModelFile_setCompressSize :: "int \<Rightarrow> ModelFile \<Rightarrow> ModelFile" where
  "ModelFile_setCompressSize n f = f\<lparr>file_nCompressSize := Some n\<rparr>"

definition ModelFile_setMode :: "string \<Rightarrow> ModelFile \<Rightarrow> ModelFile" where
  "ModelFile_setMode s f = f\<lparr>file_sMode := s\<rparr>"

definition ModelFile_setIsDir :: "bool \<Rightarrow> ModelFile \<Rightarrow> ModelFile" where
  "ModelFile_setIsDir b f = f\<lparr>file_bIsDir := Some b\<rparr>"

definition ModelFile_setDatetime :: "string \<Rightarrow> ModelFile \<Rightarrow> ModelFile" where
  "ModelFile_setDatetime s f = f\<lparr>file_sDatetime := s\<rparr>"

definition ModelFile_toJson :: "ModelFile \<Rightarrow> json" where
  "ModelFile_toJson f =
     json_build
       [(''version_id'', JInteger (file_nVersionId f)),
        (''group_id'', JInteger (file_nGroupId f)),
        (''def_file_id'', JInteger (file_nDefineFileId f)),
        (''amount_of_children'', JInteger (file_nAmountOfChildren f)),
        (''file_id'', JInteger (file_nFileId f)),
        (''title'', JString (file_sTitle f))]"

lemmas ModelVersion_defs =
  ModelVersion_new_def ModelVersion_setId_def ModelVersion_setName_def

lemmas ModelGroup_defs =
  ModelGroup_new_def ModelGroup_setId_def ModelGroup_setTitle_def

lemmas ModelGroupForVersion_defs =
  ModelGroupForVersion_new_def ModelGroupForVersion_setId_def ModelGroupForVersion_setVersionId_def
  ModelGroupForVersion_setTitle_def ModelGroupForVersion_setAmountOfFiles_def

lemmas ModelFile_defs =
  ModelFile_new_def ModelFile_setId_def ModelFile_setGroupId_def ModelFile_setVersionId_def
  ModelFile_setDefineFileId_def ModelFile_setAmountOfChildren_def ModelFile_setTitle_def

section \<open>What the JSON form carries\<close>

text \<open>
  A client that reads the fields of a serialised object gets the members back. The fields are
  read with the conversions of the JSON library, at the width of \<open>int\<close>.
\<close>

lemma ModelVersion_json_fields:
  assumes "int32 (ver_nId v)"
  shows "json_field json_get_int (ModelVersion_toJson v) ''version_id'' = Inr (ver_nId v)"
    and "json_field json_get_string (ModelVersion_toJson v) ''name'' = Inr (ver_sName v)"
  using assms
  by (simp_all add: ModelVersion_toJson_def json_field_def json_index_build json_get_int_def
      json_get_string_def)

lemma ModelFile_json_fields:
  assumes "int32 (file_nFileId f)" and "int32 (file_nDefineFileId f)"
    and "int32 (file_nAmountOfChildren f)"
  shows "json_field json_get_int (ModelFile_toJson f) ''file_id'' = Inr (file_nFileId f)"
    and "json_field json_get_int (ModelFile_toJson f) ''def_file_id'' = Inr (file_nDefineFileId f)"
    and "json_field json_get_int (ModelFile_toJson f) ''amount_of_children''
           = Inr (file_nAmountOfChildren f)"
    and "json_field json_get_string (ModelFile_toJson f) ''title'' = Inr (file_sTitle f)"
  using assms
  by (simp_all add: ModelFile_toJson_def json_field_def json_index_build json_get_int_def
      json_get_string_def)

end
