(* ===== verification/Models_Diff.thy ===== *)
theory Models_Diff
  imports Models_Basic
begin

text \<open>
  The difference of two versions as \<open>src/database/models_diff.h\<close> and \<open>models_diff.cpp\<close> build it:
  files with a state, grouped by file group, with counters of new and missing files, the
  identifiers needed to look up parents, and the comments of every file definition involved.
  \<open>std::map\<close>s are key-sorted association lists, so iteration is in ascending key order.

  The invariant \<open>diff_groups_ok\<close> ties the redundant members together (counters, identifier
  vectors, keys); every operation keeps it. \<open>diff_files\<close> reads the structure as what it stands
  for: the list of files of each group.
\<close>

section \<open>ModelDiffFile\<close>

record ModelDiffFile =
  dfile_nFileId :: int
  dfile_nParentFileId :: int
  dfile_nVersionId :: int
  dfile_nDefineFileId :: int
  dfile_nAmountOfChildren :: int
  dfile_sFilename :: string
  dfile_sFilepath :: string
  dfile_sState :: string

definition ModelDiffFile_new :: ModelDiffFile where
  "ModelDiffFile_new =
     \<lparr>dfile_nFileId = -1, dfile_nParentFileId = -1, dfile_nVersionId = -1,
      dfile_nDefineFileId = -1, dfile_nAmountOfChildren = 0, dfile_sFilename = ''None'',
      dfile_sFilepath = ''None'', dfile_sState = ''None''\<rparr>"

definition ModelDiffFile_setId :: "int \<Rightarrow> ModelDiffFile \<Rightarrow> ModelDiffFile" where
  "ModelDiffFile_setId n f = f\<lparr>dfile_nFileId := n\<rparr>"

definition ModelDiffFile_setParentFileId :: "int \<Rightarrow> ModelDiffFile \<Rightarrow> ModelDiffFile" where
  "ModelDiffFile_setParentFileId n f = f\<lparr>dfile_nParentFileId := n\<rparr>"

definition ModelDiffFile_setVersionId :: "int \<Rightarrow> ModelDiffFile \<Rightarrow> ModelDiffFile" where
  "ModelDiffFile_setVersionId n f = f\<lparr>dfile_nVersionId := n\<rparr>"

definition ModelDiffFile_setDefineFileId :: "int \<Rightarrow> ModelDiffFile \<Rightarrow> ModelDiffFile" where
  "ModelDiffFile_setDefineFileId n f = f\<lparr>dfile_nDefineFileId := n\<rparr>"

definition ModelDiffFile_setAmountOfChildren :: "int \<Rightarrow> ModelDiffFile \<Rightarrow> ModelDiffFile" where
  "ModelDiffFile_setAmountOfChildren n f = f\<lparr>dfile_nAmountOfChildren := n\<rparr>"

definition ModelDiffFile_setFilename :: "string \<Rightarrow> ModelDiffFile \<Rightarrow> ModelDiffFile" where
  "ModelDiffFile_setFilename s f = f\<lparr>dfile_sFilename := s\<rparr>"

definition ModelDiffFile_setFilepath :: "string \<Rightarrow> ModelDiffFile \<Rightarrow> ModelDiffFile" where
  "ModelDiffFile_setFilepath s f = f\<lparr>dfile_sFilepath := s\<rparr>"

definition ModelDiffFile_setState :: "string \<Rightarrow> ModelDiffFile \<Rightarrow> ModelDiffFile" where
  "ModelDiffFile_setState s f = f\<lparr>dfile_sState := s\<rparr>"

definition ModelDiffFile_toJson :: "ModelDiffFile \<Rightarrow> json" where
  "ModelDiffFile_toJson f =
     json_build
       [(''id'', JString (''id'' @ to_string (dfile_nFileId f))),
        (''parent'', JString (''id'' @ to_string (dfile_nParentFileId f))),
        (''define_file_id'', JInteger (dfile_nDefineFileId f)),
        (''filename'', JString (dfile_sFilename f)),
        (''amount_of_children'', JInteger (dfile_nAmountOfChildren f)),
        (''state'', JString (dfile_sState f)),
        (''comments'', JArray [])]"

lemmas ModelDiffFile_defs =
  ModelDiffFile_new_def ModelDiffFile_setId_def ModelDiffFile_setParentFileId_def
  ModelDiffFile_setVersionId_def ModelDiffFile_setDefineFileId_def
  ModelDiffFile_setAmountOfChildren_def ModelDiffFile_setFilename_def
  ModelDiffFile_setFilepath_def ModelDiffFile_setState_def

section \<open>ModelDiffGroup\<close>

record ModelDiffGroup =
  m_group :: ModelGroup
  m_nNewFiles :: int
  m_nMissingFiles :: int
  m_vFileDiffs :: "ModelDiffFile list"
  m_vFilesIds :: "int list"
  m_vParentFilesIds :: "int list"

definition ModelDiffGroup_new :: "ModelGroup \<Rightarrow> ModelDiffGroup" where
  "ModelDiffGroup_new gr =
     \<lparr>m_group = gr, m_nNewFiles = 0, m_nMissingFiles = 0, m_vFileDiffs = [], m_vFilesIds = [],
      m_vParentFilesIds = []\<rparr>"

definition ModelDiffGroup_size :: "ModelDiffGroup \<Rightarrow> int" where
  "ModelDiffGroup_size g = int (length (m_vFileDiffs g))"

definition ModelDiffGroup_addDiffFile :: "ModelDiffFile \<Rightarrow> ModelDiffGroup \<Rightarrow> ModelDiffGroup" where
  "ModelDiffGroup_addDiffFile f g =
     g\<lparr>m_vFileDiffs := m_vFileDiffs g @ [f],
       m_vFilesIds := m_vFilesIds g @ [dfile_nFileId f],
       m_vParentFilesIds := m_vParentFilesIds g @ [dfile_nParentFileId f],
       m_nNewFiles := (if dfile_sState f = ''new'' then m_nNewFiles g + 1 else m_nNewFiles g),
       m_nMissingFiles :=
         (if dfile_sState f = ''missing'' then m_nMissingFiles g + 1 else m_nMissingFiles g)\<rparr>"

definition ModelDiffGroup_hasFileId :: "int \<Rightarrow> ModelDiffGroup \<Rightarrow> bool" where
  "ModelDiffGroup_hasFileId nFileId g \<longleftrightarrow> nFileId \<in> set (m_vFilesIds g)"

definition ModelDiffGroup_toJson :: "ModelDiffGroup \<Rightarrow> json" where
  "ModelDiffGroup_toJson g =
     json_build
       [(''title'', JString (grp_sTitle (m_group g))),
        (''missing'', JInteger (m_nMissingFiles g)),
        (''new'', JInteger (m_nNewFiles g)),
        (''files'',
           json_build (map (\<lambda>f. (''id'' @ to_string (dfile_nFileId f), ModelDiffFile_toJson f))
                         (m_vFileDiffs g)))]"

section \<open>ModelComment\<close>

record ModelComment =
  cmt_nCommentId :: int
  cmt_nDefineFileId :: int
  cmt_sComment :: string

definition ModelComment_new :: ModelComment where
  "ModelComment_new = \<lparr>cmt_nCommentId = -1, cmt_nDefineFileId = -1, cmt_sComment = ''''\<rparr>"

definition ModelComment_setId :: "int \<Rightarrow> ModelComment \<Rightarrow> ModelComment" where
  "ModelComment_setId n c = c\<lparr>cmt_nCommentId := n\<rparr>"

definition ModelComment_setDefineFileId :: "int \<Rightarrow> ModelComment \<Rightarrow> ModelComment" where
  "ModelComment_setDefineFileId n c = c\<lparr>cmt_nDefineFileId := n\<rparr>"

definition ModelComment_setComment :: "string \<Rightarrow> ModelComment \<Rightarrow> ModelComment" where
  "ModelComment_setComment s c = c\<lparr>cmt_sComment := s\<rparr>"

definition ModelComment_toJson :: "ModelComment \<Rightarrow> json" where
  "ModelComment_toJson c =
     json_build
       [(''id'', JInteger (cmt_nCommentId c)),
        (''define_file_id'', JInteger (cmt_nDefineFileId c)),
        (''comment'', JString (cmt_sComment c))]"

lemmas ModelComment_defs =
  ModelComment_new_def ModelComment_setId_def ModelComment_setDefineFileId_def
  ModelComment_setComment_def

section \<open>ModelDiffGroups\<close>

record ModelDiffGroups =
  m_mapGroups :: "(int \<times> ModelDiffGroup) list"
  m_vFileDefineIds :: "int list"
  m_mapComments :: "(int \<times> ModelComment list) list"

definition ModelDiffGroups_new :: ModelDiffGroups where
  "ModelDiffGroups_new = \<lparr>m_mapGroups = [], m_vFileDefineIds = [], m_mapComments = []\<rparr>"

definition ModelDiffGroups_getFilesLength :: "ModelDiffGroups \<Rightarrow> int" where
  "ModelDiffGroups_getFilesLength gs =
     foldl (\<lambda>nRet (k, g). nRet + ModelDiffGroup_size g) 0 (m_mapGroups gs)"

definition ModelDiffGroups_getCommentsLength :: "ModelDiffGroups \<Rightarrow> int" where
  "ModelDiffGroups_getCommentsLength gs =
     foldl (\<lambda>nRet (k, cs). nRet + int (length cs)) 0 (m_mapComments gs)"

text \<open>
  A group seen for the first time is stored under its identifier, then the file is added to the
  stored group; its definition is remembered once.
\<close>

definition ModelDiffGroups_addDiffFile ::
    "ModelGroup \<Rightarrow> ModelDiffFile \<Rightarrow> ModelDiffGroups \<Rightarrow> ModelDiffGroups" where
  "ModelDiffGroups_addDiffFile gr f gs =
     (let k = grp_nId gr;
          m1 = (if map_of (m_mapGroups gs) k = None
                then smap_put k (ModelDiffGroup_new gr) (m_mapGroups gs) else m_mapGroups gs);
          g = (case map_of m1 k of None \<Rightarrow> ModelDiffGroup_new ModelGroup_new | Some g \<Rightarrow> g);
          d = dfile_nDefineFileId f
      in gs\<lparr>m_mapGroups := smap_put k (ModelDiffGroup_addDiffFile f g) m1,
            m_vFileDefineIds :=
              (if d \<in> set (m_vFileDefineIds gs) then m_vFileDefineIds gs
               else m_vFileDefineIds gs @ [d])\<rparr>)"

definition ModelDiffGroups_setComments ::
    "int \<Rightarrow> ModelComment list \<Rightarrow> ModelDiffGroups \<Rightarrow> ModelDiffGroups" where
  "ModelDiffGroups_setComments nDefineFileId vComments gs =
     gs\<lparr>m_mapComments := smap_put nDefineFileId vComments (m_mapComments gs)\<rparr>"

definition ModelDiffGroups_toJson :: "ModelDiffGroups \<Rightarrow> json" where
  "ModelDiffGroups_toJson gs =
     json_build
       [(''groups'',
           json_build (map (\<lambda>(k, g). (''group'' @ to_string k, ModelDiffGroup_toJson g))
                         (m_mapGroups gs))),
        (''comments'',
           json_build (map (\<lambda>(k, cs). (''dfid'' @ to_string k, JArray (map ModelComment_toJson cs)))
                         (m_mapComments gs)))]"

section \<open>Invariant\<close>

definition state_count :: "string \<Rightarrow> ModelDiffFile list \<Rightarrow> int" where
  "state_count s fs = int (length (filter (\<lambda>f. dfile_sState f = s) fs))"

definition diff_group_ok :: "ModelDiffGroup \<Rightarrow> bool" where
  "diff_group_ok g \<longleftrightarrow>
     m_vFilesIds g = map dfile_nFileId (m_vFileDiffs g) \<and>
     m_vParentFilesIds g = map dfile_nParentFileId (m_vFileDiffs g) \<and>
     m_nNewFiles g = state_count ''new'' (m_vFileDiffs g) \<and>
     m_nMissingFiles g = state_count ''missing'' (m_vFileDiffs g)"

text \<open>The files recorded for a group identifier, in the order they were added.\<close>

definition diff_files :: "ModelDiffGroups \<Rightarrow> int \<Rightarrow> ModelDiffFile list" where
  "diff_files gs k = (case map_of (m_mapGroups gs) k of None \<Rightarrow> [] | Some g \<Rightarrow> m_vFileDiffs g)"

definition diff_groups_ok :: "ModelDiffGroups \<Rightarrow> bool" where
  "diff_groups_ok gs \<longleftrightarrow>
     smap_ok (m_mapGroups gs) \<and> smap_ok (m_mapComments gs) \<and>
     (\<forall>(k, g) \<in> set (m_mapGroups gs).
        grp_nId (m_group g) = k \<and> m_vFileDiffs g \<noteq> [] \<and> diff_group_ok g) \<and>
     distinct (m_vFileDefineIds gs) \<and>
     set (m_vFileDefineIds gs) = (\<Union>(k, g) \<in> set (m_mapGroups gs).
        dfile_nDefineFileId ` set (m_vFileDiffs g))"

lemma diff_group_ok_new [simp]: "diff_group_ok (ModelDiffGroup_new gr)"
  by (simp add: diff_group_ok_def ModelDiffGroup_new_def state_count_def)

lemma diff_group_ok_add:
  "diff_group_ok g \<Longrightarrow> diff_group_ok (ModelDiffGroup_addDiffFile f g)"
  by (auto simp: diff_group_ok_def ModelDiffGroup_addDiffFile_def state_count_def)

lemma m_group_add [simp]: "m_group (ModelDiffGroup_addDiffFile f g) = m_group g"
  by (simp add: ModelDiffGroup_addDiffFile_def)

lemma m_vFileDiffs_add [simp]:
  "m_vFileDiffs (ModelDiffGroup_addDiffFile f g) = m_vFileDiffs g @ [f]"
  by (simp add: ModelDiffGroup_addDiffFile_def)

lemma ModelDiffGroup_new_simps [simp]:
  "m_group (ModelDiffGroup_new gr) = gr" "m_vFileDiffs (ModelDiffGroup_new gr) = []"
  by (simp_all add: ModelDiffGroup_new_def)

text \<open>Adding a file appends it to its group and leaves every other group as it is.\<close>

lemma diff_files_add:
  "diff_files (ModelDiffGroups_addDiffFile gr f gs) k =
     (if k = grp_nId gr then diff_files gs k @ [f] else diff_files gs k)"
  by (auto simp: diff_files_def ModelDiffGroups_addDiffFile_def Let_def split: option.splits)

lemma diff_files_setComments [simp]:
  "diff_files (ModelDiffGroups_setComments d cs gs) = diff_files gs"
  by (simp add: fun_eq_iff diff_files_def ModelDiffGroups_setComments_def)

lemma diff_files_new [simp]: "diff_files ModelDiffGroups_new k = []"
  by (simp add: diff_files_def ModelDiffGroups_new_def)

lemma m_mapComments_add [simp]:
  "m_mapComments (ModelDiffGroups_addDiffFile gr f gs) = m_mapComments gs"
  by (simp add: ModelDiffGroups_addDiffFile_def Let_def)

lemma diff_groups_ok_new: "diff_groups_ok ModelDiffGroups_new"
  by (simp add: diff_groups_ok_def ModelDiffGroups_new_def)

text \<open>The stored form of a group after adding a file.\<close>

lemma m_mapGroups_add:
  "map_of (m_mapGroups (ModelDiffGroups_addDiffFile gr f gs)) =
     (map_of (m_mapGroups gs))(grp_nId gr \<mapsto>
        ModelDiffGroup_addDiffFile f
          (case map_of (m_mapGroups gs) (grp_nId gr) of
             None \<Rightarrow> ModelDiffGroup_new gr | Some g \<Rightarrow> g))"
  by (auto simp: ModelDiffGroups_addDiffFile_def Let_def fun_eq_iff split: option.splits)

text \<open>The invariant in terms of lookups, which is the form the proofs use.\<close>

lemma diff_groups_ok_lookup:
  "diff_groups_ok gs \<longleftrightarrow>
     smap_ok (m_mapGroups gs) \<and> smap_ok (m_mapComments gs) \<and>
     (\<forall>k g. map_of (m_mapGroups gs) k = Some g \<longrightarrow>
        grp_nId (m_group g) = k \<and> m_vFileDiffs g \<noteq> [] \<and> diff_group_ok g) \<and>
     distinct (m_vFileDefineIds gs) \<and>
     set (m_vFileDefineIds gs) = (\<Union>k. dfile_nDefineFileId ` set (diff_files gs k))"
proof (cases "smap_ok (m_mapGroups gs)")
  case True
  then have mem: "(k, g) \<in> set (m_mapGroups gs) \<longleftrightarrow> map_of (m_mapGroups gs) k = Some g" for k g
    by (rule smap_ok_map_of)
  have stored: "diff_files gs k = m_vFileDiffs g" if "(k, g) \<in> set (m_mapGroups gs)" for k g
    using that by (simp add: diff_files_def mem)
  have key: "\<exists>g. (k, g) \<in> set (m_mapGroups gs)" if "f \<in> set (diff_files gs k)" for k f
    using that by (cases "map_of (m_mapGroups gs) k") (auto simp: diff_files_def mem)
  have "(\<Union>(k, g) \<in> set (m_mapGroups gs). dfile_nDefineFileId ` set (m_vFileDiffs g)) =
        (\<Union>k. dfile_nDefineFileId ` set (diff_files gs k))" (is "?l = ?r")
  proof (intro equalityI subsetI)
    fix d assume "d \<in> ?l"
    then obtain k g where "(k, g) \<in> set (m_mapGroups gs)" "d \<in> dfile_nDefineFileId ` set (m_vFileDiffs g)"
      by auto
    then have "d \<in> dfile_nDefineFileId ` set (diff_files gs k)" by (simp add: stored)
    then show "d \<in> ?r" by blast
  next
    fix d assume "d \<in> ?r"
    then obtain k f where f: "f \<in> set (diff_files gs k)" "d = dfile_nDefineFileId f" by blast
    with key obtain g where "(k, g) \<in> set (m_mapGroups gs)" by blast
    with f show "d \<in> ?l" by (force simp: stored)
  qed
  moreover have "(\<forall>(k, g) \<in> set (m_mapGroups gs). P k g) \<longleftrightarrow>
      (\<forall>k g. map_of (m_mapGroups gs) k = Some g \<longrightarrow> P k g)" for P
    unfolding mem [symmetric] by auto
  ultimately show ?thesis by (simp add: diff_groups_ok_def)
next
  case False
  then show ?thesis by (simp add: diff_groups_ok_def)
qed

lemma diff_groups_ok_add:
  assumes "diff_groups_ok gs"
  shows "diff_groups_ok (ModelDiffGroups_addDiffFile gr f gs)"
proof -
  let ?gs = "ModelDiffGroups_addDiffFile gr f gs"
  note ok = assms [unfolded diff_groups_ok_lookup]
  have "smap_ok (m_mapGroups ?gs)"
    using ok by (simp add: ModelDiffGroups_addDiffFile_def Let_def)
  moreover have "grp_nId (m_group g) = k \<and> m_vFileDiffs g \<noteq> [] \<and> diff_group_ok g"
    if "map_of (m_mapGroups ?gs) k = Some g" for k g
    using that ok by (auto simp: m_mapGroups_add diff_group_ok_add split: if_splits option.splits)
  moreover have "set (m_vFileDefineIds ?gs) =
      insert (dfile_nDefineFileId f) (set (m_vFileDefineIds gs))"
    by (auto simp: ModelDiffGroups_addDiffFile_def Let_def)
  moreover have "distinct (m_vFileDefineIds ?gs)"
    using ok by (auto simp: ModelDiffGroups_addDiffFile_def Let_def)
  moreover have "(\<Union>k. dfile_nDefineFileId ` set (diff_files ?gs k)) =
      insert (dfile_nDefineFileId f) (\<Union>k. dfile_nDefineFileId ` set (diff_files gs k))"
    by (auto simp: diff_files_add split: if_splits) (metis (no_types) image_eqI)+
  ultimately show ?thesis
    using ok unfolding diff_groups_ok_lookup by (simp add: m_mapComments_add)
qed

lemma diff_groups_ok_setComments:
  "diff_groups_ok gs \<Longrightarrow> diff_groups_ok (ModelDiffGroups_setComments d cs gs)"
  by (auto simp: diff_groups_ok_def ModelDiffGroups_setComments_def)

section \<open>Lengths and JSON\<close>

lemma foldl_sum_acc: "foldl (\<lambda>n x. n + f x) (a::int) xs = a + sum_list (map f xs)"
  by (induction xs arbitrary: a) simp_all

lemma getFilesLength_sum:
  "ModelDiffGroups_getFilesLength gs = (\<Sum>(k, g) \<leftarrow> m_mapGroups gs. ModelDiffGroup_size g)"
  using foldl_sum_acc [of "\<lambda>(k, g). ModelDiffGroup_size g" 0 "m_mapGroups gs"]
  by (simp add: ModelDiffGroups_getFilesLength_def case_prod_unfold)

lemma map_of_rev_distinct: "distinct (map fst xs) \<Longrightarrow> map_of (rev xs) = map_of xs"
  by (intro map_of_inject_set [THEN iffD2]) (auto simp: rev_map [symmetric])

lemma json_index_build_distinct:
  "distinct (map fst kvs) \<Longrightarrow> (k, v) \<in> set kvs \<Longrightarrow> json_index (json_build kvs) k = Inr v"
  by (simp add: json_index_build map_of_rev_distinct)

end
