(* ===== verification/Models_Cache.thy ===== *)
theory Models_Cache
  imports Prelude
begin

text \<open>
  The identifier caches of \<open>src/database/models_cache.h\<close> and \<open>models_cache.cpp\<close>: three nested
  \<open>std::unordered_map\<close>s from a version, a group and a file definition to the identifier of
  the file. A missing entry is reported as \<open>-1\<close>. The interface they share (an empty cache, a
  lookup, an insertion) is the locale \<open>id_cache\<close>, which each level interprets.
\<close>

section \<open>The three levels\<close>

record ModelCacheFiles =
  m_mapCacheFiles :: "int \<rightharpoonup> int"

definition ModelCacheFiles_new :: ModelCacheFiles where
  "ModelCacheFiles_new = \<lparr>m_mapCacheFiles = Map.empty\<rparr>"

definition ModelCacheFiles_findFileId :: "ModelCacheFiles \<Rightarrow> int \<Rightarrow> int" where
  "ModelCacheFiles_findFileId c nDefineFileId =
     (case m_mapCacheFiles c nDefineFileId of None \<Rightarrow> -1 | Some n \<Rightarrow> n)"

definition ModelCacheFiles_add :: "ModelCacheFiles \<Rightarrow> int \<Rightarrow> int \<Rightarrow> ModelCacheFiles" where
  "ModelCacheFiles_add c nDefineFileId nFileId =
     c\<lparr>m_mapCacheFiles := (m_mapCacheFiles c)(nDefineFileId \<mapsto> nFileId)\<rparr>"

record ModelCacheGroups =
  m_mapCacheFileDefinesIds :: "int \<rightharpoonup> ModelCacheFiles"

definition ModelCacheGroups_new :: ModelCacheGroups where
  "ModelCacheGroups_new = \<lparr>m_mapCacheFileDefinesIds = Map.empty\<rparr>"

definition ModelCacheGroups_findFileId :: "ModelCacheGroups \<Rightarrow> int \<Rightarrow> int \<Rightarrow> int" where
  "ModelCacheGroups_findFileId c nGroupId nDefineFileId =
     (case m_mapCacheFileDefinesIds c nGroupId of
        None \<Rightarrow> -1
      | Some files \<Rightarrow> ModelCacheFiles_findFileId files nDefineFileId)"

text \<open>
  \<open>add\<close> first stores an empty inner map when the key has none, then adds to the stored one.
\<close>

definition ModelCacheGroups_add :: "ModelCacheGroups \<Rightarrow> int \<Rightarrow> int \<Rightarrow> int \<Rightarrow> ModelCacheGroups" where
  "ModelCacheGroups_add c nGroupId nDefineFileId nFileId =
     (let m = m_mapCacheFileDefinesIds c;
          m1 = (if m nGroupId = None then m(nGroupId \<mapsto> ModelCacheFiles_new) else m);
          files = (case m1 nGroupId of None \<Rightarrow> ModelCacheFiles_new | Some files \<Rightarrow> files)
      in c\<lparr>m_mapCacheFileDefinesIds := m1(nGroupId \<mapsto> ModelCacheFiles_add files nDefineFileId nFileId)\<rparr>)"

record ModelCacheFilesVersion =
  m_mapCacheGroups :: "int \<rightharpoonup> ModelCacheGroups"

definition ModelCacheFilesVersion_new :: ModelCacheFilesVersion where
  "ModelCacheFilesVersion_new = \<lparr>m_mapCacheGroups = Map.empty\<rparr>"

definition ModelCacheFilesVersion_findFileId ::
    "ModelCacheFilesVersion \<Rightarrow> int \<Rightarrow> int \<Rightarrow> int \<Rightarrow> int" where
  "ModelCacheFilesVersion_findFileId c nVersionId nGroupId nDefineFileId =
     (case m_mapCacheGroups c nVersionId of
        None \<Rightarrow> -1
      | Some groups \<Rightarrow> ModelCacheGroups_findFileId groups nGroupId nDefineFileId)"

definition ModelCacheFilesVersion_add ::
    "ModelCacheFilesVersion \<Rightarrow> int \<Rightarrow> int \<Rightarrow> int \<Rightarrow> int \<Rightarrow> ModelCacheFilesVersion" where
  "ModelCacheFilesVersion_add c nVersionId nGroupId nDefineFileId nFileId =
     (let m = m_mapCacheGroups c;
          m1 = (if m nVersionId = None then m(nVersionId \<mapsto> ModelCacheGroups_new) else m);
          groups = (case m1 nVersionId of None \<Rightarrow> ModelCacheGroups_new | Some groups \<Rightarrow> groups)
      in c\<lparr>m_mapCacheGroups :=
             m1(nVersionId \<mapsto> ModelCacheGroups_add groups nGroupId nDefineFileId nFileId)\<rparr>)"

section \<open>The interface of a cache\<close>

text \<open>
  What a client may rely on: an empty cache knows nothing, and adding an entry changes the
  answer for its key and for no other. \<open>fill\<close> is a client that adds a list of entries, as
  loading the cache from the database does.
\<close>

locale id_cache =
  fixes empty :: "'c"
    and find :: "'c \<Rightarrow> 'k \<Rightarrow> int"
    and add :: "'c \<Rightarrow> 'k \<Rightarrow> int \<Rightarrow> 'c"
  assumes find_empty: "find empty k = -1"
    and find_add: "find (add c k n) k' = (if k' = k then n else find c k')"
begin

lemma find_add_same [simp]: "find (add c k n) k = n"
  by (simp add: find_add)

lemma find_fill:
  "find (foldl (\<lambda>c (k, n). add c k n) c kns) k =
     (case map_of (rev kns) k of None \<Rightarrow> find c k | Some n \<Rightarrow> n)"
proof (induction kns arbitrary: c)
  case (Cons kn kns)
  then show ?case
    by (cases kn) (auto simp: find_add map_add_def split: option.splits)
qed simp

lemma find_fill_distinct:
  assumes "distinct (map fst kns)"
  shows "find (foldl (\<lambda>c (k, n). add c k n) empty kns) k =
           (case map_of kns k of None \<Rightarrow> -1 | Some n \<Rightarrow> n)"
proof -
  have "map_of (rev kns) = map_of kns"
    using assms by (intro map_of_inject_set [THEN iffD2]) (auto simp: rev_map [symmetric])
  then show ?thesis by (simp add: find_fill find_empty split: option.split)
qed

lemma add_overwrites: "find (add (add c k m) k n) k' = find (add c k n) k'"
  by (simp add: find_add)

lemma add_commutes:
  "k \<noteq> l \<Longrightarrow> find (add (add c k m) l n) k' = find (add (add c l n) k m) k'"
  by (simp add: find_add)

end

interpretation cache_files: id_cache
  ModelCacheFiles_new ModelCacheFiles_findFileId ModelCacheFiles_add
  by unfold_locales
    (simp_all add: ModelCacheFiles_new_def ModelCacheFiles_findFileId_def ModelCacheFiles_add_def)

lemma ModelCacheGroups_find_add:
  "ModelCacheGroups_findFileId (ModelCacheGroups_add c g d n) g' d' =
     (if g' = g \<and> d' = d then n else ModelCacheGroups_findFileId c g' d')"
  by (auto simp: ModelCacheGroups_findFileId_def ModelCacheGroups_add_def Let_def
      cache_files.find_add cache_files.find_empty split: option.splits)

lemma ModelCacheGroups_find_new [simp]: "ModelCacheGroups_findFileId ModelCacheGroups_new g d = -1"
  by (simp add: ModelCacheGroups_new_def ModelCacheGroups_findFileId_def)

interpretation cache_groups: id_cache
  ModelCacheGroups_new
  "\<lambda>c (g, d). ModelCacheGroups_findFileId c g d"
  "\<lambda>c (g, d) n. ModelCacheGroups_add c g d n"
  by unfold_locales
    (auto simp: ModelCacheGroups_find_add split: prod.splits)

lemma ModelCacheFilesVersion_find_add:
  "ModelCacheFilesVersion_findFileId (ModelCacheFilesVersion_add c v g d n) v' g' d' =
     (if v' = v \<and> g' = g \<and> d' = d then n else ModelCacheFilesVersion_findFileId c v' g' d')"
  by (auto simp: ModelCacheFilesVersion_findFileId_def ModelCacheFilesVersion_add_def Let_def
      ModelCacheGroups_find_add split: option.splits)

lemma ModelCacheFilesVersion_find_new [simp]:
  "ModelCacheFilesVersion_findFileId ModelCacheFilesVersion_new v g d = -1"
  by (simp add: ModelCacheFilesVersion_new_def ModelCacheFilesVersion_findFileId_def)

interpretation cache_versions: id_cache
  ModelCacheFilesVersion_new
  "\<lambda>c (v, g, d). ModelCacheFilesVersion_findFileId c v g d"
  "\<lambda>c (v, g, d) n. ModelCacheFilesVersion_add c v g d n"
  by unfold_locales
    (auto simp: ModelCacheFilesVersion_find_add split: prod.splits)

section \<open>The cache of the storage\<close>

text \<open>
  C27: filling an empty cache from a table of files makes it answer, for every version, group
  and file definition, the identifier of the file stored there, and -1 where there is none; a
  file added afterwards is answered under exactly its own key, whatever the cache held before.
\<close>

theorem cache_answers_table:
  assumes "distinct (map fst kns)"
  shows "ModelCacheFilesVersion_findFileId
           (ModelCacheFilesVersion_add
              (foldl (\<lambda>c ((v, g, d), n). ModelCacheFilesVersion_add c v g d n)
                 ModelCacheFilesVersion_new kns) v g d n) v' g' d' =
         (if (v', g', d') = (v, g, d) then n
          else case map_of kns (v', g', d') of None \<Rightarrow> -1 | Some n' \<Rightarrow> n')"
  using cache_versions.find_fill_distinct [OF assms, of "(v', g', d')"]
  by (simp add: ModelCacheFilesVersion_find_add case_prod_unfold)

theorem cache_answers_table_witness:
  "distinct (map fst [((1::int, 2::int, 3::int), 10::int), ((1, 2, 4), 11)]) \<and>
   ModelCacheFilesVersion_findFileId
     (ModelCacheFilesVersion_add
        (foldl (\<lambda>c ((v, g, d), n). ModelCacheFilesVersion_add c v g d n)
           ModelCacheFilesVersion_new [((1, 2, 3), 10), ((1, 2, 4), 11)]) 5 6 7 12) 1 2 4 = 11"
proof -
  have d: "distinct (map fst [((1::int, 2::int, 3::int), 10::int), ((1, 2, 4), 11)])" by simp
  show ?thesis
    using d cache_answers_table [OF d, of 5 6 7 12 1 2 4] by (simp add: case_prod_unfold)
qed

end
