(* ===== verification/Mysql_Connection.thy ===== *)
theory Mysql_Connection
  imports Sql_Text Models_Diff Models_Cache
begin

text \<open>
  \<open>MySqlStorageConnection\<close> (\<open>src/database/mysql_storage_connection.cpp\<close>): every query the server
  makes, from the text it sends to the objects it builds from the rows, with the exception it
  throws when the query fails.

  The database is not part of the repository. It enters as a parameter: a record \<open>mysql\<close> with the
  functions of the client library the source calls, over an opaque state \<open>'w\<close> of the outside
  world. \<open>mysql_query\<close> with the calls that read its result is one function from the query text
  to a reply (an error text, or rows of text cells and the last inserted identifier).
  \<open>mysql_real_connect\<close> gives a handle or an error. The clock and the identity of the running
  thread are read through the same record. What the laws of MySQL say about these functions is
  stated in the theory \<open>Mysql_Server\<close>; nothing is assumed here.

  The per-connection mutex is not modelled: every function below is one critical section of it.
\<close>

section \<open>The client library\<close>

type_synonym mysql_row = "string option list"

datatype mysql_reply =
    QueryError string
  | QueryOk "mysql_row list" int

record 'w mysql =
  mysql_query :: "nat \<Rightarrow> string \<Rightarrow> 'w \<Rightarrow> mysql_reply \<times> 'w"
  mysql_real_connect :: "string \<Rightarrow> string \<Rightarrow> string \<Rightarrow> string \<Rightarrow> int \<Rightarrow> 'w \<Rightarrow> (string + nat) \<times> 'w"
  system_clock_ms :: "'w \<Rightarrow> int"
  this_thread_id :: string

text \<open>The connection object: the \<open>MYSQL *\<close> handle and the time of its creation.\<close>

record MySqlStorageConnection =
  m_pConnection :: nat
  m_nCreated :: int

section \<open>Cells\<close>

text \<open>Cells are C strings; reading a NULL cell or a column that is not there is undefined.\<close>

definition row_str :: "mysql_row \<Rightarrow> nat \<Rightarrow> cpp_error + string" where
  "row_str row i =
     (if i < length row then (case row ! i of None \<Rightarrow> Inl Undefined_behaviour | Some s \<Rightarrow> Inr (c_str s))
      else Inl Undefined_behaviour)"

definition row_int :: "mysql_row \<Rightarrow> nat \<Rightarrow> cpp_error + int" where
  "row_int row i = map_sum id paramtoInt (row_str row i)"

definition bind_sum :: "cpp_error + 'a \<Rightarrow> ('a \<Rightarrow> cpp_error + 'b) \<Rightarrow> cpp_error + 'b" where
  "bind_sum r f = (case r of Inl e \<Rightarrow> Inl e | Inr x \<Rightarrow> f x)"

section \<open>Queries\<close>

text \<open>\<open>mysql_query(m_pConnection, sQuery.c_str())\<close>.\<close>

definition run_query :: "'w mysql \<Rightarrow> MySqlStorageConnection \<Rightarrow> string \<Rightarrow> ('w, mysql_reply) M" where
  "run_query my c sQuery =
     (\<lambda>w. case mysql_query my (m_pConnection c) (c_str sQuery) w of (r, w') \<Rightarrow> (Inr r, w'))"

text \<open>A query whose failure is thrown as \<open>Problem with database ...\<close>.\<close>

definition query_or_throw ::
    "'w mysql \<Rightarrow> MySqlStorageConnection \<Rightarrow> string \<Rightarrow> ('w, mysql_row list \<times> int) M" where
  "query_or_throw my c sQuery =
     mbind (run_query my c sQuery)
       (\<lambda>r. case r of
          QueryError sError \<Rightarrow> throw (Runtime_error (''Problem with database '' @ sError))
        | QueryOk rows nId \<Rightarrow> ret (rows, nId))"

definition MySqlStorageConnection_new :: "'w mysql \<Rightarrow> nat \<Rightarrow> ('w, MySqlStorageConnection) M" where
  "MySqlStorageConnection_new my pConn =
     mbind (gets (system_clock_ms my)) (\<lambda>t. ret \<lparr>m_pConnection = pConn, m_nCreated = t\<rparr>)"

definition executeQuery :: "'w mysql \<Rightarrow> MySqlStorageConnection \<Rightarrow> string \<Rightarrow> ('w, bool) M" where
  "executeQuery my c sQuery =
     mbind (run_query my c sQuery)
       (\<lambda>r. case r of QueryError _ \<Rightarrow> ret False | QueryOk _ _ \<Rightarrow> ret True)"

text \<open>\<open>sError.find(needle) != std::string::npos\<close>.\<close>

fun str_contains :: "string \<Rightarrow> string \<Rightarrow> bool" where
  "str_contains needle [] \<longleftrightarrow> needle = []"
| "str_contains needle (c # cs) \<longleftrightarrow> take (length needle) (c # cs) = needle \<or> str_contains needle cs"

definition lastDatabaseVersion :: "'w mysql \<Rightarrow> MySqlStorageConnection \<Rightarrow> ('w, int) M" where
  "lastDatabaseVersion my c =
     mbind (run_query my c sql_last_db_version)
       (\<lambda>r. case r of
          QueryError sError \<Rightarrow>
            (if str_contains (''doesn'' @ [CHR 0x27] @ ''t exist'') sError then
               mbind (run_query my c sql_create_db_updates)
                 (\<lambda>r2. case r2 of QueryError _ \<Rightarrow> ret (-2) | QueryOk _ _ \<Rightarrow> ret 0)
             else ret (-1))
        | QueryOk rows _ \<Rightarrow>
            (case rows of [] \<Rightarrow> ret 0 | row # _ \<Rightarrow> lift_sum (row_int row 0)))"

definition insertUpdateInfo :: "'w mysql \<Rightarrow> MySqlStorageConnection \<Rightarrow> int \<Rightarrow> ('w, bool) M" where
  "insertUpdateInfo my c nVersion =
     mbind (run_query my c (sql_insert_update_info nVersion))
       (\<lambda>r. case r of QueryError _ \<Rightarrow> ret False | QueryOk _ _ \<Rightarrow> ret True)"

text \<open>Milliseconds divided by 1000, truncated; the clock is a \<open>long\<close>.\<close>

definition getConnectionDurationInSeconds ::
    "'w mysql \<Rightarrow> MySqlStorageConnection \<Rightarrow> ('w, int) M" where
  "getConnectionDurationInSeconds my c =
     mbind (gets (system_clock_ms my))
       (\<lambda>t. ret (sgn (t - m_nCreated c) * (\<bar>t - m_nCreated c\<bar> div 1000)))"

section \<open>Reading\<close>

definition version_of_row :: "mysql_row \<Rightarrow> cpp_error + ModelVersion" where
  "version_of_row row =
     bind_sum (row_int row 0) (\<lambda>n.
     bind_sum (row_str row 1) (\<lambda>s.
       Inr (ModelVersion_setName s (ModelVersion_setId n ModelVersion_new))))"

definition getApiVersionsAll :: "'w mysql \<Rightarrow> MySqlStorageConnection \<Rightarrow> ('w, ModelVersion list) M" where
  "getApiVersionsAll my c =
     mbind (query_or_throw my c sql_select_versions)
       (\<lambda>(rows, _). lift_sum (traverse_sum version_of_row rows))"

definition group_of_row :: "mysql_row \<Rightarrow> cpp_error + ModelGroup" where
  "group_of_row row =
     bind_sum (row_int row 0) (\<lambda>n.
     bind_sum (row_str row 1) (\<lambda>s.
       Inr (ModelGroup_setTitle s (ModelGroup_setId n ModelGroup_new))))"

definition conn_getGroupsAll :: "'w mysql \<Rightarrow> MySqlStorageConnection \<Rightarrow> ('w, ModelGroup list) M" where
  "conn_getGroupsAll my c =
     mbind (query_or_throw my c sql_select_groups)
       (\<lambda>(rows, _). lift_sum (traverse_sum group_of_row rows))"

definition group_for_version_of_row :: "mysql_row \<Rightarrow> cpp_error + ModelGroupForVersion" where
  "group_for_version_of_row row =
     bind_sum (row_int row 0) (\<lambda>v.
     bind_sum (row_int row 1) (\<lambda>g.
     bind_sum (row_str row 2) (\<lambda>s.
     bind_sum (row_int row 3) (\<lambda>n.
       Inr (ModelGroupForVersion_setAmountOfFiles n
             (ModelGroupForVersion_setTitle s
               (ModelGroupForVersion_setId g
                 (ModelGroupForVersion_setVersionId v ModelGroupForVersion_new))))))))"

definition conn_getGroups ::
    "'w mysql \<Rightarrow> MySqlStorageConnection \<Rightarrow> int \<Rightarrow> ('w, ModelGroupForVersion list) M" where
  "conn_getGroups my c nVersionId =
     mbind (query_or_throw my c (sql_groups_of_version nVersionId))
       (\<lambda>(rows, _). lift_sum (traverse_sum group_for_version_of_row rows))"

definition comment_of_row :: "mysql_row \<Rightarrow> cpp_error + ModelComment" where
  "comment_of_row row =
     bind_sum (row_int row 0) (\<lambda>n.
     bind_sum (row_int row 1) (\<lambda>d.
     bind_sum (row_str row 2) (\<lambda>s.
       Inr (ModelComment_setComment s (ModelComment_setDefineFileId d (ModelComment_setId n ModelComment_new))))))"

definition getComments ::
    "'w mysql \<Rightarrow> MySqlStorageConnection \<Rightarrow> int \<Rightarrow> ('w, ModelComment list) M" where
  "getComments my c nDefineFileId =
     mbind (query_or_throw my c (sql_comments_of nDefineFileId))
       (\<lambda>(rows, _). lift_sum (traverse_sum comment_of_row rows))"

definition file_of_row :: "mysql_row \<Rightarrow> cpp_error + ModelFile" where
  "file_of_row row =
     bind_sum (row_int row 0) (\<lambda>v.
     bind_sum (row_int row 1) (\<lambda>g.
     bind_sum (row_int row 2) (\<lambda>i.
     bind_sum (row_int row 3) (\<lambda>n.
     bind_sum (row_str row 4) (\<lambda>s.
       Inr (ModelFile_setTitle s (ModelFile_setAmountOfChildren n (ModelFile_setId i
             (ModelFile_setGroupId g (ModelFile_setVersionId v ModelFile_new))))))))))"

definition conn_getFiles ::
    "'w mysql \<Rightarrow> MySqlStorageConnection \<Rightarrow> int \<Rightarrow> int \<Rightarrow> int \<Rightarrow> ('w, ModelFile list) M" where
  "conn_getFiles my c nVersionId nGroupId nParentId =
     mbind (query_or_throw my c (sql_files_of nVersionId nGroupId nParentId))
       (\<lambda>(rows, _). lift_sum (traverse_sum file_of_row rows))"

text \<open>
  \<open>findAndAddFile\<close>: the row of a file that is not part of the difference, added to it with an
  empty state. It pushes the identifier it has just read onto the work list of the caller.
\<close>

definition parent_of_row :: "mysql_row \<Rightarrow> cpp_error + ModelDiffFile" where
  "parent_of_row row =
     bind_sum (row_int row 0) (\<lambda>i.
     bind_sum (row_int row 1) (\<lambda>p.
     bind_sum (row_int row 2) (\<lambda>n.
     bind_sum (row_int row 3) (\<lambda>d.
     bind_sum (row_str row 4) (\<lambda>fp.
     bind_sum (row_str row 5) (\<lambda>fn.
       Inr (ModelDiffFile_setState '''' (ModelDiffFile_setFilename fn (ModelDiffFile_setFilepath fp
             (ModelDiffFile_setDefineFileId d (ModelDiffFile_setAmountOfChildren n
               (ModelDiffFile_setParentFileId p (ModelDiffFile_setId i ModelDiffFile_new)))))))))))))"

definition findAndAddFile ::
    "'w mysql \<Rightarrow> MySqlStorageConnection \<Rightarrow> ModelGroup \<Rightarrow> int \<Rightarrow> ModelDiffGroups \<times> int list \<Rightarrow>
       ('w, ModelDiffGroups \<times> int list) M" where
  "findAndAddFile my c gr nFileId acc =
     mbind (query_or_throw my c (sql_file_by_id nFileId))
       (\<lambda>(rows, _).
          for_fold rows acc
            (\<lambda>(diffGroups, vParentFileIds) row.
               mbind (lift_sum (parent_of_row row))
                 (\<lambda>model. ret (ModelDiffGroups_addDiffFile gr model diffGroups,
                                vParentFileIds @ [dfile_nFileId model]))))"

definition diff_of_row :: "string \<Rightarrow> mysql_row \<Rightarrow> cpp_error + ModelGroup \<times> ModelDiffFile" where
  "diff_of_row sState row =
     bind_sum (row_int row 0) (\<lambda>i.
     bind_sum (row_int row 1) (\<lambda>p.
     bind_sum (row_int row 2) (\<lambda>g.
     bind_sum (row_int row 3) (\<lambda>n.
     bind_sum (row_str row 4) (\<lambda>gn.
     bind_sum (row_int row 5) (\<lambda>d.
     bind_sum (row_str row 6) (\<lambda>fp.
     bind_sum (row_str row 7) (\<lambda>fn.
       Inr (ModelGroup_setTitle gn (ModelGroup_setId g ModelGroup_new),
            ModelDiffFile_setState sState (ModelDiffFile_setFilename fn (ModelDiffFile_setFilepath fp
             (ModelDiffFile_setDefineFileId d (ModelDiffFile_setAmountOfChildren n
               (ModelDiffFile_setParentFileId p (ModelDiffFile_setId i ModelDiffFile_new)))))))))))))))"

definition getDiffFiles ::
    "'w mysql \<Rightarrow> MySqlStorageConnection \<Rightarrow> int \<Rightarrow> int \<Rightarrow> string \<Rightarrow> ModelDiffGroups \<Rightarrow>
       ('w, ModelDiffGroups) M" where
  "getDiffFiles my c nLeftVersionId nRightVersionId sState diffGroups =
     mbind (query_or_throw my c (sql_diff_files nLeftVersionId nRightVersionId))
       (\<lambda>(rows, _).
          for_fold rows diffGroups
            (\<lambda>diffGroups row.
               mbind (lift_sum (diff_of_row sState row))
                 (\<lambda>(gr, model). ret (ModelDiffGroups_addDiffFile gr model diffGroups))))"

text \<open>The rows of the definitions fill \<open>mapCache[sFilePath] = nDefineFileId\<close>, in row order.\<close>

definition getDefineFilesCache ::
    "'w mysql \<Rightarrow> MySqlStorageConnection \<Rightarrow> (string \<rightharpoonup> int) \<Rightarrow> ('w, string \<rightharpoonup> int) M" where
  "getDefineFilesCache my c mapCache =
     mbind (query_or_throw my c sql_select_define_files)
       (\<lambda>(rows, _).
          for_fold rows mapCache
            (\<lambda>m row.
               mbind (lift_sum (row_int row 0)) (\<lambda>nDefineFileId.
               mbind (lift_sum (row_str row 1)) (\<lambda>sFilePath.
                 ret (m(sFilePath \<mapsto> nDefineFileId))))))"

definition loadFilesIds ::
    "'w mysql \<Rightarrow> MySqlStorageConnection \<Rightarrow> ModelCacheFilesVersion \<Rightarrow> ('w, ModelCacheFilesVersion) M" where
  "loadFilesIds my c cache =
     mbind (query_or_throw my c sql_select_files)
       (\<lambda>(rows, _).
          for_fold rows cache
            (\<lambda>cache row.
               mbind (lift_sum (row_int row 0)) (\<lambda>nFileId.
               mbind (lift_sum (row_int row 1)) (\<lambda>nVersionId.
               mbind (lift_sum (row_int row 2)) (\<lambda>nDefineFileId.
               mbind (lift_sum (row_int row 3)) (\<lambda>nGroupId.
                 ret (ModelCacheFilesVersion_add cache nVersionId nGroupId nDefineFileId nFileId)))))))"

section \<open>Writing\<close>

text \<open>\<open>mysql_insert_id\<close> is a 64-bit value assigned to an \<open>int\<close>.\<close>

definition conn_addComment ::
    "'w mysql \<Rightarrow> MySqlStorageConnection \<Rightarrow> int \<Rightarrow> string \<Rightarrow> ('w, ModelComment) M" where
  "conn_addComment my c nDefineFileId sComment =
     mbind (query_or_throw my c (sql_insert_comment nDefineFileId (prepareStringValue sComment)))
       (\<lambda>(_, nId).
          ret (ModelComment_setComment sComment
                (ModelComment_setDefineFileId nDefineFileId
                  (ModelComment_setId (to_int32 nId) ModelComment_new))))"

definition conn_hideComment :: "'w mysql \<Rightarrow> MySqlStorageConnection \<Rightarrow> int \<Rightarrow> ('w, unit) M" where
  "conn_hideComment my c nCommentId =
     mbind (query_or_throw my c (sql_hide_comment nCommentId)) (\<lambda>_. ret ())"

definition insertVersion ::
    "'w mysql \<Rightarrow> MySqlStorageConnection \<Rightarrow> string \<Rightarrow> ('w, ModelVersion) M" where
  "insertVersion my c sVersion =
     mbind (query_or_throw my c (sql_insert_version (prepareStringValue sVersion)))
       (\<lambda>(_, nId). ret (ModelVersion_setName sVersion (ModelVersion_setId (to_int32 nId) ModelVersion_new)))"

definition insertGroup ::
    "'w mysql \<Rightarrow> MySqlStorageConnection \<Rightarrow> string \<Rightarrow> ('w, ModelGroup) M" where
  "insertGroup my c sGroup =
     mbind (query_or_throw my c (sql_insert_group (prepareStringValue sGroup)))
       (\<lambda>(_, nId). ret (ModelGroup_setTitle sGroup (ModelGroup_setId (to_int32 nId) ModelGroup_new)))"

definition insertDefineFile ::
    "'w mysql \<Rightarrow> MySqlStorageConnection \<Rightarrow> string \<Rightarrow> string \<Rightarrow> int \<Rightarrow> ('w, int) M" where
  "insertDefineFile my c sFilepath sFilename nParentId =
     mbind (query_or_throw my c
              (sql_insert_define_file (prepareStringValue sFilepath) (prepareStringValue sFilename) nParentId))
       (\<lambda>(_, nId). ret (to_int32 nId))"

text \<open>
  \<open>insertFile\<close> inserts the row, counts the rows with the same parent and stores the count in the
  parent: three queries, each of which may fail on its own.
\<close>

definition insertFile ::
    "'w mysql \<Rightarrow> MySqlStorageConnection \<Rightarrow> int \<Rightarrow> int \<Rightarrow> int \<Rightarrow> int \<Rightarrow> ('w, int) M" where
  "insertFile my c nVersionId nGroupId nDefineFileId nFileParentId =
     mbind (query_or_throw my c (sql_insert_file nVersionId nGroupId nDefineFileId nFileParentId))
       (\<lambda>(_, nId).
     mbind (query_or_throw my c (sql_count_children nFileParentId))
       (\<lambda>(rows, _).
     mbind (case rows of [] \<Rightarrow> ret 0 | row # _ \<Rightarrow> lift_sum (row_int row 0))
       (\<lambda>nAmountOfChildren.
     mbind (query_or_throw my c (sql_set_children nAmountOfChildren nFileParentId))
       (\<lambda>_. ret (to_int32 nId)))))"

section \<open>Reading cells back\<close>

lemma row_str_Cons [simp]:
  "row_str (x # row) 0 = (case x of None \<Rightarrow> Inl Undefined_behaviour | Some s \<Rightarrow> Inr (c_str s))"
  "row_str (x # row) (Suc i) = row_str row i"
  by (simp_all add: row_str_def)

lemma row_str_numeral [simp]: "row_str (x # row) (numeral n) = row_str row (pred_numeral n)"
  by (simp add: numeral_eq_Suc)

lemma row_int_Cons [simp]:
  "row_int (x # row) 0 = (case x of None \<Rightarrow> Inl Undefined_behaviour | Some s \<Rightarrow> Inr (paramtoInt s))"
  "row_int (x # row) (Suc i) = row_int row i"
  by (simp_all add: row_int_def paramtoInt_def c_str_def split: option.split)

lemma row_int_numeral [simp]: "row_int (x # row) (numeral n) = row_int row (pred_numeral n)"
  by (simp add: row_int_def)

lemma paramtoInt_to_string [simp]: "int32 n \<Longrightarrow> paramtoInt (to_string n) = n"
  by (simp add: paramtoInt_def)

lemma int32_paramtoInt [simp]: "int32 (paramtoInt s)"
  by (simp add: paramtoInt_def)

lemma bind_sum_simps [simp]: "bind_sum (Inr x) f = f x" "bind_sum (Inl e) f = Inl e"
  by (simp_all add: bind_sum_def)

lemma bind_sum_Inr: "bind_sum r f = Inr y \<longleftrightarrow> (\<exists>x. r = Inr x \<and> f x = Inr y)"
  by (simp add: bind_sum_def split: sum.split)

section \<open>What a query does, whatever the database answers\<close>

lemma query_or_throw_ok:
  "mysql_query my (m_pConnection c) (c_str q) w = (QueryOk rows n, w') \<Longrightarrow>
     query_or_throw my c q w = (Inr (rows, n), w')"
  by (simp add: query_or_throw_def run_query_def mbind_def)

lemma query_or_throw_error:
  "mysql_query my (m_pConnection c) (c_str q) w = (QueryError e, w') \<Longrightarrow>
     query_or_throw my c q w = (Inl (Runtime_error (''Problem with database '' @ e)), w')"
  by (simp add: query_or_throw_def run_query_def mbind_def)

lemma query_or_throw_Inr:
  "query_or_throw my c q w = (Inr x, w') \<longleftrightarrow>
     mysql_query my (m_pConnection c) (c_str q) w = (QueryOk (fst x) (snd x), w')"
  by (cases "mysql_query my (m_pConnection c) (c_str q) w"; cases x)
     (auto simp: query_or_throw_def run_query_def mbind_def split: mysql_reply.splits)

lemma query_or_throw_Inl:
  "query_or_throw my c q w = (Inl e, w') \<longleftrightarrow>
     (\<exists>s. e = Runtime_error (''Problem with database '' @ s) \<and>
          mysql_query my (m_pConnection c) (c_str q) w = (QueryError s, w'))"
  by (cases "mysql_query my (m_pConnection c) (c_str q) w")
     (auto simp: query_or_throw_def run_query_def mbind_def split: mysql_reply.splits)

end
