(* ===== verification/Mysql_Updates.thy ===== *)
theory Mysql_Updates
  imports Mysql_Connection
begin

text \<open>
  The schema migrations of \<open>src/database/mysql_storage_updates.cpp\<close>: the nine updates with the
  statements each of them executes, and \<open>MySqlStorageAllUpdates::upgrade\<close>, the loop that brings a
  database from its recorded version to the newest one. The loop is a
  \<open>partial_function\<close>, so that not ending would be visible as \<open>None\<close>.
\<close>

section \<open>Updates\<close>

text \<open>The pattern of every \<open>apply\<close>: execute a statement, return false when it fails.\<close>

primrec execute_in_order :: "'w mysql \<Rightarrow> MySqlStorageConnection \<Rightarrow> string list \<Rightarrow> ('w, bool) M" where
  "execute_in_order my c [] = ret True"
| "execute_in_order my c (q # qs) =
     mbind (executeQuery my c q)
       (\<lambda>bResult. if \<not> bResult then ret False else execute_in_order my c qs)"

definition update_0001 :: "string list" where
  "update_0001 =
     ['' CREATE TABLE `webdiff_users` ('' @
      ''     `id` int(11) NOT NULL AUTO_INCREMENT,'' @
      ''     `username` varchar(255) NOT NULL,'' @
      ''     `userpass` varchar(100) NOT NULL,'' @
      ''     `role` varchar(10) NOT NULL,'' @
      ''     `comment` varchar(1024) NOT NULL,'' @
      ''     `created` datetime NOT NULL DEFAULT CURRENT_TIMESTAMP,'' @
      ''     PRIMARY KEY (`id`),'' @
      ''     UNIQUE(`username`)'' @
      '' ) ENGINE=InnoDB DEFAULT CHARSET=utf8, AUTO_INCREMENT=1;'',
      '' INSERT INTO webdiff_users(username,userpass,role,comment) VALUES('' @
        [CHR 0x22] @ ''admin'' @ [CHR 0x22] @ '','' @
        [CHR 0x22] @ ''d033e22ae348aeb5660fc2140aec35850c4da997'' @ [CHR 0x22] @ '','' @
        [CHR 0x22] @ ''admin'' @ [CHR 0x22] @ '','' @ [CHR 0x22, CHR 0x22] @ '') '',
      '' CREATE TABLE `webdiff_users_tokens` ('' @
      ''     `id` int(11) NOT NULL AUTO_INCREMENT,'' @
      ''     `token` varchar(255) NOT NULL,'' @
      ''     `role` varchar(10) NOT NULL,'' @
      ''     `userid` int(11) NOT NULL,'' @
      ''     `created` datetime NOT NULL DEFAULT CURRENT_TIMESTAMP,'' @
      ''     PRIMARY KEY (`id`),'' @
      ''     UNIQUE(`token`)'' @
      '' ) ENGINE=InnoDB DEFAULT CHARSET=utf8, AUTO_INCREMENT=1;'',
      '' CREATE TABLE `webdiff_versions` ('' @
      ''     `id` int(11) NOT NULL AUTO_INCREMENT,'' @
      ''     `name` varchar(255) NOT NULL,'' @
      ''     `comment` varchar(255) NOT NULL,'' @
      ''     PRIMARY KEY (`id`)'' @
      '' ) ENGINE=InnoDB DEFAULT CHARSET=utf8 AUTO_INCREMENT=1;'']"

definition update_0002 :: "string list" where
  "update_0002 =
     ['' CREATE TABLE `webdiff_file_groups` ('' @
      ''     `id` int(11) NOT NULL AUTO_INCREMENT,'' @
      ''     `name` varchar(255) NOT NULL,'' @
      ''     PRIMARY KEY (`id`)'' @
      '' ) ENGINE=InnoDB DEFAULT CHARSET=utf8 AUTO_INCREMENT=1;'',
      '' CREATE TABLE `webdiff_define_files` ('' @
      ''     `id` int(11) NOT NULL AUTO_INCREMENT,'' @
      ''     `file_group_id` int(11) NOT NULL,'' @
      ''     `filepath` varchar(4096) NOT NULL,'' @
      ''     PRIMARY KEY (`id`)'' @
      '' ) ENGINE=InnoDB DEFAULT CHARSET=utf8 AUTO_INCREMENT=1;'',
      '' CREATE TABLE `webdiff_define_files_comments` ('' @
      ''     `id` int(11) NOT NULL AUTO_INCREMENT,'' @
      ''     `define_file_id` int(11) NOT NULL,'' @
      ''     `comment` TEXT NOT NULL,'' @
      ''     `dt_created` datetime NOT NULL,'' @
      ''     PRIMARY KEY (`id`)'' @
      '' ) ENGINE=InnoDB DEFAULT CHARSET=utf8 AUTO_INCREMENT=1;'']"

definition update_0003 :: "string list" where
  "update_0003 =
     ['' CREATE TABLE `webdiff_files` ('' @
      ''     `id` int(11) NOT NULL AUTO_INCREMENT,'' @
      ''     `version_id` int(11) NOT NULL,'' @
      ''     `define_file_id` int(11) NOT NULL,'' @
      ''     PRIMARY KEY (`id`)'' @
      '' ) ENGINE=InnoDB DEFAULT CHARSET=utf8 AUTO_INCREMENT=1;'']"

definition update_0004 :: "string list" where
  "update_0004 =
     ['' ALTER TABLE webdiff_define_files ADD childs int(11) DEFAULT 0; '',
      '' ALTER TABLE webdiff_define_files ADD parent_id int(11) DEFAULT 0; '']"

definition update_0005 :: "string list" where
  "update_0005 =
     ['' ALTER TABLE webdiff_define_files ADD `filename` VARCHAR(255) DEFAULT '' @
        [CHR 0x27, CHR 0x27] @ ''; '']"

definition update_0006 :: "string list" where
  "update_0006 = ['' ALTER TABLE webdiff_files ADD file_group_id int(11) DEFAULT 0; '']"

definition update_0007 :: "string list" where
  "update_0007 = ['' ALTER TABLE webdiff_define_files DROP COLUMN file_group_id; '']"

definition update_0008 :: "string list" where
  "update_0008 =
     ['' ALTER TABLE webdiff_files ADD parent_id int(11) DEFAULT 0; '',
      '' ALTER TABLE webdiff_files ADD amount_of_children int(11) DEFAULT 0; '']"

definition update_0009 :: "string list" where
  "update_0009 = ['' ALTER TABLE webdiff_define_files_comments ADD hided int(11) DEFAULT 0; '']"

text \<open>A \<open>MySqlStorageUpdate\<close>: its version and the statements its \<open>apply\<close> executes.\<close>

record MySqlStorageUpdate =
  m_nVersion :: int
  m_vStatements :: "string list"

definition MySqlStorageUpdate_apply ::
    "'w mysql \<Rightarrow> MySqlStorageConnection \<Rightarrow> MySqlStorageUpdate \<Rightarrow> ('w, bool) M" where
  "MySqlStorageUpdate_apply my c u = execute_in_order my c (m_vStatements u)"

definition m_vDatabaseUpdates :: "MySqlStorageUpdate list" where
  "m_vDatabaseUpdates =
     [\<lparr>m_nVersion = 1, m_vStatements = update_0001\<rparr>,
      \<lparr>m_nVersion = 2, m_vStatements = update_0002\<rparr>,
      \<lparr>m_nVersion = 3, m_vStatements = update_0003\<rparr>,
      \<lparr>m_nVersion = 4, m_vStatements = update_0004\<rparr>,
      \<lparr>m_nVersion = 5, m_vStatements = update_0005\<rparr>,
      \<lparr>m_nVersion = 6, m_vStatements = update_0006\<rparr>,
      \<lparr>m_nVersion = 7, m_vStatements = update_0007\<rparr>,
      \<lparr>m_nVersion = 8, m_vStatements = update_0008\<rparr>,
      \<lparr>m_nVersion = 9, m_vStatements = update_0009\<rparr>]"

section \<open>The upgrade loop\<close>

text \<open>One turn of the inner loop: \<open>(nDbVersion, bFoundUpdate)\<close> before and after one update.\<close>

definition upgrade_turn ::
    "'w mysql \<Rightarrow> MySqlStorageConnection \<Rightarrow> int \<times> bool \<Rightarrow> MySqlStorageUpdate \<Rightarrow> ('w, int \<times> bool) M" where
  "upgrade_turn my c acc u =
     (case acc of (nDbVersion, bFoundUpdate) \<Rightarrow>
        if m_nVersion u - 1 = nDbVersion then
          mbind (MySqlStorageUpdate_apply my c u)
            (\<lambda>b. if b then
                    mbind (insertUpdateInfo my c (m_nVersion u))
                      (\<lambda>ok. if \<not> ok then throw (Runtime_error ''Could not insert version'')
                             else ret (m_nVersion u, True))
                  else throw (Runtime_error (''Could not apply update '' @ to_string nDbVersion)))
        else ret (nDbVersion, bFoundUpdate))"

partial_function (option) upgrade_loop ::
    "'w mysql \<Rightarrow> MySqlStorageConnection \<Rightarrow> MySqlStorageUpdate list \<Rightarrow> int \<Rightarrow> 'w \<Rightarrow>
       ((cpp_error + int) \<times> 'w) option" where
  "upgrade_loop my c us nDbVersion w =
     (case for_fold us (nDbVersion, False) (upgrade_turn my c) w of
        (Inl e, w') \<Rightarrow> Some (Inl e, w')
      | (Inr acc, w') \<Rightarrow>
          (if snd acc then upgrade_loop my c us (fst acc) w' else Some (Inr (fst acc), w')))"

declare upgrade_loop.simps [code]

definition MySqlStorageAllUpdates_upgrade :: "'w mysql \<Rightarrow> MySqlStorageConnection \<Rightarrow> ('w, bool) M" where
  "MySqlStorageAllUpdates_upgrade my c =
     mbind (lastDatabaseVersion my c)
       (\<lambda>nDbVersion.
          if nDbVersion < 0 then throw (Runtime_error ''Could not get latest version of database'')
          else mbind (\<lambda>w. case upgrade_loop my c m_vDatabaseUpdates nDbVersion w of
                            None \<Rightarrow> (Inl Does_not_return, w) | Some r \<Rightarrow> r)
                 (\<lambda>_. ret True))"

section \<open>What the loop computes\<close>

text \<open>
  The reference: every update newer than the recorded version, once, in ascending order, each
  recorded after it was applied.
\<close>

definition upgrade_step :: "'w mysql \<Rightarrow> MySqlStorageConnection \<Rightarrow> MySqlStorageUpdate \<Rightarrow> ('w, unit) M" where
  "upgrade_step my c u =
     mbind (MySqlStorageUpdate_apply my c u)
       (\<lambda>b. if b then
               mbind (insertUpdateInfo my c (m_nVersion u))
                 (\<lambda>ok. if \<not> ok then throw (Runtime_error ''Could not insert version'') else ret ())
             else throw (Runtime_error (''Could not apply update '' @ to_string (m_nVersion u - 1))))"

definition upgrade_spec :: "'w mysql \<Rightarrow> MySqlStorageConnection \<Rightarrow> ('w, bool) M" where
  "upgrade_spec my c =
     mbind (lastDatabaseVersion my c)
       (\<lambda>n. if n < 0 then throw (Runtime_error ''Could not get latest version of database'')
             else mbind (for_each (filter (\<lambda>u. n < m_nVersion u) m_vDatabaseUpdates) (upgrade_step my c))
                    (\<lambda>_. ret True))"

lemma upgrade_turn_match:
  "m_nVersion u = n + 1 \<Longrightarrow>
     upgrade_turn my c (n, b) u = mbind (upgrade_step my c u) (\<lambda>_. ret (n + 1, True))"
  by (auto simp: upgrade_turn_def upgrade_step_def mbind_def fun_eq_iff split: prod.splits sum.splits)

lemma upgrade_turn_skip: "m_nVersion u \<noteq> n + 1 \<Longrightarrow> upgrade_turn my c (n, b) u = ret (n, b)"
  by (auto simp: upgrade_turn_def)

text \<open>
  A list of updates numbered consecutively from \<open>a + 1\<close>: one pass from a version that is not below
  \<open>a\<close> runs all the newer ones and ends at the last of them.
\<close>

fun consecutive :: "int \<Rightarrow> MySqlStorageUpdate list \<Rightarrow> bool" where
  "consecutive a [] \<longleftrightarrow> True"
| "consecutive a (u # us) \<longleftrightarrow> m_nVersion u = a + 1 \<and> consecutive (a + 1) us"

definition newer :: "int \<Rightarrow> MySqlStorageUpdate list \<Rightarrow> MySqlStorageUpdate list" where
  "newer n us = filter (\<lambda>u. n < m_nVersion u) us"

lemma consecutive_newer_all: "consecutive a us \<Longrightarrow> n \<le> a \<Longrightarrow> newer n us = us"
  by (induction us arbitrary: a) (auto simp: newer_def)

lemma consecutive_newer_none: "consecutive a us \<Longrightarrow> a + int (length us) \<le> n \<Longrightarrow> newer n us = []"
  by (induction us arbitrary: a) (force simp: newer_def)+

lemma upgrade_pass:
  assumes "consecutive a us" and "a \<le> n"
  shows "for_fold us (n, b) (upgrade_turn my c) =
           mbind (for_each (newer n us) (upgrade_step my c))
             (\<lambda>_. ret (if newer n us = [] then (n, b) else (a + int (length us), True)))"
  using assms
proof (induction us arbitrary: a n b)
  case (Cons u us)
  show ?case
  proof (cases "n = a")
    case True
    with Cons.prems have u: "m_nVersion u = n + 1" and us: "consecutive (n + 1) us" by auto
    have all: "newer (n + 1) us = us" using us by (rule consecutive_newer_all) simp
    have all': "newer n us = us" using us by (rule consecutive_newer_all) simp
    have "newer n (u # us) = u # us" using u all' by (simp add: newer_def)
    moreover have "for_fold us (n + 1, True) (upgrade_turn my c) =
        mbind (for_each us (upgrade_step my c)) (\<lambda>_. ret (n + 1 + int (length us), True))"
      using Cons.IH [OF us order_refl, of True] all by (cases us) simp_all
    ultimately show ?thesis
      using True u by (simp add: upgrade_turn_match mbind_assoc algebra_simps)
  next
    case False
    with Cons.prems have u: "m_nVersion u \<noteq> n + 1" "\<not> n < m_nVersion u"
      and us: "consecutive (a + 1) us" "a + 1 \<le> n" by auto
    have "newer n (u # us) = newer n us" using u by (simp add: newer_def)
    then show ?thesis
      using Cons.IH [OF us] u by (simp add: upgrade_turn_skip algebra_simps)
  qed
qed (simp add: newer_def)

lemma upgrade_loop_consecutive:
  assumes "consecutive a us" and "a \<le> n"
  shows "upgrade_loop my c us n w =
           Some (mbind (for_each (newer n us) (upgrade_step my c))
             (\<lambda>_. ret (if newer n us = [] then n else a + int (length us))) w)"
proof (cases "newer n us = []")
  case True
  then show ?thesis
    using upgrade_pass [OF assms, of False my c] by (subst upgrade_loop.simps) simp
next
  case False
  let ?m = "a + int (length us)"
  have none: "newer ?m us = []" using assms(1) by (rule consecutive_newer_none) simp
  have again: "upgrade_loop my c us ?m w' = Some (Inr ?m, w')" for w'
    using upgrade_pass [OF assms(1), of ?m False my c] none by (subst upgrade_loop.simps) simp
  show ?thesis
  proof (cases "for_each (newer n us) (upgrade_step my c) w")
    case (Pair r w')
    then show ?thesis
      using False upgrade_pass [OF assms, of False my c] again
      by (cases r; subst upgrade_loop.simps) (simp_all add: mbind_def)
  qed
qed

lemma m_vDatabaseUpdates_consecutive: "consecutive 0 m_vDatabaseUpdates"
  by (simp add: m_vDatabaseUpdates_def)

lemma upgrade_is_spec: "MySqlStorageAllUpdates_upgrade my c = upgrade_spec my c"
proof -
  have "(case upgrade_loop my c m_vDatabaseUpdates n w of
           None \<Rightarrow> (Inl Does_not_return, w) | Some r \<Rightarrow> r) =
        mbind (for_each (newer n m_vDatabaseUpdates) (upgrade_step my c))
          (\<lambda>_. ret (if newer n m_vDatabaseUpdates = [] then n else 9)) w" if "\<not> n < 0" for n w
    using upgrade_loop_consecutive [OF m_vDatabaseUpdates_consecutive, of n my c w] that
    by (simp add: m_vDatabaseUpdates_def)
  then show ?thesis
    by (auto simp: MySqlStorageAllUpdates_upgrade_def upgrade_spec_def mbind_def newer_def fun_eq_iff
        split: prod.splits sum.splits)
qed

text \<open>
  C7: \<open>upgrade\<close> is the reference migration, for every database and every starting state: it always
  ends, it executes each update newer than the recorded version exactly once, in ascending order,
  records each right after it was applied, and stops with the exception of the first failure. A
  database that is up to date, or newer than the program, is left as it is.
\<close>

theorem upgrade_refines_spec: "MySqlStorageAllUpdates_upgrade my c = upgrade_spec my c"
  by (rule upgrade_is_spec)

end
