(* ===== verification/Wsjcpp_Strings.thy ===== *)
theory Wsjcpp_Strings
  imports Prelude
begin

text \<open>
  The string functions of \<open>WsjcppCore\<close> (\<open>src.wsjcpp/wsjcpp_core/wsjcpp_core.cpp\<close>): path
  normalisation and splitting, which decide how an uploaded path becomes rows of the
  database, and the trimming, case, padding, replacement, hexadecimal, URI and size helpers.
  A character is a \<open>char\<close>, signed where the source converts it to \<open>int\<close>.
\<close>

section \<open>Searching\<close>

text \<open>\<open>std::string::find\<close>: the first position where the pattern occurs.\<close>

fun str_find :: "string \<Rightarrow> string \<Rightarrow> nat option" where
  "str_find pat [] = (if pat = [] then Some 0 else None)"
| "str_find pat (c # cs) =
     (if take (length pat) (c # cs) = pat then Some 0 else map_option Suc (str_find pat cs))"

lemma str_find_Some:
  "str_find pat s = Some k \<Longrightarrow> k + length pat \<le> length s \<and> take (length pat) (drop k s) = pat"
proof (induction s arbitrary: k)
  case (Cons c cs)
  show ?case
  proof (cases "take (length pat) (c # cs) = pat")
    case True
    then have "length pat \<le> length (c # cs)" by (metis length_take min.cobounded1)
    with True Cons.prems show ?thesis by auto
  next
    case False
    with Cons show ?thesis by auto
  qed
qed (auto split: if_splits)

lemma str_find_first:
  "str_find pat s = Some k \<Longrightarrow> j < k \<Longrightarrow> take (length pat) (drop j s) \<noteq> pat"
proof (induction s arbitrary: j k)
  case (Cons c cs)
  then show ?case by (cases j) (auto split: if_splits)
qed (auto split: if_splits)

lemma str_find_None: "str_find pat s = None \<Longrightarrow> take (length pat) (drop j s) \<noteq> pat"
proof (induction s arbitrary: j)
  case (Cons c cs)
  then show ?case by (cases j) (auto split: if_splits)
qed (auto split: if_splits)

section \<open>Paths\<close>

text \<open>
  The first loop of \<open>doNormalizePath\<close> and \<open>extractFilename\<close>: names between slashes, with a last
  empty name when the path ends in a slash.
\<close>

fun path_names_loop :: "string list \<Rightarrow> string \<Rightarrow> string \<Rightarrow> string list \<times> string" where
  "path_names_loop vNames s [] = (vNames, s)"
| "path_names_loop vNames s (c # cs) =
     (if c = CHR ''/''
      then path_names_loop (if cs = [] then vNames @ [s] @ [''''] else vNames @ [s]) '''' cs
      else path_names_loop vNames (s @ [c]) cs)"

definition path_names :: "string \<Rightarrow> string list" where
  "path_names sPath =
     (case path_names_loop [] '''' sPath of
        (vNames, s) \<Rightarrow> if s \<noteq> '''' then vNames @ [s] else vNames)"

text \<open>One turn of the filtering loop of \<open>doNormalizePath\<close>, at the first and last index or between.\<close>

definition normalize_step :: "bool \<Rightarrow> bool \<Rightarrow> string list \<Rightarrow> string \<Rightarrow> string list" where
  "normalize_step is_first is_last vNewNames sCurrent =
     (if sCurrent = '''' \<and> is_last then vNewNames @ [sCurrent]
      else if (sCurrent = '''' \<or> sCurrent = ''.'') \<and> \<not> is_first then vNewNames
      else if sCurrent = ''..'' \<and> vNewNames \<noteq> [] then
        (let sPrev = last vNewNames
         in if sPrev = '''' then butlast vNewNames @ [sCurrent]
            else if sPrev \<noteq> ''.'' \<and> sPrev \<noteq> ''..'' then butlast vNewNames
            else vNewNames @ [sCurrent])
      else vNewNames @ [sCurrent])"

fun normalize_loop :: "bool \<Rightarrow> string list \<Rightarrow> string list \<Rightarrow> string list" where
  "normalize_loop is_first vNewNames [] = vNewNames"
| "normalize_loop is_first vNewNames (n # ns) =
     normalize_loop False (normalize_step is_first (ns = []) vNewNames n) ns"

text \<open>\<open>WsjcppCore::join\<close>, also the last loop of \<open>doNormalizePath\<close>.\<close>

fun WsjcppCore_join :: "string list \<Rightarrow> string \<Rightarrow> string" where
  "WsjcppCore_join [] sDelim = ''''"
| "WsjcppCore_join [s] sDelim = s"
| "WsjcppCore_join (s # t # ss) sDelim = s @ sDelim @ WsjcppCore_join (t # ss) sDelim"

definition WsjcppCore_doNormalizePath :: "string \<Rightarrow> string" where
  "WsjcppCore_doNormalizePath sPath =
     WsjcppCore_join (normalize_loop True [] (path_names sPath)) ''/''"

definition WsjcppCore_extractFilename :: "string \<Rightarrow> string" where
  "WsjcppCore_extractFilename sPath =
     (if path_names sPath = [] then '''' else last (path_names sPath))"

text \<open>
  \<open>WsjcppCore::split\<close>. The position \<open>nPos\<close> is the suffix that is left; a delimiter at the very end
  gives a last empty token. An empty delimiter is found at every position and never moves it, so
  the loop does not return: the value is \<open>None\<close>.
\<close>

partial_function (option) split_loop ::
    "string \<Rightarrow> string \<Rightarrow> string list \<Rightarrow> string list option" where
  "split_loop sDelim rest vRet =
     (if rest = [] then Some vRet
      else case str_find sDelim rest of
             Some k \<Rightarrow>
               (let rest' = drop (k + length sDelim) rest
                in split_loop sDelim rest'
                     (if rest' = [] then vRet @ [take k rest, ''''] else vRet @ [take k rest]))
           | None \<Rightarrow> Some (vRet @ [rest]))"

declare split_loop.simps [code]

definition WsjcppCore_split :: "string \<Rightarrow> string \<Rightarrow> string list option" where
  "WsjcppCore_split sWhat sDelim = split_loop sDelim sWhat []"

section \<open>Trimming, case, padding, replacement\<close>

definition WsjcppCore_ltrim :: "string \<Rightarrow> string \<Rightarrow> string" where
  "WsjcppCore_ltrim str chars = dropWhile (\<lambda>c. c \<in> set chars) str"

definition WsjcppCore_rtrim :: "string \<Rightarrow> string \<Rightarrow> string" where
  "WsjcppCore_rtrim str chars = rev (dropWhile (\<lambda>c. c \<in> set chars) (rev str))"

definition WsjcppCore_trim :: "string \<Rightarrow> string \<Rightarrow> string" where
  "WsjcppCore_trim str chars = WsjcppCore_ltrim (WsjcppCore_rtrim str chars) chars"

definition tolower_char :: "char \<Rightarrow> char" where
  "tolower_char c =
     (if 65 \<le> (of_char c :: nat) \<and> (of_char c :: nat) \<le> 90 then char_of (of_char c + 32 :: nat) else c)"

definition toupper_char :: "char \<Rightarrow> char" where
  "toupper_char c =
     (if 97 \<le> (of_char c :: nat) \<and> (of_char c :: nat) \<le> 122 then char_of (of_char c - 32 :: nat) else c)"

definition WsjcppCore_toLower :: "string \<Rightarrow> string" where
  "WsjcppCore_toLower str = map tolower_char str"

definition WsjcppCore_toUpper :: "string \<Rightarrow> string" where
  "WsjcppCore_toUpper str = map toupper_char str"

text \<open>
  \<open>replaceAll\<close>: \<open>start_pos\<close> moves past each replacement, so the search goes on in the text that
  follows the match; \<open>done\<close> is the part before it.
\<close>

function replace_loop :: "string \<Rightarrow> string \<Rightarrow> string \<Rightarrow> string \<Rightarrow> string" where
  "replace_loop sFrom sTo before rest =
     (if sFrom = [] then before @ rest
      else case str_find sFrom rest of
             None \<Rightarrow> before @ rest
           | Some k \<Rightarrow> replace_loop sFrom sTo (before @ take k rest @ sTo) (drop (k + length sFrom) rest))"
  by pat_completeness auto
termination
proof (relation "measure (\<lambda>(sFrom, sTo, before, rest). length rest)")
  fix sFrom sTo before rest :: string and k
  assume "sFrom \<noteq> []" "str_find sFrom rest = Some k"
  then have "0 < length sFrom" "k + length sFrom \<le> length rest"
    using str_find_Some by auto
  then show "((sFrom, sTo, before @ take k rest @ sTo, drop (k + length sFrom) rest),
      (sFrom, sTo, before, rest)) \<in> measure (\<lambda>(sFrom, sTo, before, rest). length rest)"
    by (cases sFrom) auto
qed simp

declare replace_loop.simps [simp del]

definition WsjcppCore_replaceAll :: "string \<Rightarrow> string \<Rightarrow> string \<Rightarrow> string" where
  "WsjcppCore_replaceAll str sFrom sTo = (if sFrom = [] then str else replace_loop sFrom sTo [] str)"

definition WsjcppCore_doPadLeft :: "string \<Rightarrow> char \<Rightarrow> int \<Rightarrow> string" where
  "WsjcppCore_doPadLeft sIn cWhat nLength = replicate (nat (nLength - int (length sIn))) cWhat @ sIn"

definition WsjcppCore_doPadRight :: "string \<Rightarrow> char \<Rightarrow> int \<Rightarrow> string" where
  "WsjcppCore_doPadRight sIn cWhat nLength = sIn @ replicate (nat (nLength - int (length sIn))) cWhat"

section \<open>Hexadecimal, URIs, sizes\<close>

definition hex_digit :: "nat \<Rightarrow> char" where
  "hex_digit d = ''0123456789abcdef'' ! d"

definition hex_digit_upper :: "nat \<Rightarrow> char" where
  "hex_digit_upper d = ''0123456789ABCDEF'' ! d"

text \<open>\<open>uint2hexString\<close>: eight digits from the low end, then reversed.\<close>

fun uint_hex_loop :: "nat \<Rightarrow> nat \<Rightarrow> string \<Rightarrow> string" where
  "uint_hex_loop 0 n sRet = sRet"
| "uint_hex_loop (Suc i) n sRet = uint_hex_loop i (n div 16) (sRet @ [hex_digit (n mod 16)])"

definition WsjcppCore_uint2hexString :: "nat \<Rightarrow> string" where
  "WsjcppCore_uint2hexString n = rev (uint_hex_loop 8 (n mod 2 ^ 32) [])"

definition WsjcppCore_extractURLProtocol :: "string \<Rightarrow> string" where
  "WsjcppCore_extractURLProtocol sValue =
     (case str_find ''://'' sValue of None \<Rightarrow> '''' | Some nPosProtocol \<Rightarrow> take nPosProtocol sValue)"

definition uri_unreserved :: "char \<Rightarrow> bool" where
  "uri_unreserved c \<longleftrightarrow>
     c \<in> set ''-_.!~*'' \<or> c = CHR 0x27 \<or> c = CHR ''('' \<or> c = CHR '')'' \<or>
     is_digit c \<or>
     (97 \<le> (of_char c :: nat) \<and> (of_char c :: nat) \<le> 122) \<or>
     (65 \<le> (of_char c :: nat) \<and> (of_char c :: nat) \<le> 90)"

text \<open>
  \<open>std::hex << (int)c\<close>: a negative \<open>char\<close> is printed as the 32-bit pattern of its \<open>int\<close>, and no
  leading zero is printed.
\<close>

fun hex_upper :: "nat \<Rightarrow> string" where
  "hex_upper n = (if n < 16 then [hex_digit_upper n] else hex_upper (n div 16) @ [hex_digit_upper (n mod 16)])"

declare hex_upper.simps [simp del]

definition char_to_int :: "char \<Rightarrow> int" where
  "char_to_int c = (let n = int (of_char c) in if n < 128 then n else n - 256)"

definition WsjcppCore_encodeUriComponent :: "string \<Rightarrow> string" where
  "WsjcppCore_encodeUriComponent sValue =
     concat (map (\<lambda>c. if uri_unreserved c then [c]
                       else CHR ''%'' # hex_upper (nat (char_to_int c mod 2 ^ 32))) sValue)"

definition hex_val :: "char \<Rightarrow> nat option" where
  "hex_val c =
     (let n = of_char c
      in if 48 \<le> n \<and> n \<le> 57 then Some (n - 48)
         else if 65 \<le> n \<and> n \<le> 70 then Some (n - 55)
         else if 97 \<le> n \<and> n \<le> 102 then Some (n - 87)
         else None)"

text \<open>
  \<open>std::stoul("0x" + two characters, nullptr, 16)\<close>: the longest run of hexadecimal digits after
  the prefix; with none, the zero of the prefix itself.
\<close>

definition stoul_hex2 :: "char \<Rightarrow> char \<Rightarrow> nat" where
  "stoul_hex2 c d =
     (case hex_val c of
        None \<Rightarrow> 0
      | Some x \<Rightarrow> (case hex_val d of None \<Rightarrow> x | Some y \<Rightarrow> 16 * x + y))"

fun WsjcppCore_decodeUriComponent :: "string \<Rightarrow> cpp_error + string" where
  "WsjcppCore_decodeUriComponent [] = Inr []"
| "WsjcppCore_decodeUriComponent (c # cs) =
     (if c = CHR ''%'' then
        (case cs of
           d # e # rest \<Rightarrow>
             map_sum id (\<lambda>s. char_of (stoul_hex2 d e) # s) (WsjcppCore_decodeUriComponent rest)
         | _ \<Rightarrow> Inl (Runtime_error ''Wrong format of string''))
      else map_sum id (\<lambda>s. c # s) (WsjcppCore_decodeUriComponent cs))"

text \<open>Division of C++ integers truncates towards zero.\<close>

definition trunc_div :: "int \<Rightarrow> int \<Rightarrow> int" where
  "trunc_div a b = sgn a * sgn b * (\<bar>a\<bar> div \<bar>b\<bar>)"

text \<open>\<open>getHumanSizeBytes\<close>: the loop over the prefixes, with the variables \<open>nBytes\<close> and \<open>n0\<close>.\<close>

fun human_size_loop :: "string list \<Rightarrow> int \<Rightarrow> int \<Rightarrow> string" where
  "human_size_loop [] nBytes n0 = to_string nBytes @ ''PB''"
| "human_size_loop (p # ps) nBytes n0 =
     (if 1 \<le> n0 \<and> n0 < 1000 then to_string n0 @ p
      else
        let q = trunc_div nBytes 1000;
            n1 = nBytes - q * 1000;
            n0' = q + (if 500 \<le> n1 then 1 else 0)
        in if n0' = 0 \<and> n1 = 0 then ''fuck'' else human_size_loop ps q n0')"

definition WsjcppCore_getHumanSizeBytes :: "int \<Rightarrow> string" where
  "WsjcppCore_getHumanSizeBytes nBytes =
     (if nBytes = 0 then ''0B''
      else human_size_loop [''B'', ''KB'', ''MB'', ''GB'', ''TB'', ''PB''] nBytes nBytes)"

text \<open>\<open>createUuid\<close>, with the successive results of \<open>rand()\<close> as a parameter.\<close>

definition WsjcppCore_createUuid :: "(nat \<Rightarrow> nat) \<Rightarrow> string" where
  "WsjcppCore_createUuid rnd =
     map (\<lambda>i. if i \<noteq> 8 \<and> i \<noteq> 13 \<and> i \<noteq> 18 \<and> i \<noteq> 23 then hex_digit (rnd i mod 16) else CHR ''-'')
       [0..<36]"

section \<open>Splitting and joining\<close>

lemma join_append:
  "xs \<noteq> [] \<Longrightarrow> ys \<noteq> [] \<Longrightarrow>
     WsjcppCore_join (xs @ ys) d = WsjcppCore_join xs d @ d @ WsjcppCore_join ys d"
proof (induction xs d rule: WsjcppCore_join.induct)
  case (2 s d)
  then show ?case by (cases ys) auto
qed auto

lemma split_loop_ok:
  assumes "sDelim \<noteq> []"
  shows "\<exists>ts. split_loop sDelim rest vRet = Some (vRet @ ts) \<and> WsjcppCore_join ts sDelim = rest \<and>
           (rest \<noteq> [] \<longrightarrow> ts \<noteq> []) \<and> (\<forall>t \<in> set ts. \<forall>j. take (length sDelim) (drop j t) \<noteq> sDelim)"
proof (induction "length rest" arbitrary: rest vRet rule: less_induct)
  case less
  consider (empty) "rest = []"
    | (last) "rest \<noteq> []" "str_find sDelim rest = None"
    | (found) k where "rest \<noteq> []" "str_find sDelim rest = Some k"
    by (cases "str_find sDelim rest") auto
  then show ?case
  proof cases
    case empty
    then show ?thesis by (intro exI [of _ "[]"]) (simp add: split_loop.simps)
  next
    case last
    then have "split_loop sDelim rest vRet = Some (vRet @ [rest])"
      by (subst split_loop.simps) simp
    with last show ?thesis by (intro exI [of _ "[rest]"]) (simp add: str_find_None)
  next
    case found
    let ?rest' = "drop (k + length sDelim) rest"
    note bounds = str_find_Some [OF found(2)]
    then have eq: "rest = take k rest @ sDelim @ ?rest'"
      by (metis append_take_drop_id drop_drop add.commute)
    have token: "take (length sDelim) (drop j (take k rest)) \<noteq> sDelim" for j
    proof (rule notI)
      assume t: "take (length sDelim) (drop j (take k rest)) = sDelim"
      from arg_cong [OF t, of length] have le: "length sDelim \<le> k - j" using bounds by auto
      with assms have "j < k" by (cases sDelim) auto
      moreover from t le have "take (length sDelim) (drop j rest) = sDelim"
        by (simp add: drop_take min_absorb1)
      ultimately show False using str_find_first [OF found(2)] by blast
    qed
    show ?thesis
    proof (cases "?rest' = []")
      case True
      have "split_loop sDelim rest vRet = Some (vRet @ [take k rest, ''''])"
        using found True by (subst split_loop.simps) (simp add: split_loop.simps)
      with True eq token assms show ?thesis
        by (intro exI [of _ "[take k rest, '''']"]) auto
    next
      case False
      have "length ?rest' < length rest" using bounds assms by (cases sDelim) auto
      from less [OF this, of "vRet @ [take k rest]"] obtain ts where
        ts: "split_loop sDelim ?rest' (vRet @ [take k rest]) = Some (vRet @ [take k rest] @ ts)"
          "WsjcppCore_join ts sDelim = ?rest'" "ts \<noteq> []"
          "\<forall>t \<in> set ts. \<forall>j. take (length sDelim) (drop j t) \<noteq> sDelim"
        using False by auto
      have "split_loop sDelim rest vRet = Some (vRet @ (take k rest # ts))"
        using found False ts(1) by (subst split_loop.simps) (simp add: Let_def)
      moreover have "WsjcppCore_join (take k rest # ts) sDelim = rest"
        using ts(2,3) eq by (cases ts) auto
      ultimately show ?thesis using ts(4) token by (intro exI [of _ "take k rest # ts"]) auto
    qed
  qed
qed

lemma split_slash:
  obtains ts where "WsjcppCore_split p ''/'' = Some ts" "WsjcppCore_join ts ''/'' = p"
    "\<And>t. t \<in> set ts \<Longrightarrow> CHR ''/'' \<notin> set t"
proof -
  obtain ts where ts: "WsjcppCore_split p ''/'' = Some ts" "WsjcppCore_join ts ''/'' = p"
    "\<forall>t \<in> set ts. \<forall>j. take 1 (drop j t) \<noteq> ''/''"
    using split_loop_ok [of "''/''" p "[]"] by (auto simp: WsjcppCore_split_def)
  have "CHR ''/'' \<notin> set t" if "t \<in> set ts" for t
  proof
    assume "CHR ''/'' \<in> set t"
    then obtain j where "j < length t" "t ! j = CHR ''/''" by (auto simp: in_set_conv_nth)
    then have "take 1 (drop j t) = ''/''" by (metis One_nat_def Cons_nth_drop_Suc take_Suc_Cons take_0)
    with ts(3) that show False by blast
  qed
  with ts that show ?thesis by blast
qed

text \<open>
  C32: splitting by a non-empty delimiter always returns; joining the tokens with the delimiter
  gives the text back, and no token contains the delimiter.
\<close>

theorem split_join:
  assumes "sDelim \<noteq> []"
  shows "\<exists>ts. WsjcppCore_split s sDelim = Some ts \<and> WsjcppCore_join ts sDelim = s \<and>
           (\<forall>t \<in> set ts. str_find sDelim t = None)"
proof -
  obtain ts where ts: "WsjcppCore_split s sDelim = Some ts" "WsjcppCore_join ts sDelim = s"
    "\<forall>t \<in> set ts. \<forall>j. take (length sDelim) (drop j t) \<noteq> sDelim"
    using split_loop_ok [OF assms, of s "[]"] by (auto simp: WsjcppCore_split_def)
  have "str_find sDelim t = None" if "t \<in> set ts" for t
    using ts(3) that by (cases "str_find sDelim t") (auto dest: str_find_Some)
  with ts show ?thesis by blast
qed

theorem split_join_witness:
  "''ab'' \<noteq> [] \<and> (\<exists>ts. WsjcppCore_split ''1ab2'' ''ab'' = Some ts \<and>
     WsjcppCore_join ts ''ab'' = ''1ab2'' \<and> (\<forall>t \<in> set ts. str_find ''ab'' t = None))"
  using split_join [of "''ab''" "''1ab2''"] by simp

section \<open>Normal paths\<close>

text \<open>
  A list of names as \<open>doNormalizePath\<close> leaves it before a possible trailing slash: after the
  first position no name is empty or a dot, and two dots follow dots only.
\<close>

fun normal_after :: "string \<Rightarrow> string list \<Rightarrow> bool" where
  "normal_after p [] \<longleftrightarrow> True"
| "normal_after p (n # ns) \<longleftrightarrow>
     n \<noteq> '''' \<and> n \<noteq> ''.'' \<and> (n = ''..'' \<longrightarrow> p = ''.'' \<or> p = ''..'') \<and> normal_after n ns"

fun normal_names :: "string list \<Rightarrow> bool" where
  "normal_names [] \<longleftrightarrow> True"
| "normal_names (n # ns) \<longleftrightarrow> normal_after n ns"

lemma normal_after_append:
  "normal_after p (xs @ ys) \<longleftrightarrow> normal_after p xs \<and> normal_after (last (p # xs)) ys"
  by (induction xs arbitrary: p) auto

lemma normal_names_snoc:
  assumes "ns \<noteq> []"
  shows "normal_names (ns @ [n]) \<longleftrightarrow>
     normal_names ns \<and> n \<noteq> '''' \<and> n \<noteq> ''.'' \<and> (n = ''..'' \<longrightarrow> last ns = ''.'' \<or> last ns = ''..'')"
  using assms by (cases ns) (auto simp: normal_after_append)

lemma normal_names_prefix: "normal_names (xs @ ys) \<Longrightarrow> normal_names xs"
  by (cases xs) (auto simp: normal_after_append)

lemma normal_names_butlast: "normal_names ns \<Longrightarrow> normal_names (butlast ns)"
  by (cases ns rule: rev_cases) (auto dest: normal_names_prefix)

lemma normal_names_last_empty: "normal_names ns \<Longrightarrow> ns \<noteq> [] \<Longrightarrow> last ns = '''' \<Longrightarrow> ns = ['''']"
proof (cases ns rule: rev_cases)
  case (snoc ms n)
  assume "normal_names ns" "last ns = ''''"
  with snoc show ?thesis by (cases "ms = []") (auto simp: normal_names_snoc)
qed simp

text \<open>Every turn before the last keeps the names normal.\<close>

lemma normalize_step_normal:
  assumes "normal_names ns" and "is_first \<longrightarrow> ns = []"
  shows "normal_names (normalize_step is_first False ns n)"
proof (cases "ns = []")
  case True
  then show ?thesis by (simp add: normalize_step_def)
next
  case False
  with assms show ?thesis
    using normal_names_last_empty [OF assms(1) False]
    by (auto simp: normalize_step_def Let_def normal_names_snoc normal_names_butlast)
qed

text \<open>The last turn keeps them normal, except that it may append the empty name.\<close>

lemma normalize_step_last:
  assumes "normal_names ns" and "is_first \<longrightarrow> ns = []"
  shows "\<exists>ms. normal_names ms \<and>
           (normalize_step is_first True ns n = ms \<or> normalize_step is_first True ns n = ms @ [''''])"
proof (cases "n = ''''")
  case True
  with assms show ?thesis by (auto simp: normalize_step_def)
next
  case False
  then have "normalize_step is_first True ns n = normalize_step is_first False ns n"
    by (simp add: normalize_step_def)
  with normalize_step_normal [OF assms] show ?thesis by auto
qed

lemma normalize_loop_normal:
  assumes "normal_names acc" and "is_first \<longrightarrow> acc = []"
  shows "\<exists>ms. normal_names ms \<and>
           (normalize_loop is_first acc ns = ms \<or> normalize_loop is_first acc ns = ms @ [''''])"
  using assms
proof (induction ns arbitrary: is_first acc)
  case (Cons n ns)
  show ?case
  proof (cases "ns = []")
    case True
    then show ?thesis using normalize_step_last [OF Cons.prems, of n] by simp
  next
    case False
    have "normal_names (normalize_step is_first False acc n)"
      by (rule normalize_step_normal [OF Cons.prems])
    from Cons.IH [OF this, of False] False show ?thesis by simp
  qed
qed auto

text \<open>Normal names, and a trailing empty name, pass through the loop unchanged.\<close>

lemma normalize_step_fixed:
  assumes "normal_names (acc @ [n])"
  shows "normalize_step (acc = []) is_last acc n = acc @ [n]"
proof (cases "acc = []")
  case False
  with assms show ?thesis by (auto simp: normalize_step_def normal_names_snoc)
qed (auto simp: normalize_step_def)

lemma normalize_loop_fixed:
  "normal_names (acc @ ns) \<Longrightarrow> normalize_loop (acc = []) acc ns = acc @ ns"
proof (induction ns arbitrary: acc)
  case (Cons n ns)
  have "normal_names (acc @ [n])" using Cons.prems normal_names_prefix [of "acc @ [n]" ns] by simp
  then have "normalize_step (acc = []) (ns = []) acc n = acc @ [n]" by (rule normalize_step_fixed)
  with Cons.IH [of "acc @ [n]"] Cons.prems show ?case by simp
qed simp

lemma normalize_loop_fixed_slash:
  assumes "normal_names (acc @ ns)"
  shows "normalize_loop (acc = []) acc (ns @ ['''']) = acc @ ns @ ['''']"
  using assms
proof (induction ns arbitrary: acc)
  case Nil
  then show ?case by (simp add: normalize_step_def)
next
  case (Cons n ns)
  have "normal_names (acc @ [n])" using Cons.prems normal_names_prefix [of "acc @ [n]" ns] by simp
  then have "normalize_step (acc = []) False acc n = acc @ [n]" by (rule normalize_step_fixed)
  with Cons.IH [of "acc @ [n]"] Cons.prems show ?case by simp
qed

section \<open>Names of a path\<close>

lemma path_names_loop_name:
  "CHR ''/'' \<notin> set x \<Longrightarrow> path_names_loop vs s (x @ cs) = path_names_loop vs (s @ x) cs"
  by (induction x arbitrary: s) auto

lemma path_names_loop_join:
  assumes "ns \<noteq> []" and "\<forall>n \<in> set ns. CHR ''/'' \<notin> set n"
  shows "path_names_loop vs s (WsjcppCore_join ns ''/'') =
           (if last ns = '''' \<and> 1 < length ns then (vs @ [s @ hd ns] @ tl ns, '''')
            else (if length ns = 1 then (vs, s @ hd ns)
                  else (vs @ [s @ hd ns] @ butlast (tl ns), last ns)))"
  using assms
proof (induction ns arbitrary: vs s rule: induct_list012)
  case (2 n)
  then show ?case using path_names_loop_name [of n vs s "[]"] by simp
next
  case (3 n m ns)
  have join_empty: "WsjcppCore_join (m # ns) ''/'' = [] \<longleftrightarrow> ns = [] \<and> m = ''''"
    by (cases ns) auto
  have "path_names_loop vs s (WsjcppCore_join (n # m # ns) ''/'') =
        path_names_loop (if ns = [] \<and> m = '''' then vs @ [s @ n] @ [''''] else vs @ [s @ n]) ''''
          (WsjcppCore_join (m # ns) ''/'')"
    using 3(4) path_names_loop_name [of n vs s] by (simp add: join_empty)
  also have "\<dots> = (if last (n # m # ns) = '''' \<and> 1 < length (n # m # ns)
      then (vs @ [s @ n] @ m # ns, '''')
      else (vs @ [s @ n] @ butlast (m # ns), last (m # ns)))"
  proof (cases "ns = []")
    case True
    with 3(4) show ?thesis using path_names_loop_name [of m _ "[]" "[]"] by auto
  next
    case False
    with 3(2) [of "vs @ [s @ n]" "''''"] 3(4) show ?thesis by auto
  qed
  finally show ?case by simp
qed simp

lemma path_names_join:
  assumes "ns \<noteq> []" and "ns \<noteq> ['''']" and "\<forall>n \<in> set ns. CHR ''/'' \<notin> set n"
  shows "path_names (WsjcppCore_join ns ''/'') = ns"
proof (cases ns rule: rev_cases)
  case (snoc xs y)
  show ?thesis
    using assms path_names_loop_join [OF assms(1,3), of "[]" "''''"]
    by (cases xs) (auto simp: snoc path_names_def)
qed (use assms in simp)

lemma path_names_loop_no_slash:
  assumes "\<forall>n \<in> set vs. CHR ''/'' \<notin> set n" and "CHR ''/'' \<notin> set s"
  shows "(\<forall>n \<in> set (fst (path_names_loop vs s cs)). CHR ''/'' \<notin> set n) \<and>
         CHR ''/'' \<notin> set (snd (path_names_loop vs s cs))"
  using assms
proof (induction cs arbitrary: vs s)
  case (Cons c cs)
  show ?case
  proof (cases "c = CHR ''/''")
    case True
    have "\<forall>n \<in> set (if cs = [] then vs @ [s] @ [''''] else vs @ [s]). CHR ''/'' \<notin> set n"
      using Cons.prems by auto
    from Cons.IH [OF this, of "''''"] True show ?thesis by simp
  next
    case False
    with Cons.IH [OF Cons.prems(1), of "s @ [c]"] Cons.prems show ?thesis by simp
  qed
qed simp

lemma path_names_no_slash: "n \<in> set (path_names p) \<Longrightarrow> CHR ''/'' \<notin> set n"
  using path_names_loop_no_slash [of "[]" "''''" p]
  by (cases "path_names_loop [] '''' p") (auto simp: path_names_def split: if_splits)

lemma normalize_step_subset:
  "set (normalize_step is_first is_last acc n) \<subseteq> insert n (set acc)"
  by (auto simp: normalize_step_def Let_def dest: in_set_butlastD)

lemma normalize_loop_subset: "set (normalize_loop is_first acc ns) \<subseteq> set acc \<union> set ns"
proof (induction ns arbitrary: is_first acc)
  case (Cons n ns)
  then show ?case using normalize_step_subset [of is_first "ns = []" acc n] by fastforce
qed simp

text \<open>
  C33: normalising a normalised path changes nothing, so the stored form of a path does not depend
  on how many times it was normalised.
\<close>

theorem normalize_idempotent:
  "WsjcppCore_doNormalizePath (WsjcppCore_doNormalizePath p) = WsjcppCore_doNormalizePath p"
proof -
  define out where "out = normalize_loop True [] (path_names p)"
  have no_slash: "\<forall>n \<in> set out. CHR ''/'' \<notin> set n"
    using normalize_loop_subset [of True "[]" "path_names p"] path_names_no_slash
    by (auto simp: out_def)
  obtain ms where ms: "normal_names ms" "out = ms \<or> out = ms @ ['''']"
    using normalize_loop_normal [of "[]" True "path_names p"] by (auto simp: out_def)
  have fixed: "normalize_loop True [] out = out"
    using ms normalize_loop_fixed [of "[]" ms] normalize_loop_fixed_slash [of "[]" ms] by auto
  show ?thesis
  proof (cases "out = [] \<or> out = ['''']")
    case True
    then have "WsjcppCore_doNormalizePath p = ''''"
      by (auto simp: WsjcppCore_doNormalizePath_def out_def [symmetric])
    then show ?thesis by (simp add: WsjcppCore_doNormalizePath_def path_names_def)
  next
    case False
    then have "path_names (WsjcppCore_join out ''/'') = out"
      using no_slash by (intro path_names_join) auto
    with fixed show ?thesis by (simp add: WsjcppCore_doNormalizePath_def out_def [symmetric])
  qed
qed

end
