(* ===== verification/Mysql_Storage.thy ===== *)
theory Mysql_Storage
  imports Mysql_Updates Wsjcpp_Strings
begin

text \<open>
  \<open>MySqlStorage\<close> (\<open>src/database/mysql_storage.cpp\<close>): the connections of the threads, the caches of
  versions, groups, file definitions and files, and the operations the HTTP handlers call. An
  operation is a computation over the storage object and the outside world.

  \<open>getConnection\<close> may return a null pointer, which no caller checks: using it is the outcome
  \<open>Null_pointer\<close>. Log output is left out.
\<close>

section \<open>State\<close>

record MySqlStorage =
  m_sDatabaseHost :: string
  m_sDatabaseName :: string
  m_sDatabaseUser :: string
  m_sDatabasePass :: string
  m_nDatabasePort :: "int option"
  m_nConnectionOutdatedAfterSeconds :: int
  m_mapStorageConnections :: "string \<rightharpoonup> MySqlStorageConnection"
  m_vDoRemoveStorageConnections :: "MySqlStorageConnection list"
  m_vVersions :: "ModelVersion list"
  m_vGroups :: "ModelGroup list"
  m_mapCacheFileDefinsIds :: "string \<rightharpoonup> int"
  m_cacheGroups :: ModelCacheFilesVersion

type_synonym ('w, 'a) S = "(MySqlStorage \<times> 'w, 'a) M"

text \<open>
  The constructor, given the environment variables. When \<open>WEBDIFF_DB_PORT\<close> is set its value is
  parsed into a local variable and the member is never assigned: it stays indeterminate
  (\<open>None\<close>).
\<close>

definition env_or :: "(string \<rightharpoonup> string) \<Rightarrow> string \<Rightarrow> string \<Rightarrow> string" where
  "env_or getEnv sName sDefault = (case getEnv sName of Some sValue \<Rightarrow> sValue | None \<Rightarrow> sDefault)"

definition MySqlStorage_new :: "(string \<rightharpoonup> string) \<Rightarrow> MySqlStorage" where
  "MySqlStorage_new getEnv =
     \<lparr>m_sDatabaseHost = env_or getEnv ''WEBDIFF_DB_HOST'' ''localhost'',
      m_sDatabaseName = env_or getEnv ''WEBDIFF_DB_NAME'' ''webdiff'',
      m_sDatabaseUser = env_or getEnv ''WEBDIFF_DB_USER'' ''webdiffu'',
      m_sDatabasePass = env_or getEnv ''WEBDIFF_DB_PASS'' ''jET3E4W9vm'',
      m_nDatabasePort = (case getEnv ''WEBDIFF_DB_PORT'' of Some _ \<Rightarrow> None | None \<Rightarrow> Some 3306),
      m_nConnectionOutdatedAfterSeconds = 60 * 60,
      m_mapStorageConnections = Map.empty,
      m_vDoRemoveStorageConnections = [],
      m_vVersions = [],
      m_vGroups = [],
      m_mapCacheFileDefinsIds = Map.empty,
      m_cacheGroups = ModelCacheFilesVersion_new\<rparr>"

section \<open>Connections\<close>

definition get_storage :: "('w, MySqlStorage) S" where
  "get_storage = gets fst"

definition put_storage :: "(MySqlStorage \<Rightarrow> MySqlStorage) \<Rightarrow> ('w, unit) S" where
  "put_storage f = modify (apfst f)"

definition deref :: "'a option \<Rightarrow> ('s, 'a) M" where
  "deref p = (case p of None \<Rightarrow> throw Null_pointer | Some x \<Rightarrow> ret x)"

definition MySqlStorage_connect :: "'w mysql \<Rightarrow> ('w, MySqlStorageConnection option) S" where
  "MySqlStorage_connect my =
     mbind get_storage (\<lambda>st.
     case m_nDatabasePort st of
       None \<Rightarrow> throw Undefined_behaviour
     | Some nPort \<Rightarrow>
         mbind (on_snd (\<lambda>w. case mysql_real_connect my (m_sDatabaseHost st) (m_sDatabaseUser st)
                                    (m_sDatabasePass st) (m_sDatabaseName st) nPort w of
                               (r, w') \<Rightarrow> (Inr r, w')))
           (\<lambda>r. case r of
              Inl sError \<Rightarrow> ret None
            | Inr pDatabase \<Rightarrow> mbind (on_snd (MySqlStorageConnection_new my pDatabase)) (\<lambda>c. ret (Some c))))"

definition getConnection :: "'w mysql \<Rightarrow> ('w, MySqlStorageConnection option) S" where
  "getConnection my =
     mbind get_storage (\<lambda>st.
     case m_mapStorageConnections st (this_thread_id my) of
       None \<Rightarrow>
         mbind (MySqlStorage_connect my)
           (\<lambda>p. case p of
              None \<Rightarrow> ret None
            | Some c \<Rightarrow>
                mbind (put_storage (\<lambda>st. st\<lparr>m_mapStorageConnections :=
                         (m_mapStorageConnections st)(this_thread_id my \<mapsto> c)\<rparr>)) (\<lambda>_. ret (Some c)))
     | Some c0 \<Rightarrow>
         mbind (on_snd (getConnectionDurationInSeconds my c0))
           (\<lambda>nSeconds.
              if m_nConnectionOutdatedAfterSeconds st < nSeconds then
                mbind (put_storage (\<lambda>st. st\<lparr>m_vDoRemoveStorageConnections :=
                         m_vDoRemoveStorageConnections st @ [c0]\<rparr>)) (\<lambda>_.
                mbind (MySqlStorage_connect my)
                  (\<lambda>p. case p of
                     None \<Rightarrow> ret None
                   | Some c \<Rightarrow>
                       mbind (put_storage (\<lambda>st. st\<lparr>m_mapStorageConnections :=
                                (m_mapStorageConnections st)(this_thread_id my \<mapsto> c)\<rparr>)) (\<lambda>_. ret (Some c))))
              else ret (Some c0)))"

text \<open>\<open>pConn = getConnection(); pConn->method(...)\<close>.\<close>

definition with_connection ::
    "'w mysql \<Rightarrow> (MySqlStorageConnection \<Rightarrow> ('w, 'a) M) \<Rightarrow> ('w, 'a) S" where
  "with_connection my f =
     mbind (getConnection my) (\<lambda>p. mbind (deref p) (\<lambda>c. on_snd (f c)))"

section \<open>Start\<close>

definition MySqlStorage_upgrade :: "'w mysql \<Rightarrow> ('w, unit) S" where
  "MySqlStorage_upgrade my =
     mbind (with_connection my (MySqlStorageAllUpdates_upgrade my)) (\<lambda>_. ret ())"

definition MySqlStorage_loadCache :: "'w mysql \<Rightarrow> ('w, bool) S" where
  "MySqlStorage_loadCache my =
     mbind (getConnection my) (\<lambda>p.
     mbind (deref p) (\<lambda>c.
     mbind (on_snd (getApiVersionsAll my c)) (\<lambda>vs.
     mbind (put_storage (\<lambda>st. st\<lparr>m_vVersions := vs\<rparr>)) (\<lambda>_.
     mbind (on_snd (conn_getGroupsAll my c)) (\<lambda>gs.
     mbind (put_storage (\<lambda>st. st\<lparr>m_vGroups := gs\<rparr>)) (\<lambda>_.
     mbind get_storage (\<lambda>st.
     mbind (on_snd (getDefineFilesCache my c (m_mapCacheFileDefinsIds st))) (\<lambda>m.
     mbind (put_storage (\<lambda>st. st\<lparr>m_mapCacheFileDefinsIds := m\<rparr>)) (\<lambda>_.
     mbind get_storage (\<lambda>st.
     mbind (on_snd (loadFilesIds my c (m_cacheGroups st))) (\<lambda>fc.
     mbind (put_storage (\<lambda>st. st\<lparr>m_cacheGroups := fc\<rparr>)) (\<lambda>_.
       ret True))))))))))))"

section \<open>Versions and groups\<close>

definition getVersionsAll :: "('w, ModelVersion list) S" where
  "getVersionsAll = mbind get_storage (\<lambda>st. ret (m_vVersions st))"

definition getGroupsAll :: "('w, ModelGroup list) S" where
  "getGroupsAll = mbind get_storage (\<lambda>st. ret (m_vGroups st))"

text \<open>The last version with the identifier, or the default object.\<close>

definition getVersionInfo :: "int \<Rightarrow> ('w, ModelVersion) S" where
  "getVersionInfo nVersionId =
     mbind get_storage (\<lambda>st.
       ret (foldl (\<lambda>r v. if ver_nId v = nVersionId then v else r) ModelVersion_new (m_vVersions st)))"

definition findVersionOrCreate :: "'w mysql \<Rightarrow> string \<Rightarrow> ('w, ModelVersion) S" where
  "findVersionOrCreate my sVersion =
     mbind get_storage (\<lambda>st.
     case find (\<lambda>v. ver_sName v = sVersion) (m_vVersions st) of
       Some v \<Rightarrow> ret v
     | None \<Rightarrow>
         mbind (with_connection my (\<lambda>c. insertVersion my c sVersion)) (\<lambda>v.
         mbind (put_storage (\<lambda>st. st\<lparr>m_vVersions := m_vVersions st @ [v]\<rparr>)) (\<lambda>_. ret v)))"

definition findGroupOrCreate :: "'w mysql \<Rightarrow> string \<Rightarrow> ('w, ModelGroup) S" where
  "findGroupOrCreate my sGroup =
     mbind get_storage (\<lambda>st.
     case find (\<lambda>g. grp_sTitle g = sGroup) (m_vGroups st) of
       Some g \<Rightarrow> ret g
     | None \<Rightarrow>
         mbind (with_connection my (\<lambda>c. insertGroup my c sGroup)) (\<lambda>g.
         mbind (put_storage (\<lambda>st. st\<lparr>m_vGroups := m_vGroups st @ [g]\<rparr>)) (\<lambda>_. ret g)))"

section \<open>Files\<close>

definition findDefineFileIdOrCreate ::
    "'w mysql \<Rightarrow> string \<Rightarrow> string \<Rightarrow> int \<Rightarrow> ('w, int) S" where
  "findDefineFileIdOrCreate my sFilePath sFileName nDefineFileId =
     mbind get_storage (\<lambda>st.
     case m_mapCacheFileDefinsIds st sFilePath of
       Some n \<Rightarrow> ret n
     | None \<Rightarrow>
         mbind (with_connection my (\<lambda>c. insertDefineFile my c sFilePath sFileName nDefineFileId)) (\<lambda>n.
         mbind (put_storage (\<lambda>st. st\<lparr>m_mapCacheFileDefinsIds :=
                  (m_mapCacheFileDefinsIds st)(sFilePath \<mapsto> n)\<rparr>)) (\<lambda>_. ret n)))"

definition findFileOrCreate :: "'w mysql \<Rightarrow> int \<Rightarrow> int \<Rightarrow> int \<Rightarrow> int \<Rightarrow> ('w, int) S" where
  "findFileOrCreate my nVersionId nGroupId nDefineFileId nFileParentId =
     mbind (getConnection my) (\<lambda>p.
     mbind get_storage (\<lambda>st.
     let nFileId = ModelCacheFilesVersion_findFileId (m_cacheGroups st) nVersionId nGroupId nDefineFileId
     in if nFileId \<noteq> -1 then ret nFileId
        else
          mbind (deref p) (\<lambda>c.
          mbind (on_snd (insertFile my c nVersionId nGroupId nDefineFileId nFileParentId)) (\<lambda>n.
          mbind (put_storage (\<lambda>st. st\<lparr>m_cacheGroups :=
                   ModelCacheFilesVersion_add (m_cacheGroups st) nVersionId nGroupId nDefineFileId n\<rparr>)) (\<lambda>_.
            ret n)))))"

text \<open>One turn of the loop of \<open>addFile\<close>, with \<open>sNewFilePath\<close>, \<open>nDefineFileId\<close>, \<open>nFileParentId\<close>.\<close>

definition addFile_turn ::
    "'w mysql \<Rightarrow> int \<Rightarrow> int \<Rightarrow> string \<times> int \<times> int \<Rightarrow> string \<Rightarrow> ('w, string \<times> int \<times> int) S" where
  "addFile_turn my nVersionId nGroupId acc sName =
     (case acc of (sNewFilePath, nDefineFileId, nFileParentId) \<Rightarrow>
        if sName = '''' then ret acc
        else
          let sPath = sNewFilePath @ ''/'' @ sName
          in mbind (findDefineFileIdOrCreate my sPath sName nDefineFileId) (\<lambda>d.
             mbind (findFileOrCreate my nVersionId nGroupId d nFileParentId) (\<lambda>f.
               ret (sPath, d, f))))"

definition addFile ::
    "'w mysql \<Rightarrow> int \<Rightarrow> int \<Rightarrow> string \<Rightarrow> int \<Rightarrow> int \<Rightarrow> string \<Rightarrow> bool \<Rightarrow> string \<Rightarrow> ('w, unit) S" where
  "addFile my nVersionId nGroupId sFilePath nFileSize nCompressSize sMode bIsDir sDateTime =
     (if sFilePath = '''' \<or> sFilePath = ''/'' then ret ()
      else
        case WsjcppCore_split (WsjcppCore_doNormalizePath sFilePath) ''/'' of
          None \<Rightarrow> throw Does_not_return
        | Some vPath \<Rightarrow>
            mbind (for_fold vPath ('''', 0, 0) (addFile_turn my nVersionId nGroupId)) (\<lambda>_. ret ()))"

definition getGroups :: "'w mysql \<Rightarrow> int \<Rightarrow> ('w, ModelGroupForVersion list) S" where
  "getGroups my nVersionId = with_connection my (\<lambda>c. conn_getGroups my c nVersionId)"

definition getFiles :: "'w mysql \<Rightarrow> int \<Rightarrow> int \<Rightarrow> int \<Rightarrow> ('w, ModelFile list) S" where
  "getFiles my nVersionId nGroupId nParentId =
     with_connection my (\<lambda>c. conn_getFiles my c nVersionId nGroupId nParentId)"

section \<open>Differences and comments\<close>

text \<open>\<open>it->second.hasFileId(nFileId)\<close> for the group stored under a key.\<close>

definition group_has_file :: "ModelDiffGroups \<Rightarrow> int \<Rightarrow> int \<Rightarrow> bool" where
  "group_has_file diffGroups k nFileId =
     (case map_of (m_mapGroups diffGroups) k of
        None \<Rightarrow> False | Some g \<Rightarrow> ModelDiffGroup_hasFileId nFileId g)"

text \<open>The inner loop of the parent search: a stack of file identifiers, taken from its back.\<close>

partial_function (option) parents_loop ::
    "'w mysql \<Rightarrow> MySqlStorageConnection \<Rightarrow> ModelGroup \<Rightarrow> int \<Rightarrow> int list \<Rightarrow> ModelDiffGroups \<Rightarrow> 'w \<Rightarrow>
       ((cpp_error + ModelDiffGroups) \<times> 'w) option" where
  "parents_loop my c gr k vIds diffGroups w =
     (if vIds = [] then Some (Inr diffGroups, w)
      else if last vIds = 0 \<or> group_has_file diffGroups k (last vIds)
      then parents_loop my c gr k (butlast vIds) diffGroups w
      else
        case findAndAddFile my c gr (last vIds) (diffGroups, butlast vIds) w of
          (Inl e, w') \<Rightarrow> Some (Inl e, w')
        | (Inr acc, w') \<Rightarrow> parents_loop my c gr k (snd acc) (fst acc) w')"

declare parents_loop.simps [code]

text \<open>
  The search for one group of the map. The outer loop visits the keys in ascending order; the
  files it adds go to groups that are already there, so the keys do not change while it runs.
\<close>

definition search_parents ::
    "'w mysql \<Rightarrow> MySqlStorageConnection \<Rightarrow> ModelDiffGroups \<Rightarrow> int \<Rightarrow> ('w, ModelDiffGroups) M" where
  "search_parents my c diffGroups k =
     (case map_of (m_mapGroups diffGroups) k of
        None \<Rightarrow> ret diffGroups
      | Some g \<Rightarrow>
          (\<lambda>w. case parents_loop my c (m_group g) k (m_vParentFilesIds g) diffGroups w of
                 None \<Rightarrow> (Inl Does_not_return, w)
               | Some r \<Rightarrow> r))"

definition load_comments ::
    "'w mysql \<Rightarrow> MySqlStorageConnection \<Rightarrow> ModelDiffGroups \<Rightarrow> int \<Rightarrow> ('w, ModelDiffGroups) M" where
  "load_comments my c diffGroups nDefineFileId =
     mbind (getComments my c nDefineFileId)
       (\<lambda>cs. ret (ModelDiffGroups_setComments nDefineFileId cs diffGroups))"

definition diff_on_connection ::
    "'w mysql \<Rightarrow> int \<Rightarrow> int \<Rightarrow> ModelDiffGroups \<Rightarrow> MySqlStorageConnection \<Rightarrow> ('w, ModelDiffGroups) M" where
  "diff_on_connection my nLeftVersionId nRightVersionId diffGroups c =
     mbind (getDiffFiles my c nLeftVersionId nRightVersionId ''missing'' diffGroups) (\<lambda>gs1.
     mbind (getDiffFiles my c nRightVersionId nLeftVersionId ''new'' gs1) (\<lambda>gs2.
     mbind (for_fold (map fst (m_mapGroups gs2)) gs2 (search_parents my c)) (\<lambda>gs3.
       for_fold (m_vFileDefineIds gs3) gs3 (load_comments my c))))"

definition getDiff :: "'w mysql \<Rightarrow> int \<Rightarrow> int \<Rightarrow> ModelDiffGroups \<Rightarrow> ('w, ModelDiffGroups) S" where
  "getDiff my nLeftVersionId nRightVersionId diffGroups =
     with_connection my (diff_on_connection my nLeftVersionId nRightVersionId diffGroups)"

definition addComment :: "'w mysql \<Rightarrow> int \<Rightarrow> string \<Rightarrow> ('w, ModelComment) S" where
  "addComment my nDefineFileId sComment =
     with_connection my (\<lambda>c. conn_addComment my c nDefineFileId sComment)"

definition hideComment :: "'w mysql \<Rightarrow> int \<Rightarrow> ('w, unit) S" where
  "hideComment my nCommentId = with_connection my (\<lambda>c. conn_hideComment my c nCommentId)"

end
