(* ===== verification/Libhv_Router.thy ===== *)
theory Libhv_Router
  imports Prelude
begin

text \<open>
  The routing of requests in the HTTP library (\<open>src-libhv/http/server/HttpService.cpp\<close>, class
  \<open>HttpService\<close>): \<open>AddApi\<close> fills the table of paths and methods, \<open>GetApi\<close> finds the handler of a
  request, with wildcard and RESTful keys. The table is a \<open>std::unordered_map\<close>; the order in which
  it is walked is not specified, so the model keeps it as a list and the theorems about plain keys
  do not depend on the order.
\<close>

section \<open>The table\<close>

datatype http_method = HTTP_GET | HTTP_POST | HTTP_HEAD | HTTP_OTHER string

type_synonym 'h http_method_handlers = "(http_method \<times> 'h) list"

record 'h HttpService =
  base_url :: string
  document_root :: string
  api_handlers :: "(string \<times> 'h http_method_handlers) list"

definition HttpService_new :: "'h HttpService" where
  "HttpService_new = \<lparr>base_url = '''', document_root = '''', api_handlers = []\<rparr>"

text \<open>The handler of a method is replaced where the method is known, appended otherwise.\<close>

fun set_method :: "http_method \<Rightarrow> 'h \<Rightarrow> 'h http_method_handlers \<Rightarrow> 'h http_method_handlers" where
  "set_method m h [] = [(m, h)]"
| "set_method m h ((m', h') # hs) = (if m' = m then (m', h) # hs else (m', h') # set_method m h hs)"

fun set_path :: "string \<Rightarrow> http_method \<Rightarrow> 'h \<Rightarrow> (string \<times> 'h http_method_handlers) list \<Rightarrow>
    (string \<times> 'h http_method_handlers) list" where
  "set_path p m h [] = [(p, [(m, h)])]"
| "set_path p m h ((p', hs) # ps) = (if p' = p then (p', set_method m h hs) # ps else (p', hs) # set_path p m h ps)"

definition AddApi :: "string \<Rightarrow> http_method \<Rightarrow> 'h \<Rightarrow> 'h HttpService \<Rightarrow> 'h HttpService" where
  "AddApi p m h svc = svc\<lparr>api_handlers := set_path p m h (api_handlers svc)\<rparr>"

definition Paths :: "'h HttpService \<Rightarrow> string list" where
  "Paths svc = map fst (api_handlers svc)"

section \<open>Looking a request up\<close>

definition HTTP_STATUS_NOT_FOUND :: int where "HTTP_STATUS_NOT_FOUND = 404"

definition HTTP_STATUS_METHOD_NOT_ALLOWED :: int where "HTTP_STATUS_METHOD_NOT_ALLOWED = 405"

text \<open>The part of the path after the base URL, up to a question mark; \<open>None\<close> when the base differs.\<close>

fun after_base :: "string \<Rightarrow> string \<Rightarrow> string option" where
  "after_base s [] = Some s"
| "after_base [] (b # bs) = None"
| "after_base (c # s) (b # bs) = (if c = b then after_base s bs else None)"

definition api_path :: "'h HttpService \<Rightarrow> string \<Rightarrow> string option" where
  "api_path svc url = map_option (takeWhile (\<lambda>c. c \<noteq> CHR ''?'')) (after_base (c_str url) (base_url svc))"

text \<open>\<open>GetApi(url, method, handler)\<close>: the key is the path itself.\<close>

definition GetApi_url :: "'h HttpService \<Rightarrow> string \<Rightarrow> http_method \<Rightarrow> int \<times> 'h option" where
  "GetApi_url svc url m =
     (case api_path svc url of
        None \<Rightarrow> (HTTP_STATUS_NOT_FOUND, None)
      | Some path \<Rightarrow>
          (case map_of (api_handlers svc) path of
             None \<Rightarrow> (HTTP_STATUS_NOT_FOUND, None)
           | Some hs \<Rightarrow>
               (case map_of hs m of
                  None \<Rightarrow> (HTTP_STATUS_METHOD_NOT_ALLOWED, None)
                | Some h \<Rightarrow> (0, Some h))))"

definition strendswith :: "string \<Rightarrow> string \<Rightarrow> bool" where
  "strendswith s t \<longleftrightarrow> length t \<le> length s \<and> drop (length s - length t) s = t"

text \<open>
  The two pointers that walk along a key and the path: the outcome \<open>match\<close>, what is left of both,
  and the fields read so far.
\<close>

function match_loop ::
    "string \<Rightarrow> string \<Rightarrow> (string \<times> string) list \<Rightarrow> bool \<times> string \<times> string \<times> (string \<times> string) list" where
  "match_loop kp vp params =
     (if kp = [] \<or> vp = [] then (False, kp, vp, params)
      else if hd kp = CHR ''*'' then (strendswith vp (tl kp), kp, vp, params)
      else if hd kp \<noteq> hd vp then (False, kp, vp, params)
      else if hd kp = CHR ''/'' \<and> tl kp \<noteq> [] \<and> (hd (tl kp) = CHR '':'' \<or> hd (tl kp) = CHR 0x7B) then
        (let ks = drop 2 kp;
             key = takeWhile (\<lambda>c. c \<noteq> CHR ''/'') ks;
             field = (if hd (tl kp) = CHR 0x7B \<and> key \<noteq> [] \<and> last key = CHR 0x7D then butlast key else key);
             val = takeWhile (\<lambda>c. c \<noteq> CHR ''/'') (tl vp)
         in match_loop (dropWhile (\<lambda>c. c \<noteq> CHR ''/'') ks) (dropWhile (\<lambda>c. c \<noteq> CHR ''/'') (tl vp))
              (smap_put field val params))
      else match_loop (tl kp) (tl vp) params)"
  by pat_completeness auto
termination
proof (relation "measure (\<lambda>(kp, vp, params). length kp)")
  fix kp vp :: string and params :: "(string \<times> string) list" and ks key field val :: string
  assume "\<not> (kp = [] \<or> vp = [])" and ks: "ks = drop 2 kp"
  then have "length ks < length kp" by (cases kp) auto
  moreover have "length (dropWhile (\<lambda>c. c \<noteq> CHR ''/'') ks) \<le> length ks" by (rule length_dropWhile_le)
  ultimately show "((dropWhile (\<lambda>c. c \<noteq> CHR ''/'') ks, dropWhile (\<lambda>c. c \<noteq> CHR ''/'') (tl vp),
      smap_put field val params), (kp, vp, params)) \<in> measure (\<lambda>(kp, vp, params). length kp)" by simp
qed auto

declare match_loop.simps [simp del]

definition match_key :: "string \<Rightarrow> string \<Rightarrow> (string \<times> string) list option" where
  "match_key key path =
     (case match_loop key path [] of
        (matched, kp, vp, params) \<Rightarrow> if matched \<or> kp = [] \<and> vp = [] then Some params else None)"

text \<open>
  \<open>GetApi(req, handler)\<close>: the keys are tried in the order of the table. A key that matches without
  fields but has no handler for the method ends the search with 405; one with fields does not.
\<close>

fun find_api ::
    "(string \<times> 'h http_method_handlers) list \<Rightarrow> string \<Rightarrow> http_method \<Rightarrow> int \<times> 'h option \<times> (string \<times> string) list" where
  "find_api [] path m = (HTTP_STATUS_NOT_FOUND, None, [])"
| "find_api ((key, hs) # ps) path m =
     (case match_key key path of
        None \<Rightarrow> find_api ps path m
      | Some params \<Rightarrow>
          (case map_of hs m of
             Some h \<Rightarrow> (0, Some h, params)
           | None \<Rightarrow> if params = [] then (HTTP_STATUS_METHOD_NOT_ALLOWED, None, []) else find_api ps path m))"

definition GetApi ::
    "'h HttpService \<Rightarrow> string \<Rightarrow> http_method \<Rightarrow> int \<times> 'h option \<times> (string \<times> string) list" where
  "GetApi svc req_path m =
     (case api_path svc req_path of
        None \<Rightarrow> (HTTP_STATUS_NOT_FOUND, None, [])
      | Some path \<Rightarrow> find_api (api_handlers svc) path m)"

section \<open>Adding handlers\<close>

lemma map_of_set_method: "map_of (set_method m h hs) = (map_of hs)(m \<mapsto> h)"
  by (induction m h hs rule: set_method.induct) (auto simp: fun_eq_iff)

lemma map_of_set_path:
  "map_of (set_path p m h ps) p' =
     (if p' = p then Some (case map_of ps p of None \<Rightarrow> [(m, h)] | Some hs \<Rightarrow> set_method m h hs) else map_of ps p')"
  by (induction p m h ps rule: set_path.induct) auto

lemma keys_set_path: "fst ` set (set_path p m h ps) = insert p (fst ` set ps)"
  by (induction p m h ps rule: set_path.induct) auto

lemma distinct_set_path: "distinct (map fst ps) \<Longrightarrow> distinct (map fst (set_path p m h ps))"
proof (induction p m h ps rule: set_path.induct)
  case (2 p m h p' hs ps)
  then show ?case using keys_set_path [of p m h ps] by (auto simp: image_iff)
qed simp

text \<open>The handler registered for a path and method.\<close>

definition registered :: "'h HttpService \<Rightarrow> string \<Rightarrow> http_method \<Rightarrow> 'h option" where
  "registered svc p m = (case map_of (api_handlers svc) p of None \<Rightarrow> None | Some hs \<Rightarrow> map_of hs m)"

lemma registered_AddApi:
  "registered (AddApi p m h svc) p' m' = (if p' = p \<and> m' = m then Some h else registered svc p' m')"
  by (auto simp: registered_def AddApi_def map_of_set_path map_of_set_method split: option.splits)

section \<open>Plain keys\<close>

text \<open>A key without a wildcard and without a field.\<close>

fun plain_key :: "string \<Rightarrow> bool" where
  "plain_key [] \<longleftrightarrow> True"
| "plain_key (c # cs) \<longleftrightarrow> c \<noteq> CHR ''*'' \<and>
     \<not> (c = CHR ''/'' \<and> cs \<noteq> [] \<and> (hd cs = CHR '':'' \<or> hd cs = CHR 0x7B)) \<and> plain_key cs"

lemma match_loop_plain:
  "plain_key kp \<Longrightarrow> \<exists>k v. match_loop kp vp params = (False, k, v, params) \<and> (k = [] \<and> v = [] \<longleftrightarrow> kp = vp)"
proof (induction kp arbitrary: vp)
  case Nil
  then show ?case by (subst match_loop.simps) auto
next
  case (Cons c cs)
  show ?case
  proof (cases vp)
    case Nil
    then show ?thesis by (subst match_loop.simps) auto
  next
    case (Cons d ds)
    with Cons.IH [of ds] Cons.prems show ?thesis by (subst match_loop.simps) auto
  qed
qed

lemma match_key_plain: "plain_key key \<Longrightarrow> match_key key path = (if key = path then Some [] else None)"
  using match_loop_plain [of key path "[]"] by (auto simp: match_key_def)

lemma find_api_plain:
  assumes "\<forall>(key, hs) \<in> set ps. plain_key key" "distinct (map fst ps)"
  shows "find_api ps path m =
     (case map_of ps path of
        None \<Rightarrow> (HTTP_STATUS_NOT_FOUND, None, [])
      | Some hs \<Rightarrow> (case map_of hs m of None \<Rightarrow> (HTTP_STATUS_METHOD_NOT_ALLOWED, None, []) | Some h \<Rightarrow> (0, Some h, [])))"
  using assms
  by (induction ps path m rule: find_api.induct)
     (auto simp: match_key_plain image_iff split: option.splits)

text \<open>
  C24: with keys that hold no wildcard and no field, as the ones this program registers, the lookup
  by key and the walk over the table give the same status and handler, whatever the order of the
  table: the handler registered for exactly that path and method, 405 when the path is known for
  other methods only, 404 otherwise; and the request gets no extra parameters.
\<close>

theorem GetApi_plain:
  assumes "\<forall>(key, hs) \<in> set (api_handlers svc). plain_key key" "distinct (map fst (api_handlers svc))"
  shows "GetApi svc p m = (fst (GetApi_url svc p m), snd (GetApi_url svc p m), [])"
  by (auto simp: GetApi_def GetApi_url_def find_api_plain [OF assms] split: option.splits)

theorem GetApi_plain_witness:
  "GetApi (AddApi ''/api/add/'' HTTP_POST (1::nat) HttpService_new) ''/api/add/?x'' HTTP_GET = (405, None, [])"
  using GetApi_plain [of "AddApi ''/api/add/'' HTTP_POST (1::nat) HttpService_new" "''/api/add/?x''" HTTP_GET]
  by (simp add: AddApi_def HttpService_new_def GetApi_url_def api_path_def c_str_def
      HTTP_STATUS_METHOD_NOT_ALLOWED_def)

end
