(* ===== verification/Http_Server.thy ===== *)
theory Http_Server
  imports Mysql_Storage Libhv_Router
begin

text \<open>
  \<open>WebdiffHttpServer\<close> (\<open>src/server/webdiff_http_server.cpp\<close>): the routes the constructor registers
  and every handler, from the request to the status and the JSON of the response.

  The text of a body is turned into a JSON value by \<open>nlohmann::json::parse\<close>; it enters as the
  parameter \<open>parse\<close> (\<open>None\<close> for a text that does not parse). \<open>HttpMessage::ParseBody\<close> swallows the
  parse error and leaves the JSON of the request as it was.

  A handler that throws is not caught anywhere in the library: the outcome \<open>Inl\<close> of a handler is
  the end of the process.
\<close>

section \<open>Requests and responses\<close>

datatype http_content_type = CONTENT_TYPE_NONE | APPLICATION_JSON | TEXT_PLAIN | TEXT_HTML | OTHER_CONTENT_TYPE

record HttpRequest =
  req_method :: http_method
  req_path :: string
  req_url :: string
  req_content_type :: http_content_type
  req_body :: string
  req_json :: json
  req_client_ip :: string
  req_query_params :: "(string \<times> string) list"
  req_headers :: "(string \<times> string) list"

record HttpResponse =
  resp_content_type :: http_content_type
  resp_json :: json

definition HttpResponse_new :: HttpResponse where
  "HttpResponse_new = \<lparr>resp_content_type = CONTENT_TYPE_NONE, resp_json = JNull\<rparr>"

text \<open>\<open>HttpMessage::ParseBody\<close> of a request whose content type is JSON.\<close>

definition ParseBody :: "(string \<Rightarrow> json option) \<Rightarrow> HttpRequest \<Rightarrow> HttpRequest" where
  "ParseBody parse req =
     (if req_body req = '''' then req
      else case parse (c_str (req_body req)) of None \<Rightarrow> req | Some j \<Rightarrow> req\<lparr>req_json := j\<rparr>)"

text \<open>
  \<open>resp->Set(key, value)\<close> writes into the JSON only when the response is JSON; for a response
  without a content type it does nothing.
\<close>

definition HttpMessage_Set :: "string \<Rightarrow> json \<Rightarrow> HttpResponse \<Rightarrow> cpp_error + HttpResponse" where
  "HttpMessage_Set k v resp =
     (if resp_content_type resp = APPLICATION_JSON
      then map_sum id (\<lambda>j. resp\<lparr>resp_json := j\<rparr>) (json_set k v (resp_json resp)) else Inr resp)"

definition HTTP_STATUS_BAD_REQUEST :: int where "HTTP_STATUS_BAD_REQUEST = 400"

definition http_status_map :: "(int \<times> string) list" where
  "http_status_map =
     [(100, ''Continue''), (101, ''Switching Protocols''), (102, ''Processing''),
      (200, ''OK''), (201, ''Created''), (202, ''Accepted''),
      (203, ''Non-Authoritative Information''), (204, ''No Content''), (205, ''Reset Content''),
      (206, ''Partial Content''), (207, ''Multi-Status''), (208, ''Already Reported''),
      (226, ''IM Used''), (300, ''Multiple Choices''), (301, ''Moved Permanently''),
      (302, ''Found''), (303, ''See Other''), (304, ''Not Modified''),
      (305, ''Use Proxy''), (307, ''Temporary Redirect''), (308, ''Permanent Redirect''),
      (400, ''Bad Request''), (401, ''Unauthorized''), (402, ''Payment Required''),
      (403, ''Forbidden''), (404, ''Not Found''), (405, ''Method Not Allowed''),
      (406, ''Not Acceptable''), (407, ''Proxy Authentication Required''), (408, ''Request Timeout''),
      (409, ''Conflict''), (410, ''Gone''), (411, ''Length Required''),
      (412, ''Precondition Failed''), (413, ''Payload Too Large''), (414, ''URI Too Long''),
      (415, ''Unsupported Media Type''), (416, ''Range Not Satisfiable''), (417, ''Expectation Failed''),
      (421, ''Misdirected Request''), (422, ''Unprocessable Entity''), (423, ''Locked''),
      (424, ''Failed Dependency''), (426, ''Upgrade Required''), (428, ''Precondition Required''),
      (429, ''Too Many Requests''), (431, ''Request Header Fields Too Large''), (451, ''Unavailable For Legal Reasons''),
      (500, ''Internal Server Error''), (501, ''Not Implemented''), (502, ''Bad Gateway''),
      (503, ''Service Unavailable''), (504, ''Gateway Timeout''), (505, ''HTTP Version Not Supported''),
      (506, ''Variant Also Negotiates''), (507, ''Insufficient Storage''), (508, ''Loop Detected''),
      (510, ''Not Extended''), (511, ''Network Authentication Required'')]"

definition http_status_str :: "int \<Rightarrow> string" where
  "http_status_str code = (case map_of http_status_map code of None \<Rightarrow> ''<unknown>'' | Some s \<Rightarrow> s)"

definition response_status :: "HttpResponse \<Rightarrow> int \<Rightarrow> ('s, int \<times> HttpResponse) M" where
  "response_status resp code =
     mbind (lift_sum (HttpMessage_Set ''code'' (JInteger code) resp)) (\<lambda>resp1.
     mbind (lift_sum (HttpMessage_Set ''message'' (JString (http_status_str code)) resp1)) (\<lambda>resp2.
       ret (code, resp2)))"

definition bad_request :: "HttpResponse \<Rightarrow> ('s, int \<times> HttpResponse) M" where
  "bad_request resp = response_status resp HTTP_STATUS_BAD_REQUEST"

text \<open>
  \<open>resp->json[key] = value\<close>, in sequence, on the fresh response of a request, and the return of
  200.
\<close>

definition set_all :: "(string \<times> json) list \<Rightarrow> HttpResponse \<Rightarrow> ('s, HttpResponse) M" where
  "set_all kvs resp =
     for_fold kvs resp (\<lambda>resp (k, v).
       mbind (lift_sum (json_set k v (resp_json resp))) (\<lambda>j. ret (resp\<lparr>resp_json := j\<rparr>)))"

definition respond :: "HttpResponse \<Rightarrow> (string \<times> json) list \<Rightarrow> ('s, int \<times> HttpResponse) M" where
  "respond resp kvs =
     mbind (set_all kvs (resp\<lparr>resp_content_type := APPLICATION_JSON\<rparr>)) (\<lambda>resp'. ret (200, resp'))"

text \<open>A field of the request, converted.\<close>

definition field :: "(json \<Rightarrow> cpp_error + 'a) \<Rightarrow> json \<Rightarrow> string \<Rightarrow> ('s, 'a) M" where
  "field conv j k = lift_sum (json_field conv j k)"

section \<open>Handlers\<close>

text \<open>One turn of the loop over the files of an upload.\<close>

definition add_json_file :: "'w mysql \<Rightarrow> ModelVersion \<Rightarrow> ModelGroup \<Rightarrow> json \<Rightarrow> nat \<Rightarrow> ('w, unit) S" where
  "add_json_file my ver gr jsonFiles i =
     mbind (lift_sum (json_at jsonFiles i)) (\<lambda>jsonFile.
     mbind (field json_get_string jsonFile ''path'') (\<lambda>sFilePath.
     mbind (field json_get_int jsonFile ''size'') (\<lambda>nFileSize.
     mbind (field json_get_int jsonFile ''compress_size'') (\<lambda>nCompressSize.
     mbind (field json_get_string jsonFile ''mode'') (\<lambda>sMode.
     mbind (field json_get_bool jsonFile ''is_dir'') (\<lambda>bIsDir.
     mbind (field json_get_string jsonFile ''dt'') (\<lambda>sDateTime.
       addFile my (ver_nId ver) (grp_nId gr) sFilePath nFileSize nCompressSize sMode bIsDir sDateTime)))))))"

definition httpApiAdd ::
    "'w mysql \<Rightarrow> (string \<Rightarrow> json option) \<Rightarrow> HttpRequest \<Rightarrow> HttpResponse \<Rightarrow> ('w, int \<times> HttpResponse) S" where
  "httpApiAdd my parse req0 resp =
     (if req_content_type req0 \<noteq> APPLICATION_JSON then bad_request resp
      else
        let j = req_json (ParseBody parse req0) in
        mbind (field json_get_string j ''version'') (\<lambda>sVersion.
        mbind (field json_get_string j ''group'') (\<lambda>sGroup.
        mbind (field Inr j ''files'') (\<lambda>jsonFiles.
        mbind (findVersionOrCreate my sVersion) (\<lambda>ver.
        mbind (findGroupOrCreate my sGroup) (\<lambda>gr.
        mbind (for_each [0..<json_size jsonFiles] (add_json_file my ver gr jsonFiles)) (\<lambda>_.
          respond resp [(''jsonrpc'', JString ''2.0''), (''version'', ModelVersion_toJson ver),
                        (''group'', ModelGroup_toJson gr), (''url'', JString (req_url req0))])))))))"

definition httpApiCommentAdd ::
    "'w mysql \<Rightarrow> (string \<Rightarrow> json option) \<Rightarrow> HttpRequest \<Rightarrow> HttpResponse \<Rightarrow> ('w, int \<times> HttpResponse) S" where
  "httpApiCommentAdd my parse req0 resp =
     (if req_content_type req0 \<noteq> APPLICATION_JSON then bad_request resp
      else
        let j = req_json (ParseBody parse req0) in
        mbind (field json_get_int j ''define_file_id'') (\<lambda>nDefineFileId.
        mbind (field json_get_string j ''comment'') (\<lambda>sComment.
        mbind (addComment my nDefineFileId sComment) (\<lambda>comment.
          respond resp [(''jsonrpc'', JString ''2.0''), (''result'', ModelComment_toJson comment),
                        (''url'', JString (req_url req0))]))))"

definition httpApiCommentHide ::
    "'w mysql \<Rightarrow> (string \<Rightarrow> json option) \<Rightarrow> HttpRequest \<Rightarrow> HttpResponse \<Rightarrow> ('w, int \<times> HttpResponse) S" where
  "httpApiCommentHide my parse req0 resp =
     (if req_content_type req0 \<noteq> APPLICATION_JSON then bad_request resp
      else
        let j = req_json (ParseBody parse req0) in
        mbind (field json_get_int j ''comment_id'') (\<lambda>nCommentId.
        mbind (hideComment my nCommentId) (\<lambda>_.
          respond resp [(''jsonrpc'', JString ''2.0''), (''result'', JBoolean True),
                        (''url'', JString (req_url req0))])))"

text \<open>\<open>resp->json["result"]["left_version"] = ...\<close> on the JSON of the groups.\<close>

definition diff_result :: "ModelDiffGroups \<Rightarrow> ModelVersion \<Rightarrow> ModelVersion \<Rightarrow> cpp_error + json" where
  "diff_result groups left right =
     bind_sum (json_set ''left_version'' (ModelVersion_toJson left) (ModelDiffGroups_toJson groups)) (\<lambda>j.
       json_set ''right_version'' (ModelVersion_toJson right) j)"

definition httpApiDiff ::
    "'w mysql \<Rightarrow> (string \<Rightarrow> json option) \<Rightarrow> HttpRequest \<Rightarrow> HttpResponse \<Rightarrow> ('w, int \<times> HttpResponse) S" where
  "httpApiDiff my parse req0 resp =
     (if req_content_type req0 \<noteq> APPLICATION_JSON then bad_request resp
      else
        let j = req_json (ParseBody parse req0) in
        mbind (field json_get_int j ''left_version_id'') (\<lambda>nLeftVersionId.
        mbind (field json_get_int j ''right_version_id'') (\<lambda>nRightVersionId.
        mbind (getDiff my nLeftVersionId nRightVersionId ModelDiffGroups_new) (\<lambda>groups.
        mbind (getVersionInfo nLeftVersionId) (\<lambda>left.
        mbind (getVersionInfo nRightVersionId) (\<lambda>right.
        mbind (lift_sum (diff_result groups left right)) (\<lambda>result.
          respond resp [(''jsonrpc'', JString ''2.0''), (''result'', result),
                        (''url'', JString (req_url req0))])))))))"

text \<open>\<open>resp->json["result"]["list"] = array\<close>.\<close>

definition listing :: "json list \<Rightarrow> json" where
  "listing xs = json_build [(''list'', JArray xs)]"

definition httpApiFiles ::
    "'w mysql \<Rightarrow> (string \<Rightarrow> json option) \<Rightarrow> HttpRequest \<Rightarrow> HttpResponse \<Rightarrow> ('w, int \<times> HttpResponse) S" where
  "httpApiFiles my parse req0 resp =
     (if req_content_type req0 \<noteq> APPLICATION_JSON then bad_request resp
      else
        let j = req_json (ParseBody parse req0) in
        mbind (field json_get_int j ''version_id'') (\<lambda>nVersionId.
        mbind (field json_get_int j ''group_id'') (\<lambda>nGroupId.
        mbind (field json_get_int j ''parent_id'') (\<lambda>nParentId.
        mbind (getFiles my nVersionId nGroupId nParentId) (\<lambda>vFiles.
          respond resp [(''jsonrpc'', JString ''2.0''), (''result'', listing (map ModelFile_toJson vFiles)),
                        (''url'', JString (req_url req0))])))))"

definition httpApiGroups ::
    "'w mysql \<Rightarrow> (string \<Rightarrow> json option) \<Rightarrow> HttpRequest \<Rightarrow> HttpResponse \<Rightarrow> ('w, int \<times> HttpResponse) S" where
  "httpApiGroups my parse req0 resp =
     (if req_content_type req0 \<noteq> APPLICATION_JSON then bad_request resp
      else
        let j = req_json (ParseBody parse req0) in
        mbind (field json_get_int j ''version_id'') (\<lambda>nVersionId.
        mbind (getGroups my nVersionId) (\<lambda>vGroups.
          respond resp [(''jsonrpc'', JString ''2.0''), (''result'', listing (map ModelGroupForVersion_toJson vGroups)),
                        (''url'', JString (req_url req0))])))"

definition httpApiGroupsAll ::
    "'w mysql \<Rightarrow> (string \<Rightarrow> json option) \<Rightarrow> HttpRequest \<Rightarrow> HttpResponse \<Rightarrow> ('w, int \<times> HttpResponse) S" where
  "httpApiGroupsAll my parse req0 resp =
     (if req_content_type req0 \<noteq> APPLICATION_JSON then bad_request resp
      else
        mbind getGroupsAll (\<lambda>vGroups.
          respond resp [(''jsonrpc'', JString ''2.0''), (''result'', listing (map ModelGroup_toJson vGroups))]))"

definition httpApiVersionsAll ::
    "'w mysql \<Rightarrow> (string \<Rightarrow> json option) \<Rightarrow> HttpRequest \<Rightarrow> HttpResponse \<Rightarrow> ('w, int \<times> HttpResponse) S" where
  "httpApiVersionsAll my parse req0 resp =
     (if req_content_type req0 \<noteq> APPLICATION_JSON then bad_request resp
      else
        mbind getVersionsAll (\<lambda>vVersions.
          respond resp [(''jsonrpc'', JString ''2.0''), (''result'', listing (map ModelVersion_toJson vVersions))]))"

text \<open>\<open>resp->Json(m_httpService->Paths())\<close>, and the handler of \<open>/get\<close>.\<close>

definition httpApiV1GetPaths :: "string list \<Rightarrow> HttpResponse \<Rightarrow> ('s, int \<times> HttpResponse) M" where
  "httpApiV1GetPaths paths resp =
     ret (200, resp\<lparr>resp_content_type := APPLICATION_JSON, resp_json := JArray (map JString paths)\<rparr>)"

definition json_strings :: "(string \<times> string) list \<Rightarrow> json" where
  "json_strings kvs = JObject (map (\<lambda>(k, v). (k, JString v)) kvs)"

definition http_get :: "HttpRequest \<Rightarrow> HttpResponse \<Rightarrow> ('s, int \<times> HttpResponse) M" where
  "http_get req resp =
     mbind (set_all [(''origin'', JString (req_client_ip req)), (''url'', JString (req_url req)),
                     (''args'', json_strings (req_query_params req)), (''headers'', json_strings (req_headers req))] resp)
       (\<lambda>resp'. ret (200, resp'))"

section \<open>Routes\<close>

datatype api_handler =
    Api_paths | Api_add | Api_comment_add | Api_comment_hide | Api_diff | Api_files | Api_groups
  | Api_groups_all | Api_versions_all | Api_get

definition WebdiffHttpServer_new :: "api_handler HttpService" where
  "WebdiffHttpServer_new =
     AddApi ''/get'' HTTP_GET Api_get (
     AddApi ''/api/versions-all/'' HTTP_POST Api_versions_all (
     AddApi ''/api/groups-all/'' HTTP_POST Api_groups_all (
     AddApi ''/api/groups/'' HTTP_POST Api_groups (
     AddApi ''/api/files/'' HTTP_POST Api_files (
     AddApi ''/api/diff/'' HTTP_POST Api_diff (
     AddApi ''/api/comment-hide/'' HTTP_POST Api_comment_hide (
     AddApi ''/api/comment-add/'' HTTP_POST Api_comment_add (
     AddApi ''/api/add/'' HTTP_POST Api_add (
     AddApi ''/api/v1/'' HTTP_GET Api_paths (
     AddApi ''/api/'' HTTP_GET Api_paths (HttpService_new\<lparr>document_root := ''./html''\<rparr>)))))))))))"

definition run_handler ::
    "'w mysql \<Rightarrow> (string \<Rightarrow> json option) \<Rightarrow> string list \<Rightarrow> api_handler \<Rightarrow> HttpRequest \<Rightarrow> HttpResponse \<Rightarrow>
       ('w, int \<times> HttpResponse) S" where
  "run_handler my parse paths h req resp =
     (case h of
        Api_paths \<Rightarrow> httpApiV1GetPaths paths resp
      | Api_add \<Rightarrow> httpApiAdd my parse req resp
      | Api_comment_add \<Rightarrow> httpApiCommentAdd my parse req resp
      | Api_comment_hide \<Rightarrow> httpApiCommentHide my parse req resp
      | Api_diff \<Rightarrow> httpApiDiff my parse req resp
      | Api_files \<Rightarrow> httpApiFiles my parse req resp
      | Api_groups \<Rightarrow> httpApiGroups my parse req resp
      | Api_groups_all \<Rightarrow> httpApiGroupsAll my parse req resp
      | Api_versions_all \<Rightarrow> httpApiVersionsAll my parse req resp
      | Api_get \<Rightarrow> http_get req resp)"

text \<open>
  \<open>HttpHandler::defaultRequestHandler\<close>. Static files are the parameter \<open>static\<close>: the status the file
  server answers for a path.
\<close>

definition HTTP_STATUS_NOT_IMPLEMENTED :: int where "HTTP_STATUS_NOT_IMPLEMENTED = 501"

definition defaultRequestHandler ::
    "'w mysql \<Rightarrow> (string \<Rightarrow> json option) \<Rightarrow> (string \<Rightarrow> int) \<Rightarrow> api_handler HttpService \<Rightarrow> HttpRequest \<Rightarrow>
       ('w, int \<times> HttpResponse) S" where
  "defaultRequestHandler my parse static svc req =
     (case GetApi svc (req_path req) (req_method req) of
        (status, Some h, params) \<Rightarrow>
          run_handler my parse (Paths svc) h (req\<lparr>req_query_params := foldl (\<lambda>m (k, v). smap_put k v m) (req_query_params req) params\<rparr>)
            HttpResponse_new
      | (status, None, params) \<Rightarrow>
          (if req_method req = HTTP_GET \<or> req_method req = HTTP_HEAD then
             ret (if document_root svc \<noteq> '''' then static (req_path req) else HTTP_STATUS_NOT_FOUND, HttpResponse_new)
           else ret (HTTP_STATUS_NOT_IMPLEMENTED, HttpResponse_new)))"

end
