(* ===== verification/Mysql_Server.thy ===== *)
theory Mysql_Server
  imports Mysql_Connection "HOL-Library.Multiset"
begin

text \<open>
  What the program relies on from MySQL. The database server and its client library are not in
  the repository; this theory states, as the laws of the locale \<open>mysql_server\<close>, what the MySQL
  manual says about the statements of \<open>Sql_Text\<close>, each in terms of the tables they touch. A law
  speaks about a statement that succeeded; any statement may fail, and a failed one changes
  nothing. Integers are \<open>int(11)\<close> columns, sent back as decimal text; an automatic identifier is
  positive and not in use; a string literal stores what \<open>scan_literal\<close> reads.

  The client lemmas proved in the locale say what each operation of the connection does to the
  tables. They are used for every database that satisfies the laws, and for the executable one
  of the theory \<open>Reference_Server\<close>.
\<close>

section \<open>Tables\<close>

record version_row =
  vr_id :: int
  vr_name :: string

record group_row =
  gr_id :: int
  gr_name :: string

record define_row =
  dr_id :: int
  dr_path :: string
  dr_name :: string
  dr_parent :: int

record file_row =
  fr_id :: int
  fr_version :: int
  fr_group :: int
  fr_define :: int
  fr_parent :: int
  fr_children :: int

record comment_row =
  cr_id :: int
  cr_define :: int
  cr_text :: string
  cr_created :: int
  cr_hided :: int

record tables =
  t_versions :: "version_row list"
  t_groups :: "group_row list"
  t_defines :: "define_row list"
  t_files :: "file_row list"
  t_comments :: "comment_row list"

section \<open>Rows sent back\<close>

definition int_cell :: "int \<Rightarrow> string option" where
  "int_cell n = Some (to_string n)"

definition version_cells :: "version_row \<Rightarrow> mysql_row" where
  "version_cells r = [int_cell (vr_id r), Some (vr_name r)]"

definition group_cells :: "group_row \<Rightarrow> mysql_row" where
  "group_cells r = [int_cell (gr_id r), Some (gr_name r)]"

definition define_cells :: "define_row \<Rightarrow> mysql_row" where
  "define_cells r = [int_cell (dr_id r), Some (dr_path r)]"

definition file_cells :: "file_row \<Rightarrow> mysql_row" where
  "file_cells r = [int_cell (fr_id r), int_cell (fr_version r), int_cell (fr_define r), int_cell (fr_group r)]"

definition comment_cells :: "comment_row \<Rightarrow> mysql_row" where
  "comment_cells r = [int_cell (cr_id r), int_cell (cr_define r), Some (cr_text r)]"

definition title_cells :: "file_row \<times> define_row \<Rightarrow> mysql_row" where
  "title_cells = (\<lambda>(f, d). [int_cell (fr_version f), int_cell (fr_group f), int_cell (fr_id f),
     int_cell (fr_children f), Some (dr_name d)])"

definition parent_cells :: "file_row \<times> define_row \<Rightarrow> mysql_row" where
  "parent_cells = (\<lambda>(f, d). [int_cell (fr_id f), int_cell (fr_parent f), int_cell (fr_children f),
     int_cell (fr_define f), Some (dr_path d), Some (dr_name d)])"

definition diff_cells :: "file_row \<times> define_row \<times> group_row \<Rightarrow> mysql_row" where
  "diff_cells = (\<lambda>(f, d, g). [int_cell (fr_id f), int_cell (fr_parent f), int_cell (fr_group f),
     int_cell (fr_children f), Some (gr_name g), int_cell (fr_define f), Some (dr_path d), Some (dr_name d)])"

definition amount_cells :: "int \<times> group_row \<times> int \<Rightarrow> mysql_row" where
  "amount_cells = (\<lambda>(v, g, n). [int_cell v, int_cell (gr_id g), Some (gr_name g), int_cell n])"

section \<open>Joins\<close>

definition files_with_define :: "tables \<Rightarrow> (file_row \<times> define_row) list" where
  "files_with_define T =
     [(f, d). f \<leftarrow> t_files T, d \<leftarrow> t_defines T, dr_id d = fr_define f]"

definition files_with_define_group :: "tables \<Rightarrow> (file_row \<times> define_row \<times> group_row) list" where
  "files_with_define_group T =
     [(f, d, g). (f, d) \<leftarrow> files_with_define T, g \<leftarrow> t_groups T, gr_id g = fr_group f]"

text \<open>The version has the file definition in the group.\<close>

definition version_has :: "tables \<Rightarrow> int \<Rightarrow> int \<Rightarrow> int \<Rightarrow> bool" where
  "version_has T v g d \<longleftrightarrow>
     (\<exists>f \<in> set (t_files T). fr_version f = v \<and> fr_group f = g \<and> fr_define f = d)"

definition only_in :: "tables \<Rightarrow> int \<Rightarrow> int \<Rightarrow> (file_row \<times> define_row \<times> group_row) list" where
  "only_in T v v' =
     filter (\<lambda>(f, d, g). fr_version f = v \<and> \<not> version_has T v' (fr_group f) (fr_define f))
       (files_with_define_group T)"

definition children_of :: "tables \<Rightarrow> int \<Rightarrow> file_row list" where
  "children_of T p = filter (\<lambda>f. fr_parent f = p) (t_files T)"

definition group_amounts :: "tables \<Rightarrow> int \<Rightarrow> (int \<times> group_row \<times> int) list" where
  "group_amounts T v =
     map (\<lambda>g. (v, g, int (length (filter (\<lambda>f. fr_version f = v \<and> fr_group f = gr_id g) (t_files T)))))
       (filter (\<lambda>g. \<exists>f \<in> set (t_files T). fr_version f = v \<and> fr_group f = gr_id g) (t_groups T))"

text \<open>A fresh automatic identifier.\<close>

definition fresh_id :: "int \<Rightarrow> int list \<Rightarrow> bool" where
  "fresh_id n ids \<longleftrightarrow> 0 < n \<and> int32 n \<and> n \<notin> set ids"

text \<open>
  Every number is stored in an \<open>int(11)\<close> column, four bytes wide; the primary key of the files is
  such a column, so there are fewer than \<open>2 ^ 31\<close> of them.
\<close>

definition int_columns :: "tables \<Rightarrow> bool" where
  "int_columns T \<longleftrightarrow>
     (\<forall>r \<in> set (t_versions T). int32 (vr_id r)) \<and>
     (\<forall>r \<in> set (t_groups T). int32 (gr_id r)) \<and>
     (\<forall>r \<in> set (t_defines T). int32 (dr_id r) \<and> int32 (dr_parent r)) \<and>
     (\<forall>r \<in> set (t_files T). int32 (fr_id r) \<and> int32 (fr_version r) \<and> int32 (fr_group r) \<and>
        int32 (fr_define r) \<and> int32 (fr_parent r) \<and> int32 (fr_children r)) \<and>
     (\<forall>r \<in> set (t_comments T). int32 (cr_id r) \<and> int32 (cr_define r)) \<and>
     int (length (t_files T)) < 2 ^ 31"

section \<open>The laws\<close>

locale mysql_server =
  fixes my :: "'w mysql"
    and tbl :: "'w \<Rightarrow> tables"
  assumes columns: "int_columns (tbl w)"
    and failed_query:
      "mysql_query my h q w = (QueryError e, w') \<Longrightarrow> tbl w' = tbl w"
    and connecting:
      "mysql_real_connect my ho us pa db po w = (r, w') \<Longrightarrow> tbl w' = tbl w"
    and select_versions:
      "mysql_query my h sql_select_versions w = (QueryOk rows n, w') \<Longrightarrow>
         tbl w' = tbl w \<and> (\<exists>rs. mset rs = mset (t_versions (tbl w)) \<and> rows = map version_cells rs)"
    and select_groups:
      "mysql_query my h sql_select_groups w = (QueryOk rows n, w') \<Longrightarrow>
         tbl w' = tbl w \<and> (\<exists>rs. mset rs = mset (t_groups (tbl w)) \<and> rows = map group_cells rs)"
    and select_defines:
      "mysql_query my h sql_select_define_files w = (QueryOk rows n, w') \<Longrightarrow>
         tbl w' = tbl w \<and> (\<exists>rs. mset rs = mset (t_defines (tbl w)) \<and> rows = map define_cells rs)"
    and select_files:
      "mysql_query my h sql_select_files w = (QueryOk rows n, w') \<Longrightarrow>
         tbl w' = tbl w \<and> (\<exists>rs. mset rs = mset (t_files (tbl w)) \<and> rows = map file_cells rs)"
    and select_comments:
      "int32 d \<Longrightarrow> mysql_query my h (sql_comments_of d) w = (QueryOk rows n, w') \<Longrightarrow>
         tbl w' = tbl w \<and>
         (\<exists>rs. mset rs = mset (filter (\<lambda>r. cr_define r = d \<and> cr_hided r = 0) (t_comments (tbl w))) \<and>
               sorted_wrt (\<lambda>a b. cr_created b \<le> cr_created a) rs \<and> rows = map comment_cells rs)"
    and select_group_amounts:
      "int32 v \<Longrightarrow> mysql_query my h (sql_groups_of_version v) w = (QueryOk rows n, w') \<Longrightarrow>
         tbl w' = tbl w \<and> (\<exists>rs. mset rs = mset (group_amounts (tbl w) v) \<and> rows = map amount_cells rs)"
    and select_children:
      "int32 v \<Longrightarrow> int32 g \<Longrightarrow> int32 p \<Longrightarrow>
       mysql_query my h (sql_files_of v g p) w = (QueryOk rows n, w') \<Longrightarrow>
         tbl w' = tbl w \<and>
         (\<exists>rs. mset rs = mset (filter (\<lambda>(f, d). fr_version f = v \<and> fr_group f = g \<and> fr_parent f = p)
                                 (files_with_define (tbl w))) \<and>
               sorted_wrt (\<lambda>(f, _) (f', _). fr_children f' \<noteq> 0 \<longrightarrow> fr_children f \<noteq> 0) rs \<and>
               rows = map title_cells rs)"
    and select_file:
      "int32 i \<Longrightarrow> mysql_query my h (sql_file_by_id i) w = (QueryOk rows n, w') \<Longrightarrow>
         tbl w' = tbl w \<and>
         (\<exists>rs. mset rs = mset (filter (\<lambda>(f, d). fr_id f = i) (files_with_define (tbl w))) \<and>
               rows = map parent_cells rs)"
    and select_diff:
      "int32 v \<Longrightarrow> int32 v' \<Longrightarrow> mysql_query my h (sql_diff_files v v') w = (QueryOk rows n, w') \<Longrightarrow>
         tbl w' = tbl w \<and> (\<exists>rs. mset rs = mset (only_in (tbl w) v v') \<and> rows = map diff_cells rs)"
    and count_children:
      "int32 p \<Longrightarrow> mysql_query my h (sql_count_children p) w = (QueryOk rows n, w') \<Longrightarrow>
         tbl w' = tbl w \<and> rows = [[int_cell (int (length (children_of (tbl w) p)))]]"
    and insert_version:
      "scan_literal l = Some (s, []) \<Longrightarrow>
       mysql_query my h (sql_insert_version l) w = (QueryOk rows n, w') \<Longrightarrow>
         fresh_id n (map vr_id (t_versions (tbl w))) \<and>
         tbl w' = (tbl w)\<lparr>t_versions := t_versions (tbl w) @ [\<lparr>vr_id = n, vr_name = s\<rparr>]\<rparr>"
    and insert_group:
      "scan_literal l = Some (s, []) \<Longrightarrow>
       mysql_query my h (sql_insert_group l) w = (QueryOk rows n, w') \<Longrightarrow>
         fresh_id n (map gr_id (t_groups (tbl w))) \<and>
         tbl w' = (tbl w)\<lparr>t_groups := t_groups (tbl w) @ [\<lparr>gr_id = n, gr_name = s\<rparr>]\<rparr>"
    and insert_define:
      "scan_literal l1 = Some (s1, []) \<Longrightarrow> scan_literal l2 = Some (s2, []) \<Longrightarrow> int32 p \<Longrightarrow>
       mysql_query my h (sql_insert_define_file l1 l2 p) w = (QueryOk rows n, w') \<Longrightarrow>
         fresh_id n (map dr_id (t_defines (tbl w))) \<and>
         tbl w' = (tbl w)\<lparr>t_defines := t_defines (tbl w) @
                            [\<lparr>dr_id = n, dr_path = s1, dr_name = s2, dr_parent = p\<rparr>]\<rparr>"
    and insert_file:
      "int32 v \<Longrightarrow> int32 g \<Longrightarrow> int32 d \<Longrightarrow> int32 p \<Longrightarrow>
       mysql_query my h (sql_insert_file v g d p) w = (QueryOk rows n, w') \<Longrightarrow>
         fresh_id n (map fr_id (t_files (tbl w))) \<and>
         tbl w' = (tbl w)\<lparr>t_files := t_files (tbl w) @
                            [\<lparr>fr_id = n, fr_version = v, fr_group = g, fr_define = d, fr_parent = p,
                              fr_children = 0\<rparr>]\<rparr>"
    and set_children:
      "int32 k \<Longrightarrow> int32 p \<Longrightarrow> mysql_query my h (sql_set_children k p) w = (QueryOk rows n, w') \<Longrightarrow>
         tbl w' = (tbl w)\<lparr>t_files := map (\<lambda>f. if fr_id f = p then f\<lparr>fr_children := k\<rparr> else f)
                                        (t_files (tbl w))\<rparr>"
    and insert_comment:
      "int32 d \<Longrightarrow> scan_literal l = Some (s, []) \<Longrightarrow>
       mysql_query my h (sql_insert_comment d l) w = (QueryOk rows n, w') \<Longrightarrow>
         fresh_id n (map cr_id (t_comments (tbl w))) \<and>
         (\<exists>t. tbl w' = (tbl w)\<lparr>t_comments := t_comments (tbl w) @
                [\<lparr>cr_id = n, cr_define = d, cr_text = s, cr_created = t, cr_hided = 0\<rparr>]\<rparr>)"
    and hide_comment:
      "int32 i \<Longrightarrow> mysql_query my h (sql_hide_comment i) w = (QueryOk rows n, w') \<Longrightarrow>
         tbl w' = (tbl w)\<lparr>t_comments := map (\<lambda>r. if cr_id r = i then r\<lparr>cr_hided := 1\<rparr> else r)
                                           (t_comments (tbl w))\<rparr>"

section \<open>Query texts reach the server whole\<close>

text \<open>No text the program sends contains a NUL, so \<open>c_str()\<close> cuts nothing off.\<close>

named_theorems sql_whole "query texts that are not cut by c_str"

lemma sql_select_versions_whole [sql_whole]: "c_str sql_select_versions = sql_select_versions"
  by (rule c_str_id) (simp add: sql_select_versions_def)

lemma sql_select_groups_whole [sql_whole]: "c_str sql_select_groups = sql_select_groups"
  by (rule c_str_id) (simp add: sql_select_groups_def)

lemma sql_select_define_files_whole [sql_whole]: "c_str sql_select_define_files = sql_select_define_files"
  by (rule c_str_id) (simp add: sql_select_define_files_def)

lemma sql_select_files_whole [sql_whole]: "c_str sql_select_files = sql_select_files"
  by (rule c_str_id) (simp add: sql_select_files_def)

lemma sql_comments_of_whole [sql_whole]: "c_str (sql_comments_of d) = sql_comments_of d"
  by (rule c_str_id) (simp add: sql_comments_of_def)

lemma sql_groups_of_version_whole [sql_whole]: "c_str (sql_groups_of_version v) = sql_groups_of_version v"
  by (rule c_str_id) (simp add: sql_groups_of_version_def)

lemma sql_files_of_whole [sql_whole]: "c_str (sql_files_of v g p) = sql_files_of v g p"
  by (rule c_str_id) (simp add: sql_files_of_def)

lemma sql_file_by_id_whole [sql_whole]: "c_str (sql_file_by_id i) = sql_file_by_id i"
  by (rule c_str_id) (simp add: sql_file_by_id_def)

lemma sql_diff_files_whole [sql_whole]: "c_str (sql_diff_files l r) = sql_diff_files l r"
  by (rule c_str_id) (simp add: sql_diff_files_def)

lemma sql_count_children_whole [sql_whole]: "c_str (sql_count_children p) = sql_count_children p"
  by (rule c_str_id) (simp add: sql_count_children_def)

lemma sql_set_children_whole [sql_whole]: "c_str (sql_set_children k p) = sql_set_children k p"
  by (rule c_str_id) (simp add: sql_set_children_def)

lemma sql_hide_comment_whole [sql_whole]: "c_str (sql_hide_comment i) = sql_hide_comment i"
  by (rule c_str_id) (simp add: sql_hide_comment_def)

lemma sql_insert_file_whole [sql_whole]: "c_str (sql_insert_file v g d p) = sql_insert_file v g d p"
  by (rule c_str_id) (simp add: sql_insert_file_def)

lemma sql_insert_version_whole [sql_whole]:
  "c_str (sql_insert_version (prepareStringValue s)) = sql_insert_version (prepareStringValue s)"
  by (rule c_str_id) (simp add: sql_insert_version_def)

lemma sql_insert_group_whole [sql_whole]:
  "c_str (sql_insert_group (prepareStringValue s)) = sql_insert_group (prepareStringValue s)"
  by (rule c_str_id) (simp add: sql_insert_group_def)

lemma sql_insert_define_file_whole [sql_whole]:
  "c_str (sql_insert_define_file (prepareStringValue s) (prepareStringValue t) p)
     = sql_insert_define_file (prepareStringValue s) (prepareStringValue t) p"
  by (rule c_str_id) (simp add: sql_insert_define_file_def)

lemma sql_insert_comment_whole [sql_whole]:
  "c_str (sql_insert_comment d (prepareStringValue s)) = sql_insert_comment d (prepareStringValue s)"
  by (rule c_str_id) (simp add: sql_insert_comment_def)

lemma scan_prepared: "scan_literal (prepareStringValue s) = Some (s, [])"
  using scan_literal_prepared [of "[]" s] by simp

end
