(* ===== verification/Mysql_Client.thy ===== *)
theory Mysql_Client
  imports Mysql_Storage Mysql_Server
begin

text \<open>
  What the operations of \<open>MySqlStorageConnection\<close> and the connection handling of \<open>MySqlStorage\<close> do
  to the tables of a database that satisfies the laws of \<open>mysql_server\<close>: one lemma per operation
  for the case that it returns, and that a failed operation changes no table (\<open>insertFile\<close>, with
  its three queries, is the exception). The cache coherence of \<open>Storage_Cache\<close> and the
  differences of \<open>Storage_Diff\<close> rest on these lemmas.
\<close>

section \<open>Vocabulary\<close>

text \<open>The exception of a failed query.\<close>

definition db_error :: "cpp_error \<Rightarrow> bool" where
  "db_error e \<longleftrightarrow> (\<exists>s. e = Runtime_error (''Problem with database '' @ s))"

text \<open>The parts of the storage that connection handling leaves alone.\<close>

definition same_caches :: "MySqlStorage \<Rightarrow> MySqlStorage \<Rightarrow> bool" where
  "same_caches st st' \<longleftrightarrow>
     m_vVersions st' = m_vVersions st \<and> m_vGroups st' = m_vGroups st \<and>
     m_mapCacheFileDefinsIds st' = m_mapCacheFileDefinsIds st \<and> m_cacheGroups st' = m_cacheGroups st"

lemma same_caches_refl [simp]: "same_caches st st"
  by (simp add: same_caches_def)

lemma same_caches_trans: "same_caches a b \<Longrightarrow> same_caches b c \<Longrightarrow> same_caches a c"
  by (simp add: same_caches_def)

lemma same_caches_connections [simp]:
  "same_caches st (st\<lparr>m_mapStorageConnections := m\<rparr>)"
  "same_caches st (st\<lparr>m_vDoRemoveStorageConnections := r\<rparr>)"
  "same_caches st (st\<lparr>m_vDoRemoveStorageConnections := r, m_mapStorageConnections := m\<rparr>)"
  by (simp_all add: same_caches_def)

lemma get_storage_run [simp]: "get_storage s = (Inr (fst s), s)"
  by (simp add: get_storage_def)

lemma put_storage_run [simp]: "put_storage f (st, w) = (Inr (), (f st, w))"
  by (simp add: put_storage_def)

lemma on_snd_eq: "on_snd m (st, w) = (r, (st', w')) \<longleftrightarrow> st' = st \<and> m w = (r, w')"
  by (cases "m w") auto

lemma traverse_sum_map_Inr: "(\<And>x. x \<in> set xs \<Longrightarrow> f (h x) = Inr (g x)) \<Longrightarrow> traverse_sum f (map h xs) = Inr (map g xs)"
  by (induction xs) auto

text \<open>A computation that leaves one view of the state alone, whatever its outcome.\<close>

definition keeps :: "('s \<Rightarrow> 't) \<Rightarrow> ('s, 'a) M \<Rightarrow> bool" where
  "keeps t m \<longleftrightarrow> (\<forall>s. t (snd (m s)) = t s)"

named_theorems keeps_rules "computations that leave a view of the state alone"

lemma keepsD: "keeps t m \<Longrightarrow> m s = (r, s') \<Longrightarrow> t s' = t s"
  by (metis keeps_def snd_conv)

lemma keeps_Pair [keeps_rules]: "keeps t (Pair r)"
  by (simp add: keeps_def)

lemma keeps_bind [keeps_rules]: "keeps t m \<Longrightarrow> (\<And>x. keeps t (f x)) \<Longrightarrow> keeps t (mbind m f)"
  by (auto simp: keeps_def mbind_def split: prod.splits sum.splits) (metis snd_conv)+

lemma keeps_for_fold [keeps_rules]: "(\<And>a x. keeps t (f a x)) \<Longrightarrow> keeps t (for_fold xs a f)"
  by (induction xs arbitrary: a) (auto intro: keeps_rules)

declare int_cell_def [simp]

text \<open>The row \<open>insertFile\<close> inserts, and the update of the counter of its parent.\<close>

definition new_file :: "int \<Rightarrow> int \<Rightarrow> int \<Rightarrow> int \<Rightarrow> int \<Rightarrow> file_row" where
  "new_file n v g d p =
     \<lparr>fr_id = n, fr_version = v, fr_group = g, fr_define = d, fr_parent = p, fr_children = 0\<rparr>"

definition recount :: "int \<Rightarrow> file_row list \<Rightarrow> file_row list" where
  "recount p fs =
     map (\<lambda>f. if fr_id f = p then f\<lparr>fr_children := int (length (filter (\<lambda>f. fr_parent f = p) fs))\<rparr> else f) fs"

text \<open>The objects built from rows.\<close>

definition model_version :: "version_row \<Rightarrow> ModelVersion" where
  "model_version r = \<lparr>ver_nId = vr_id r, ver_sName = c_str (vr_name r)\<rparr>"

definition model_group :: "group_row \<Rightarrow> ModelGroup" where
  "model_group r = \<lparr>grp_nId = gr_id r, grp_sTitle = c_str (gr_name r)\<rparr>"

definition model_comment :: "comment_row \<Rightarrow> ModelComment" where
  "model_comment r = \<lparr>cmt_nCommentId = cr_id r, cmt_nDefineFileId = cr_define r, cmt_sComment = c_str (cr_text r)\<rparr>"

definition model_file :: "file_row \<times> define_row \<Rightarrow> ModelFile" where
  "model_file = (\<lambda>(f, d). ModelFile_new
     \<lparr>file_nFileId := fr_id f, file_nGroupId := fr_group f, file_nVersionId := fr_version f,
      file_nAmountOfChildren := fr_children f, file_sTitle := c_str (dr_name d)\<rparr>)"

definition model_amount :: "int \<times> group_row \<times> int \<Rightarrow> ModelGroupForVersion" where
  "model_amount = (\<lambda>(v, g, n). \<lparr>gfv_nGroupId = gr_id g, gfv_nVersionId = v,
     gfv_sTitle = c_str (gr_name g), gfv_nAmountOfFiles = n\<rparr>)"

text \<open>The entry of a difference for a file, with the state it gets.\<close>

definition model_diff :: "string \<Rightarrow> file_row \<times> define_row \<Rightarrow> ModelDiffFile" where
  "model_diff sState = (\<lambda>(f, d). ModelDiffFile_new
     \<lparr>dfile_nFileId := fr_id f, dfile_nParentFileId := fr_parent f, dfile_nDefineFileId := fr_define f,
      dfile_nAmountOfChildren := fr_children f, dfile_sFilename := c_str (dr_name d),
      dfile_sFilepath := c_str (dr_path d), dfile_sState := sState\<rparr>)"

lemma model_diff_id [simp]: "dfile_nFileId (model_diff sState x) = fr_id (fst x)"
  by (cases x) (simp add: model_diff_def)

lemma for_fold_pure:
  "(\<And>a x. x \<in> set xs \<Longrightarrow> f a (h x) = ret (g a x)) \<Longrightarrow> for_fold (map h xs) a f = ret (foldl g a xs)"
  by (induction xs arbitrary: a) simp_all

context mysql_server
begin

section \<open>Reads leave the tables alone\<close>

lemma query_error: "query_or_throw my c q w = (Inl e, w') \<Longrightarrow> db_error e \<and> tbl w' = tbl w"
  by (auto simp: query_or_throw_Inl db_error_def dest: failed_query)

lemma run_query_error: "run_query my c q w = (Inr (QueryError e), w') \<Longrightarrow> tbl w' = tbl w"
  by (auto simp: run_query_def dest: failed_query split: prod.splits)

lemma few_files: "int32 (int (length (filter P (t_files (tbl w)))))"
proof -
  have "length (t_files (tbl w)) < 2 ^ 31" using columns [of w] by (simp add: int_columns_def)
  with length_filter_le [of P "t_files (tbl w)"] have "length (filter P (t_files (tbl w))) < 2 ^ 31"
    by linarith
  then show ?thesis by (simp add: int32_def)
qed

section \<open>Connecting\<close>

lemma connect_keeps:
  "MySqlStorage_connect my (st, w) = (r, (st', w')) \<Longrightarrow> st' = st \<and> tbl w' = tbl w"
  by (auto simp: MySqlStorage_connect_def MySqlStorageConnection_new_def mbind_def
      dest: connecting split: prod.splits option.splits sum.splits)

lemma getConnection_keeps:
  assumes "getConnection my (st, w) = (r, (st', w'))"
  shows "same_caches st st' \<and> tbl w' = tbl w"
proof (cases "m_mapStorageConnections st (this_thread_id my)")
  case None
  with assms show ?thesis
    by (auto simp: getConnection_def mbind_def dest!: connect_keeps split: prod.splits option.splits sum.splits)
next
  case (Some c0)
  with assms show ?thesis
    by (auto simp: getConnection_def mbind_def getConnectionDurationInSeconds_def
        dest!: connect_keeps split: prod.splits option.splits sum.splits if_splits)
qed

lemma with_connection_returns:
  assumes "with_connection my f (st, w) = (Inr x, (st', w'))"
  obtains c w1 where "same_caches st st'" "tbl w1 = tbl w" "f c w1 = (Inr x, w')"
  using assms
  by (auto simp: with_connection_def mbind_Inr_iff deref_def on_snd_eq simp del: on_snd_apply
      split: option.splits dest!: getConnection_keeps)

lemma with_connection_throws:
  assumes "with_connection my f (st, w) = (Inl e, (st', w'))"
  obtains "same_caches st st'" "tbl w' = tbl w"
  | c w1 where "same_caches st st'" "tbl w1 = tbl w" "f c w1 = (Inl e, w')"
  using assms
  by (auto simp: with_connection_def mbind_Inl_iff deref_def on_snd_eq simp del: on_snd_apply
      split: option.splits dest!: getConnection_keeps)

section \<open>Insertions\<close>

lemma insertVersion_returns:
  "insertVersion my c s w = (Inr v, w') \<Longrightarrow>
     ver_sName v = s \<and> fresh_id (ver_nId v) (map vr_id (t_versions (tbl w))) \<and>
     tbl w' = (tbl w)\<lparr>t_versions := t_versions (tbl w) @ [\<lparr>vr_id = ver_nId v, vr_name = s\<rparr>]\<rparr>"
  by (auto simp: insertVersion_def mbind_Inr_iff query_or_throw_Inr sql_whole ModelVersion_defs fresh_id_def
      dest!: insert_version [OF scan_prepared])

lemma insertGroup_returns:
  "insertGroup my c s w = (Inr g, w') \<Longrightarrow>
     grp_sTitle g = s \<and> fresh_id (grp_nId g) (map gr_id (t_groups (tbl w))) \<and>
     tbl w' = (tbl w)\<lparr>t_groups := t_groups (tbl w) @ [\<lparr>gr_id = grp_nId g, gr_name = s\<rparr>]\<rparr>"
  by (auto simp: insertGroup_def mbind_Inr_iff query_or_throw_Inr sql_whole ModelGroup_defs fresh_id_def
      dest!: insert_group [OF scan_prepared])

lemma insertDefineFile_returns:
  "int32 p \<Longrightarrow> insertDefineFile my c path name p w = (Inr n, w') \<Longrightarrow>
     fresh_id n (map dr_id (t_defines (tbl w))) \<and>
     tbl w' = (tbl w)\<lparr>t_defines := t_defines (tbl w) @
                [\<lparr>dr_id = n, dr_path = path, dr_name = name, dr_parent = p\<rparr>]\<rparr>"
  by (auto simp: insertDefineFile_def mbind_Inr_iff query_or_throw_Inr sql_whole fresh_id_def
      dest!: insert_define [OF scan_prepared scan_prepared])

text \<open>The files after the three queries of \<open>insertFile\<close>.\<close>

lemma insertFile_returns:
  assumes "int32 v" "int32 g" "int32 d" "int32 p"
    and "insertFile my c v g d p w = (Inr n, w')"
  shows "fresh_id n (map fr_id (t_files (tbl w))) \<and>
         tbl w' = (tbl w)\<lparr>t_files := recount p (t_files (tbl w) @ [new_file n v g d p])\<rparr>"
proof -
  from assms(5) obtain rows0 m w1 rows k w2 where
    q1: "mysql_query my (m_pConnection c) (sql_insert_file v g d p) w = (QueryOk rows0 m, w1)"
    and q2: "mysql_query my (m_pConnection c) (sql_count_children p) w1 = (QueryOk rows k, w2)"
    and rest: "mbind (case rows of [] \<Rightarrow> ret 0 | row # _ \<Rightarrow> lift_sum (row_int row 0))
       (\<lambda>nAmountOfChildren.
     mbind (query_or_throw my c (sql_set_children nAmountOfChildren p)) (\<lambda>_. ret (to_int32 m))) w2 = (Inr n, w')"
    by (auto simp: insertFile_def mbind_Inr_iff query_or_throw_Inr sql_whole)
  from insert_file [OF assms(1-4) q1]
  have fresh: "fresh_id m (map fr_id (t_files (tbl w)))"
    and t1: "tbl w1 = (tbl w)\<lparr>t_files := t_files (tbl w) @ [new_file m v g d p]\<rparr>"
    by (auto simp: new_file_def)
  from count_children [OF assms(4) q2]
  have t2: "tbl w2 = tbl w1"
    and rows: "rows = [[int_cell (int (length (children_of (tbl w1) p)))]]"
    by auto
  have small: "int32 (int (length (children_of (tbl w1) p)))"
    by (simp add: children_of_def few_files)
  let ?k = "int (length (children_of (tbl w1) p))"
  from rest rows small obtain rows3 m3 where
    q3: "mysql_query my (m_pConnection c) (sql_set_children ?k p) w2 = (QueryOk rows3 m3, w')"
    and n: "n = to_int32 m"
    by (auto simp: mbind_Inr_iff query_or_throw_Inr sql_whole)
  from fresh n have "n = m" by (simp add: fresh_id_def)
  with fresh set_children [OF small assms(4) q3] t1 t2 show ?thesis
    by (simp add: recount_def children_of_def)
qed

text \<open>A failure after the first query leaves the row in the table.\<close>

lemma insertFile_throws:
  assumes "int32 v" "int32 g" "int32 d" "int32 p"
    and "insertFile my c v g d p w = (Inl e, w')"
  shows "db_error e \<and>
         (tbl w' = tbl w \<or>
          (\<exists>n. fresh_id n (map fr_id (t_files (tbl w))) \<and>
               tbl w' = (tbl w)\<lparr>t_files := t_files (tbl w) @ [new_file n v g d p]\<rparr>))"
proof (cases "query_or_throw my c (sql_insert_file v g d p) w")
  case (Pair r w1)
  show ?thesis
  proof (cases r)
    case (Inl e')
    with Pair assms(5) show ?thesis by (auto simp: insertFile_def mbind_def dest: query_error)
  next
    case (Inr x)
    then obtain rows0 m where x: "r = Inr (rows0, m)" by (cases x) auto
    with Pair have "mysql_query my (m_pConnection c) (sql_insert_file v g d p) w = (QueryOk rows0 m, w1)"
      by (simp add: query_or_throw_Inr sql_whole)
    from insert_file [OF assms(1-4) this]
    have fresh: "fresh_id m (map fr_id (t_files (tbl w)))"
      and t1: "tbl w1 = (tbl w)\<lparr>t_files := t_files (tbl w) @ [new_file m v g d p]\<rparr>"
      by (auto simp: new_file_def)
    have "db_error e \<and> tbl w' = tbl w1"
      using assms(5) Pair x
      by (auto simp: insertFile_def mbind_Inl_iff mbind_Inr_iff query_or_throw_Inr sql_whole
          children_of_def few_files dest!: query_error count_children [OF assms(4)])
    with fresh t1 show ?thesis by auto
  qed
qed

lemma conn_addComment_returns:
  "int32 d \<Longrightarrow> conn_addComment my c d s w = (Inr m, w') \<Longrightarrow>
     cmt_nDefineFileId m = d \<and> cmt_sComment m = s \<and> fresh_id (cmt_nCommentId m) (map cr_id (t_comments (tbl w))) \<and>
     (\<exists>t. tbl w' = (tbl w)\<lparr>t_comments := t_comments (tbl w) @
            [\<lparr>cr_id = cmt_nCommentId m, cr_define = d, cr_text = s, cr_created = t, cr_hided = 0\<rparr>]\<rparr>)"
  by (auto simp: conn_addComment_def mbind_Inr_iff query_or_throw_Inr sql_whole ModelComment_defs fresh_id_def
      dest!: insert_comment [OF _ scan_prepared])

lemma conn_hideComment_returns:
  "int32 i \<Longrightarrow> conn_hideComment my c i w = (Inr u, w') \<Longrightarrow>
     tbl w' = (tbl w)\<lparr>t_comments := map (\<lambda>r. if cr_id r = i then r\<lparr>cr_hided := 1\<rparr> else r)
                                       (t_comments (tbl w))\<rparr>"
  by (auto simp: conn_hideComment_def mbind_Inr_iff query_or_throw_Inr sql_whole dest!: hide_comment)

lemma insert_throws:
  "insertVersion my c s w = (Inl e, w') \<Longrightarrow> db_error e \<and> tbl w' = tbl w"
  "insertGroup my c s w = (Inl e, w') \<Longrightarrow> db_error e \<and> tbl w' = tbl w"
  "insertDefineFile my c s t p w = (Inl e, w') \<Longrightarrow> db_error e \<and> tbl w' = tbl w"
  "conn_addComment my c d s w = (Inl e, w') \<Longrightarrow> db_error e \<and> tbl w' = tbl w"
  "conn_hideComment my c d w = (Inl e, w') \<Longrightarrow> db_error e \<and> tbl w' = tbl w"
  by (auto simp: insertVersion_def insertGroup_def insertDefineFile_def conn_addComment_def
      conn_hideComment_def mbind_Inl_iff dest!: query_error)

section \<open>Reads\<close>

lemma getApiVersionsAll_returns:
  assumes "getApiVersionsAll my c w = (Inr vs, w')"
  obtains rs where "mset rs = mset (t_versions (tbl w))" "vs = map model_version rs" "tbl w' = tbl w"
proof -
  from assms obtain rows n where
    q: "mysql_query my (m_pConnection c) sql_select_versions w = (QueryOk rows n, w')"
    and vs: "traverse_sum version_of_row rows = Inr vs"
    by (auto simp: getApiVersionsAll_def mbind_Inr_iff query_or_throw_Inr sql_whole)
  from select_versions [OF q] obtain rs where rs: "mset rs = mset (t_versions (tbl w))"
    and rows: "rows = map version_cells rs" and t: "tbl w' = tbl w" by auto
  have "int32 (vr_id r)" if "r \<in> set rs" for r
    using columns [of w] that mset_eq_setD [OF rs] by (auto simp: int_columns_def)
  then have "traverse_sum version_of_row rows = Inr (map model_version rs)"
    unfolding rows
    by (intro traverse_sum_map_Inr)
       (simp add: version_of_row_def version_cells_def model_version_def ModelVersion_defs)
  with vs rs t show ?thesis by (auto intro: that)
qed

lemma conn_getGroupsAll_returns:
  assumes "conn_getGroupsAll my c w = (Inr gs, w')"
  obtains rs where "mset rs = mset (t_groups (tbl w))" "gs = map model_group rs" "tbl w' = tbl w"
proof -
  from assms obtain rows n where
    q: "mysql_query my (m_pConnection c) sql_select_groups w = (QueryOk rows n, w')"
    and gs: "traverse_sum group_of_row rows = Inr gs"
    by (auto simp: conn_getGroupsAll_def mbind_Inr_iff query_or_throw_Inr sql_whole)
  from select_groups [OF q] obtain rs where rs: "mset rs = mset (t_groups (tbl w))"
    and rows: "rows = map group_cells rs" and t: "tbl w' = tbl w" by auto
  have "int32 (gr_id r)" if "r \<in> set rs" for r
    using columns [of w] that mset_eq_setD [OF rs] by (auto simp: int_columns_def)
  then have "traverse_sum group_of_row rows = Inr (map model_group rs)"
    unfolding rows
    by (intro traverse_sum_map_Inr)
       (simp add: group_of_row_def group_cells_def model_group_def ModelGroup_defs)
  with gs rs t show ?thesis by (auto intro: that)
qed

lemma getDefineFilesCache_returns:
  assumes "getDefineFilesCache my c m w = (Inr m', w')"
  obtains rs where "mset rs = mset (t_defines (tbl w))" "tbl w' = tbl w"
    "m' = foldl (\<lambda>m r. m(c_str (dr_path r) \<mapsto> dr_id r)) m rs"
proof -
  from assms obtain rows n w1 where
    q: "mysql_query my (m_pConnection c) sql_select_define_files w = (QueryOk rows n, w1)"
    and run: "for_fold rows m (\<lambda>m row.
               mbind (lift_sum (row_int row 0)) (\<lambda>nDefineFileId.
               mbind (lift_sum (row_str row 1)) (\<lambda>sFilePath.
                 ret (m(sFilePath \<mapsto> nDefineFileId))))) w1 = (Inr m', w')"
    unfolding getDefineFilesCache_def by (auto simp: mbind_Inr_iff query_or_throw_Inr sql_whole)
  from select_defines [OF q] obtain rs where rs: "mset rs = mset (t_defines (tbl w))"
    and rows: "rows = map define_cells rs" and t: "tbl w1 = tbl w" by auto
  have "int32 (dr_id r)" if "r \<in> set rs" for r
    using columns [of w] that mset_eq_setD [OF rs] by (auto simp: int_columns_def)
  with run have "m' = foldl (\<lambda>m r. m(c_str (dr_path r) \<mapsto> dr_id r)) m rs \<and> w' = w1"
    unfolding rows by (subst (asm) for_fold_pure) (auto simp: define_cells_def)
  with rs t show ?thesis by (auto intro: that)
qed

lemma loadFilesIds_returns:
  assumes "loadFilesIds my c fc w = (Inr fc', w')"
  obtains rs where "mset rs = mset (t_files (tbl w))" "tbl w' = tbl w"
    "fc' = foldl (\<lambda>fc r. ModelCacheFilesVersion_add fc (fr_version r) (fr_group r) (fr_define r) (fr_id r)) fc rs"
proof -
  from assms obtain rows n w1 where
    q: "mysql_query my (m_pConnection c) sql_select_files w = (QueryOk rows n, w1)"
    and run: "for_fold rows fc (\<lambda>cache row.
               mbind (lift_sum (row_int row 0)) (\<lambda>nFileId.
               mbind (lift_sum (row_int row 1)) (\<lambda>nVersionId.
               mbind (lift_sum (row_int row 2)) (\<lambda>nDefineFileId.
               mbind (lift_sum (row_int row 3)) (\<lambda>nGroupId.
                 ret (ModelCacheFilesVersion_add cache nVersionId nGroupId nDefineFileId nFileId)))))) w1
               = (Inr fc', w')"
    unfolding loadFilesIds_def by (auto simp: mbind_Inr_iff query_or_throw_Inr sql_whole)
  from select_files [OF q] obtain rs where rs: "mset rs = mset (t_files (tbl w))"
    and rows: "rows = map file_cells rs" and t: "tbl w1 = tbl w" by auto
  have "int32 (fr_id r) \<and> int32 (fr_version r) \<and> int32 (fr_group r) \<and> int32 (fr_define r)"
    if "r \<in> set rs" for r
    using columns [of w] that mset_eq_setD [OF rs] by (auto simp: int_columns_def)
  with run have "fc' = foldl (\<lambda>fc r. ModelCacheFilesVersion_add fc (fr_version r) (fr_group r) (fr_define r) (fr_id r)) fc rs
      \<and> w' = w1"
    unfolding rows by (subst (asm) for_fold_pure) (auto simp: file_cells_def)
  with rs t show ?thesis by (auto intro: that)
qed

lemma getComments_run:
  assumes "int32 d" "getComments my c d w = (r, w')"
  shows "tbl w' = tbl w \<and>
         (case r of
            Inl e \<Rightarrow> db_error e
          | Inr cs \<Rightarrow> \<exists>rs. mset rs = mset (filter (\<lambda>r. cr_define r = d \<and> cr_hided r = 0) (t_comments (tbl w))) \<and>
              sorted_wrt (\<lambda>a b. cr_created b \<le> cr_created a) rs \<and> cs = map model_comment rs)"
proof (cases "mysql_query my (m_pConnection c) (sql_comments_of d) w")
  case (Pair a w1)
  show ?thesis
  proof (cases a)
    case (QueryError e)
    with Pair assms(2) failed_query show ?thesis
      by (auto simp: getComments_def query_or_throw_error mbind_def sql_whole db_error_def)
  next
    case (QueryOk rows n)
    from select_comments [OF assms(1) Pair [unfolded QueryOk]] obtain rs where
      rs: "mset rs = mset (filter (\<lambda>r. cr_define r = d \<and> cr_hided r = 0) (t_comments (tbl w)))"
      and ord: "sorted_wrt (\<lambda>a b. cr_created b \<le> cr_created a) rs"
      and rows: "rows = map comment_cells rs" and t: "tbl w1 = tbl w" by auto
    have "int32 (cr_id r) \<and> int32 (cr_define r)" if "r \<in> set rs" for r
      using columns [of w] that mset_eq_setD [OF rs] by (auto simp: int_columns_def)
    then have "traverse_sum comment_of_row rows = Inr (map model_comment rs)"
      unfolding rows
      by (intro traverse_sum_map_Inr)
         (simp add: comment_of_row_def comment_cells_def model_comment_def ModelComment_defs)
    with Pair QueryOk assms(2) have "r = Inr (map model_comment rs)" "w' = w1"
      by (auto simp: getComments_def query_or_throw_ok mbind_def sql_whole)
    with rs ord t show ?thesis by auto
  qed
qed

lemma conn_getFiles_returns:
  assumes "int32 v" "int32 g" "int32 p" "conn_getFiles my c v g p w = (Inr fs, w')"
  obtains rs where "mset rs = mset (filter (\<lambda>(f, d). fr_version f = v \<and> fr_group f = g \<and> fr_parent f = p)
                                 (files_with_define (tbl w)))"
    "sorted_wrt (\<lambda>(f, _) (f', _). fr_children f' \<noteq> 0 \<longrightarrow> fr_children f \<noteq> 0) rs"
    "fs = map model_file rs" "tbl w' = tbl w"
proof -
  from assms(4) obtain rows n where
    q: "mysql_query my (m_pConnection c) (sql_files_of v g p) w = (QueryOk rows n, w')"
    and fs: "traverse_sum file_of_row rows = Inr fs"
    by (auto simp: conn_getFiles_def mbind_Inr_iff query_or_throw_Inr sql_whole)
  from select_children [OF assms(1-3) q] obtain rs where
    rs: "mset rs = mset (filter (\<lambda>(f, d). fr_version f = v \<and> fr_group f = g \<and> fr_parent f = p)
                                 (files_with_define (tbl w)))"
    and ord: "sorted_wrt (\<lambda>(f, _) (f', _). fr_children f' \<noteq> 0 \<longrightarrow> fr_children f \<noteq> 0) rs"
    and rows: "rows = map title_cells rs" and t: "tbl w' = tbl w" by auto
  have "traverse_sum file_of_row rows = Inr (map model_file rs)"
    unfolding rows
  proof (rule traverse_sum_map_Inr)
    fix x assume "x \<in> set rs"
    then have "fst x \<in> set (t_files (tbl w))"
      using mset_eq_setD [OF rs] by (auto simp: files_with_define_def)
    then show "file_of_row (title_cells x) = Inr (model_file x)"
      using columns [of w]
      by (cases x) (auto simp: int_columns_def file_of_row_def title_cells_def model_file_def ModelFile_defs)
  qed
  with fs rs ord t show ?thesis by (auto intro: that)
qed

lemma conn_getGroups_returns:
  assumes "int32 v" "conn_getGroups my c v w = (Inr gs, w')"
  obtains rs where "mset rs = mset (group_amounts (tbl w) v)" "gs = map model_amount rs" "tbl w' = tbl w"
proof -
  from assms(2) obtain rows n where
    q: "mysql_query my (m_pConnection c) (sql_groups_of_version v) w = (QueryOk rows n, w')"
    and gs: "traverse_sum group_for_version_of_row rows = Inr gs"
    by (auto simp: conn_getGroups_def mbind_Inr_iff query_or_throw_Inr sql_whole)
  from select_group_amounts [OF assms(1) q] obtain rs where rs: "mset rs = mset (group_amounts (tbl w) v)"
    and rows: "rows = map amount_cells rs" and t: "tbl w' = tbl w" by auto
  have "traverse_sum group_for_version_of_row rows = Inr (map model_amount rs)"
    unfolding rows
  proof (rule traverse_sum_map_Inr)
    fix x assume "x \<in> set rs"
    then obtain g where "g \<in> set (t_groups (tbl w))"
      "x = (v, g, int (length (filter (\<lambda>f. fr_version f = v \<and> fr_group f = gr_id g) (t_files (tbl w)))))"
      using mset_eq_setD [OF rs] by (auto simp: group_amounts_def)
    then show "group_for_version_of_row (amount_cells x) = Inr (model_amount x)"
      using columns [of w] assms(1)
      by (auto simp: int_columns_def group_for_version_of_row_def amount_cells_def model_amount_def
          few_files ModelGroupForVersion_defs)
  qed
  with gs rs t show ?thesis by (auto intro: that)
qed

lemma findAndAddFile_run:
  assumes "int32 i" "findAndAddFile my c gr i acc w = (r, w')"
  shows "tbl w' = tbl w \<and>
         (case r of
            Inl e \<Rightarrow> db_error e
          | Inr acc' \<Rightarrow> \<exists>rs. mset rs = mset (filter (\<lambda>(f, d). fr_id f = i) (files_with_define (tbl w))) \<and>
              acc' = foldl (\<lambda>(dg, vs) x. (ModelDiffGroups_addDiffFile gr (model_diff [] x) dg,
                                          vs @ [fr_id (fst x)])) acc rs)"
proof (cases "mysql_query my (m_pConnection c) (sql_file_by_id i) w")
  case (Pair a w1)
  show ?thesis
  proof (cases a)
    case (QueryError e)
    with Pair assms(2) failed_query show ?thesis
      by (auto simp: findAndAddFile_def query_or_throw_error mbind_def sql_whole db_error_def)
  next
    case (QueryOk rows n)
    from select_file [OF assms(1) Pair [unfolded QueryOk]] obtain rs where
      rs: "mset rs = mset (filter (\<lambda>(f, d). fr_id f = i) (files_with_define (tbl w)))"
      and rows: "rows = map parent_cells rs" and t: "tbl w1 = tbl w" by auto
    have read: "parent_of_row (parent_cells x) = Inr (model_diff [] x)" if "x \<in> set rs" for x
    proof -
      from that have "fst x \<in> set (t_files (tbl w))"
        using mset_eq_setD [OF rs] by (auto simp: files_with_define_def)
      then show ?thesis
        using columns [of w]
        by (cases x) (auto simp: int_columns_def parent_of_row_def parent_cells_def model_diff_def ModelDiffFile_defs)
    qed
    let ?g = "\<lambda>(dg, vs) x. (ModelDiffGroups_addDiffFile gr (model_diff [] x) dg, vs @ [fr_id (fst x)])"
    have "findAndAddFile my c gr i acc w = ret (foldl ?g acc rs) w1"
      unfolding findAndAddFile_def using Pair QueryOk
      by (simp add: query_or_throw_ok mbind_def sql_whole rows)
         (subst for_fold_pure [where g = ?g], auto simp: read split: prod.splits)
    with assms(2) rs t show ?thesis by auto
  qed
qed

lemma getDiffFiles_run:
  assumes "int32 v" "int32 v'" "getDiffFiles my c v v' sState dg w = (r, w')"
  shows "tbl w' = tbl w \<and>
         (case r of
            Inl e \<Rightarrow> db_error e
          | Inr dg' \<Rightarrow> \<exists>rs. mset rs = mset (only_in (tbl w) v v') \<and>
              dg' = foldl (\<lambda>dg (f, d, g). ModelDiffGroups_addDiffFile (model_group g) (model_diff sState (f, d)) dg) dg rs)"
proof (cases "mysql_query my (m_pConnection c) (sql_diff_files v v') w")
  case (Pair a w1)
  show ?thesis
  proof (cases a)
    case (QueryError e)
    with Pair assms(3) failed_query show ?thesis
      by (auto simp: getDiffFiles_def query_or_throw_error mbind_def sql_whole db_error_def)
  next
    case (QueryOk rows n)
    from select_diff [OF assms(1,2) Pair [unfolded QueryOk]] obtain rs where
      rs: "mset rs = mset (only_in (tbl w) v v')"
      and rows: "rows = map diff_cells rs" and t: "tbl w1 = tbl w" by auto
    have read: "diff_of_row sState (diff_cells (f, d, g)) = Inr (model_group g, model_diff sState (f, d))"
      if "(f, d, g) \<in> set rs" for f d g
    proof -
      from that have "f \<in> set (t_files (tbl w)) \<and> fr_group f = gr_id g"
        using mset_eq_setD [OF rs] by (auto simp: only_in_def files_with_define_group_def files_with_define_def)
      then show ?thesis
        using columns [of w]
        by (auto simp: int_columns_def diff_of_row_def diff_cells_def model_diff_def model_group_def
            ModelDiffFile_defs ModelGroup_defs)
    qed
    let ?g = "\<lambda>dg (f, d, g). ModelDiffGroups_addDiffFile (model_group g) (model_diff sState (f, d)) dg"
    have "getDiffFiles my c v v' sState dg w = ret (foldl ?g dg rs) w1"
      unfolding getDiffFiles_def using Pair QueryOk
      by (simp add: query_or_throw_ok mbind_def sql_whole rows)
         (subst for_fold_pure [where g = ?g], auto simp: read split: prod.splits)
    with assms(3) rs t show ?thesis by auto
  qed
qed

section \<open>Reads keep the tables, whatever happens\<close>

lemma query_keeps:
  assumes "\<And>w rows n w'. mysql_query my (m_pConnection c) (c_str q) w = (QueryOk rows n, w') \<Longrightarrow> tbl w' = tbl w"
  shows "keeps tbl (query_or_throw my c q)"
  unfolding keeps_def
proof
  fix w
  show "tbl (snd (query_or_throw my c q w)) = tbl w"
  proof (cases "query_or_throw my c q w")
    case (Pair r w')
    then have "tbl w' = tbl w" by (cases r) (auto simp: query_or_throw_Inr dest: query_error assms)
    with Pair show ?thesis by simp
  qed
qed

lemma reads_keep [keeps_rules]:
  "keeps tbl (getApiVersionsAll my c)"
  "keeps tbl (conn_getGroupsAll my c)"
  "keeps tbl (getDefineFilesCache my c m)"
  "keeps tbl (loadFilesIds my c fc)"
  "int32 d \<Longrightarrow> keeps tbl (getComments my c d)"
  "int32 v \<Longrightarrow> keeps tbl (conn_getGroups my c v)"
  "int32 v \<Longrightarrow> int32 g \<Longrightarrow> int32 p \<Longrightarrow> keeps tbl (conn_getFiles my c v g p)"
  "int32 i \<Longrightarrow> keeps tbl (findAndAddFile my c gr i acc)"
  "int32 v \<Longrightarrow> int32 v' \<Longrightarrow> keeps tbl (getDiffFiles my c v v' sState dg)"
  unfolding getApiVersionsAll_def conn_getGroupsAll_def getDefineFilesCache_def loadFilesIds_def
    getComments_def conn_getGroups_def conn_getFiles_def findAndAddFile_def getDiffFiles_def
  by (auto intro!: keeps_rules query_keeps simp: sql_whole split: prod.splits
      dest: select_versions select_groups select_defines select_files select_comments
        select_group_amounts select_children select_file select_diff)

end

end
