(* ===== verification/Storage_Diff.thy ===== *)
theory Storage_Diff
  imports Mysql_Client
begin

text \<open>
  \<open>MySqlStorage::getDiff\<close> for a database that satisfies the laws of \<open>mysql_server\<close>: which files end
  up in the difference of two versions and with which state, which parents are added to them, that
  the search for parents ends, and which comments are attached.
\<close>

section \<open>Files with a state\<close>

type_synonym diff_row = "file_row \<times> define_row \<times> group_row"

definition row_diff :: "string \<Rightarrow> diff_row \<Rightarrow> ModelDiffFile" where
  "row_diff sState = (\<lambda>(f, d, g). model_diff sState (f, d))"

definition in_group :: "int \<Rightarrow> diff_row list \<Rightarrow> diff_row list" where
  "in_group k rs = filter (\<lambda>(f, d, g). gr_id g = k) rs"

definition add_rows :: "string \<Rightarrow> diff_row list \<Rightarrow> ModelDiffGroups \<Rightarrow> ModelDiffGroups" where
  "add_rows sState rs dg =
     foldl (\<lambda>dg (f, d, g). ModelDiffGroups_addDiffFile (model_group g) (model_diff sState (f, d)) dg) dg rs"

lemma diff_files_add_rows:
  "diff_files (add_rows sState rs dg) k = diff_files dg k @ map (row_diff sState) (in_group k rs)"
  unfolding add_rows_def
  by (induction rs arbitrary: dg)
     (auto simp: diff_files_add in_group_def row_diff_def model_group_def split: prod.splits)

lemma diff_groups_ok_add_rows: "diff_groups_ok dg \<Longrightarrow> diff_groups_ok (add_rows sState rs dg)"
  unfolding add_rows_def
  by (induction rs arbitrary: dg) (auto simp: diff_groups_ok_add split: prod.splits)

lemma m_mapComments_add_rows: "m_mapComments (add_rows sState rs dg) = m_mapComments dg"
  unfolding add_rows_def by (induction rs arbitrary: dg) (auto split: prod.splits)

section \<open>Parents\<close>

text \<open>The files a group has, and the root, which is never looked up.\<close>

definition known :: "ModelDiffGroups \<Rightarrow> int \<Rightarrow> int set" where
  "known dg k = insert 0 (dfile_nFileId ` set (diff_files dg k))"

definition add_parents ::
    "ModelGroup \<Rightarrow> (file_row \<times> define_row) list \<Rightarrow> ModelDiffGroups \<Rightarrow> ModelDiffGroups" where
  "add_parents gr xs dg = foldl (\<lambda>dg x. ModelDiffGroups_addDiffFile gr (model_diff '''' x) dg) dg xs"

lemma group_has_file_known:
  "diff_groups_ok dg \<Longrightarrow> i = 0 \<or> group_has_file dg k i \<longleftrightarrow> i \<in> known dg k"
  by (auto simp: diff_groups_ok_lookup group_has_file_def known_def diff_files_def diff_group_ok_def
      ModelDiffGroup_hasFileId_def split: option.splits)

lemma findAndAddFile_fold:
  "foldl (\<lambda>(dg, vs) x. (ModelDiffGroups_addDiffFile gr (model_diff '''' x) dg, vs @ [fr_id (fst x)])) (dg, vs) xs
     = (add_parents gr xs dg, vs @ map (\<lambda>x. fr_id (fst x)) xs)"
  unfolding add_parents_def by (induction xs arbitrary: dg vs) simp_all

lemma diff_files_add_parents:
  "diff_files (add_parents gr xs dg) k =
     (if k = grp_nId gr then diff_files dg k @ map (model_diff '''') xs else diff_files dg k)"
  unfolding add_parents_def by (induction xs arbitrary: dg) (auto simp: diff_files_add)

lemma add_parents_ok: "diff_groups_ok dg \<Longrightarrow> diff_groups_ok (add_parents gr xs dg)"
  unfolding add_parents_def by (induction xs arbitrary: dg) (auto simp: diff_groups_ok_add)

lemma add_parents_comments: "m_mapComments (add_parents gr xs dg) = m_mapComments dg"
  unfolding add_parents_def by (induction xs arbitrary: dg) auto

lemma known_add_parents:
  "known (add_parents gr xs dg) (grp_nId gr) = known dg (grp_nId gr) \<union> (\<lambda>x. fr_id (fst x)) ` set xs"
  by (auto simp: known_def diff_files_add_parents image_Un image_image)

lemma add_parents_append: "add_parents gr (xs @ ys) dg = add_parents gr ys (add_parents gr xs dg)"
  by (simp add: add_parents_def)

text \<open>
  What the search for the parents of one group adds: rows of files with their definition, whose
  identifiers were asked for, and all rows of every identifier that was asked for and not there.
\<close>

definition parents_found :: "tables \<Rightarrow> int set \<Rightarrow> int set \<Rightarrow> (file_row \<times> define_row) list \<Rightarrow> bool" where
  "parents_found T have asked xs \<longleftrightarrow>
     set xs = {x \<in> set (files_with_define T). fr_id (fst x) \<in> asked - have}"

lemma parents_found_known: "i \<in> have \<Longrightarrow> parents_found T have (insert i A) xs \<longleftrightarrow> parents_found T have A xs"
  by (auto simp: parents_found_def insert_Diff_if)

lemma parents_found_step:
  assumes "i \<notin> have" and rs: "set rs = {x \<in> set (files_with_define T). fr_id (fst x) = i}"
    and "parents_found T (have \<union> (\<lambda>x. fr_id (fst x)) ` set rs) (A \<union> (\<lambda>x. fr_id (fst x)) ` set rs) xs"
  shows "parents_found T have (insert i A) (rs @ xs)"
  using assms(1,3) unfolding parents_found_def by (auto simp: rs)

lemma parents_loop_lookup:
  assumes "diff_groups_ok dg" "vIds \<noteq> []" "last vIds \<notin> known dg k"
  shows "parents_loop my c gr k vIds dg w =
     (case findAndAddFile my c gr (last vIds) (dg, butlast vIds) w of
        (Inl e, w') \<Rightarrow> Some (Inl e, w')
      | (Inr acc, w') \<Rightarrow> parents_loop my c gr k (snd acc) (fst acc) w')"
  using assms(2,3) group_has_file_known [OF assms(1), of "last vIds" k] by (subst parents_loop.simps) auto

text \<open>The identifiers still to look up become fewer, or the stack becomes shorter.\<close>

lemma parents_decrease:
  assumes rs: "set rs = {x \<in> X. fr_id (fst x) = last vIds}" and "vIds \<noteq> []" "last vIds \<notin> known dg (grp_nId gr)"
  shows "card (set (butlast vIds @ map (\<lambda>x. fr_id (fst x)) rs) - known (add_parents gr rs dg) (grp_nId gr))
           < card (set vIds - known dg (grp_nId gr)) \<or>
         card (set (butlast vIds @ map (\<lambda>x. fr_id (fst x)) rs) - known (add_parents gr rs dg) (grp_nId gr))
           = card (set vIds - known dg (grp_nId gr)) \<and>
         length (butlast vIds @ map (\<lambda>x. fr_id (fst x)) rs) < length vIds"
    (is "card ?A < card ?B \<or> _")
proof (cases "rs = []")
  case True
  then have sub: "?A \<subseteq> ?B" by (auto simp: known_add_parents dest: in_set_butlastD)
  then have "card ?A \<le> card ?B" by (intro card_mono) auto
  with True assms(2) show ?thesis by (auto simp: le_less)
next
  case False
  then have "last vIds \<in> (\<lambda>x. fr_id (fst x)) ` set rs" using rs by (auto simp: neq_Nil_conv)
  then have "?A \<subseteq> ?B - {last vIds}" by (auto simp: known_add_parents dest: in_set_butlastD)
  moreover have "last vIds \<in> ?B" using assms(2,3) by simp
  ultimately have "?A \<subset> ?B" by auto
  then show ?thesis by (auto intro: psubset_card_mono)
qed

lemma setComments_simps [simp]:
  "map_of (m_mapComments (ModelDiffGroups_setComments d cs dg)) = (map_of (m_mapComments dg))(d \<mapsto> cs)"
  "m_vFileDefineIds (ModelDiffGroups_setComments d cs dg) = m_vFileDefineIds dg"
  by (simp_all add: ModelDiffGroups_setComments_def)

section \<open>What a difference holds\<close>

definition parent_ids :: "ModelDiffGroups \<Rightarrow> int \<Rightarrow> int set" where
  "parent_ids dg k = dfile_nParentFileId ` set (diff_files dg k)"

definition comments_listed :: "tables \<Rightarrow> int \<Rightarrow> comment_row list \<Rightarrow> bool" where
  "comments_listed T d rs \<longleftrightarrow>
     mset rs = mset (filter (\<lambda>r. cr_define r = d \<and> cr_hided r = 0) (t_comments T)) \<and>
     sorted_wrt (\<lambda>a b. cr_created b \<le> cr_created a) rs"

text \<open>
  The difference of a left and a right version: per group the files of the left version only as
  missing, then those of the right version only as new, then the direct parents of these files
  that are not among them; and the visible comments of every definition that occurs.
\<close>

definition is_difference :: "tables \<Rightarrow> int \<Rightarrow> int \<Rightarrow> ModelDiffGroups \<Rightarrow> bool" where
  "is_difference T l r dg \<longleftrightarrow>
     (\<forall>k. \<exists>ms ns xs.
        diff_files dg k = map (row_diff ''missing'') ms @ map (row_diff ''new'') ns @ map (model_diff '''') xs \<and>
        mset ms = mset (in_group k (only_in T l r)) \<and> mset ns = mset (in_group k (only_in T r l)) \<and>
        parents_found T (insert 0 ((\<lambda>(f, d, g). fr_id f) ` set (ms @ ns)))
          ((\<lambda>(f, d, g). fr_parent f) ` set (ms @ ns)) xs) \<and>
     (\<forall>d \<in> set (m_vFileDefineIds dg).
        \<exists>rs. map_of (m_mapComments dg) d = Some (map model_comment rs) \<and> comments_listed T d rs)"

text \<open>Every entry is the image of a file of the table.\<close>

definition from_table :: "tables \<Rightarrow> ModelDiffGroups \<Rightarrow> bool" where
  "from_table T dg \<longleftrightarrow>
     (\<forall>k. \<forall>m \<in> set (diff_files dg k). \<exists>f \<in> set (t_files T).
        dfile_nParentFileId m = fr_parent f \<and> dfile_nDefineFileId m = fr_define f)"

lemma from_table_add_rows:
  "from_table T dg \<Longrightarrow> set rs \<subseteq> set (files_with_define_group T) \<Longrightarrow> from_table T (add_rows sState rs dg)"
  by (fastforce simp: from_table_def diff_files_add_rows in_group_def row_diff_def model_diff_def
      files_with_define_group_def files_with_define_def)

lemma from_table_add_parents:
  "from_table T dg \<Longrightarrow> set xs \<subseteq> set (files_with_define T) \<Longrightarrow> from_table T (add_parents gr xs dg)"
  by (fastforce simp: from_table_def diff_files_add_parents model_diff_def files_with_define_def)

context mysql_server
begin

lemma parents_loop_ends:
  assumes "diff_groups_ok dg" "\<forall>i \<in> set vIds. int32 i"
  shows "\<exists>r w'. parents_loop my c gr (grp_nId gr) vIds dg w = Some (r, w') \<and> tbl w' = tbl w \<and>
           (case r of
              Inl e \<Rightarrow> db_error e
            | Inr dg' \<Rightarrow> \<exists>xs. dg' = add_parents gr xs dg \<and>
                              parents_found (tbl w) (known dg (grp_nId gr)) (set vIds) xs)"
  using assms
proof (induction "(card (set vIds - known dg (grp_nId gr)), length vIds)" arbitrary: vIds dg w
    rule: wf_induct_rule [OF wf_lex_prod [OF wf_less_than wf_less_than]])
  case less: 1
  let ?k = "grp_nId gr"
  show ?case
  proof (cases "vIds = []")
    case True
    then show ?thesis
      by (subst parents_loop.simps) (auto simp: parents_found_def add_parents_def intro: exI [of _ "[]"])
  next
    case ne: False
    then have vIds: "vIds = butlast vIds @ [last vIds]" by simp
    let ?i = "last vIds" and ?vs = "butlast vIds"
    have sets: "set vIds = insert ?i (set ?vs)" using vIds by (metis set_append Un_insert_right list.set sup_bot.right_neutral)
    show ?thesis
    proof (cases "?i \<in> known dg ?k")
      case True
      then have step: "parents_loop my c gr ?k vIds dg w = parents_loop my c gr ?k ?vs dg w"
        using ne group_has_file_known [OF less.prems(1), of ?i ?k] by (subst parents_loop.simps) auto
      have "set vIds - known dg ?k = set ?vs - known dg ?k" using sets True by auto
      then have "((card (set ?vs - known dg ?k), length ?vs), (card (set vIds - known dg ?k), length vIds))
          \<in> less_than <*lex*> less_than" using ne by simp
      from less.hyps [OF this less.prems(1)] less.prems(2) sets show ?thesis
        unfolding step sets parents_found_known [OF True] by simp
    next
      case False
      note step = parents_loop_lookup [OF less.prems(1) ne False]
      have i: "int32 ?i" using less.prems(2) sets by simp
      show ?thesis
      proof (cases "findAndAddFile my c gr ?i (dg, ?vs) w")
        case (Pair r w1)
        from findAndAddFile_run [OF i Pair] have t: "tbl w1 = tbl w" by simp
        show ?thesis
        proof (cases r)
          case (Inl e)
          with findAndAddFile_run [OF i Pair] Pair show ?thesis unfolding step by simp
        next
          case (Inr acc)
          with findAndAddFile_run [OF i Pair] obtain rs where
            rs: "mset rs = mset (filter (\<lambda>(f, d). fr_id f = ?i) (files_with_define (tbl w)))"
            and acc: "acc = (add_parents gr rs dg, ?vs @ map (\<lambda>x. fr_id (fst x)) rs)"
            by (auto simp: findAndAddFile_fold)
          have rset: "set rs = {x \<in> set (files_with_define (tbl w)). fr_id (fst x) = ?i}"
            using mset_eq_setD [OF rs] by (auto simp: case_prod_unfold)
          let ?vs1 = "?vs @ map (\<lambda>x. fr_id (fst x)) rs" and ?dg1 = "add_parents gr rs dg"
          have set1: "set ?vs1 = set ?vs \<union> (\<lambda>x. fr_id (fst x)) ` set rs" by simp
          have dec: "((card (set ?vs1 - known ?dg1 ?k), length ?vs1), (card (set vIds - known dg ?k), length vIds))
            \<in> less_than <*lex*> less_than"
            using parents_decrease [OF rset ne False] by simp
          have ids: "\<forall>i \<in> set ?vs1. int32 i" using less.prems(2) sets rset i by auto
          from less.hyps [OF dec add_parents_ok [OF less.prems(1)] ids, of w1] obtain r2 w2 where
            run: "parents_loop my c gr ?k ?vs1 ?dg1 w1 = Some (r2, w2)" "tbl w2 = tbl w1"
            and res: "case r2 of Inl e \<Rightarrow> db_error e
              | Inr dg' \<Rightarrow> \<exists>xs. dg' = add_parents gr xs ?dg1 \<and> parents_found (tbl w1) (known ?dg1 ?k) (set ?vs1) xs"
            by blast
          have "\<exists>xs. dg' = add_parents gr xs dg \<and> parents_found (tbl w) (known dg ?k) (set vIds) xs" if "r2 = Inr dg'" for dg'
          proof -
            from res that obtain xs where "dg' = add_parents gr xs ?dg1"
              and found: "parents_found (tbl w) (known ?dg1 ?k) (set ?vs1) xs" by (auto simp: t)
            moreover have "parents_found (tbl w) (known dg ?k) (set vIds) (rs @ xs)"
              unfolding sets
              by (rule parents_found_step [OF False rset]) (use found in \<open>simp only: known_add_parents set1\<close>)
            ultimately show ?thesis by (metis add_parents_append)
          qed
          with run res t Pair Inr acc show ?thesis unfolding step by (auto split: sum.splits)
        qed
      qed
    qed
  qed
qed

lemma from_table_int32:
  assumes "from_table (tbl w) dg" "f \<in> set (diff_files dg k)"
  shows "int32 (dfile_nParentFileId f)" "int32 (dfile_nDefineFileId f)"
  using assms columns [of w] by (auto simp: from_table_def int_columns_def dest!: spec)

lemma search_parents_run:
  assumes ok: "diff_groups_ok dg" and tab: "from_table (tbl w) dg"
    and run: "search_parents my c dg k w = (r, w')"
  shows "tbl w' = tbl w \<and>
         (case r of
            Inl e \<Rightarrow> db_error e
          | Inr dg' \<Rightarrow> \<exists>gr xs. grp_nId gr = k \<and> dg' = add_parents gr xs dg \<and>
                               parents_found (tbl w) (known dg k) (parent_ids dg k) xs)"
proof (cases "map_of (m_mapGroups dg) k")
  case None
  then have "parent_ids dg k = {}" by (simp add: parent_ids_def diff_files_def)
  with None run show ?thesis
    by (auto simp: search_parents_def parents_found_def add_parents_def
        intro!: exI [of _ "ModelGroup_new\<lparr>grp_nId := k\<rparr>"] exI [of _ "[]"])
next
  case (Some g)
  then have g: "grp_nId (m_group g) = k" "set (m_vParentFilesIds g) = parent_ids dg k"
    using ok by (auto simp: diff_groups_ok_lookup parent_ids_def diff_files_def diff_group_ok_def)
  then have "\<forall>i \<in> set (m_vParentFilesIds g). int32 i"
    using from_table_int32 [OF tab] by (auto simp: parent_ids_def)
  from parents_loop_ends [OF ok this, of c "m_group g" w] g Some run show ?thesis
    by (fastforce simp: search_parents_def split: sum.splits)
qed

lemma search_all_run:
  assumes "for_fold ks dg (search_parents my c) w = (r, w')"
    and "diff_groups_ok dg" "from_table (tbl w) dg" "distinct ks"
  shows "tbl w' = tbl w \<and>
         (case r of
            Inl e \<Rightarrow> db_error e
          | Inr dg' \<Rightarrow> diff_groups_ok dg' \<and> from_table (tbl w) dg' \<and>
              (\<forall>k. k \<notin> set ks \<longrightarrow> diff_files dg' k = diff_files dg k) \<and>
              (\<forall>k \<in> set ks. \<exists>xs. diff_files dg' k = diff_files dg k @ map (model_diff '''') xs \<and>
                 parents_found (tbl w) (known dg k) (parent_ids dg k) xs))"
  using assms
proof (induction ks arbitrary: dg w)
  case (Cons k ks)
  show ?case
  proof (cases "search_parents my c dg k w")
    case (Pair r1 w1)
    note one = search_parents_run [OF Cons.prems(2,3) Pair]
    show ?thesis
    proof (cases r1)
      case (Inl e)
      with Pair Cons.prems(1) one show ?thesis by (auto simp: mbind_def)
    next
      case (Inr dg1)
      with one obtain gr xs where gr: "grp_nId gr = k" and dg1: "dg1 = add_parents gr xs dg"
        and found: "parents_found (tbl w) (known dg k) (parent_ids dg k) xs" and t: "tbl w1 = tbl w" by auto
      have ok1: "diff_groups_ok dg1" unfolding dg1 by (rule add_parents_ok [OF Cons.prems(2)])
      have tab1: "from_table (tbl w1) dg1" unfolding dg1 t
        by (rule from_table_add_parents [OF Cons.prems(3)]) (use found in \<open>auto simp: parents_found_def\<close>)
      have files1: "diff_files dg1 k' = (if k' = k then diff_files dg k @ map (model_diff '''') xs else diff_files dg k')" for k'
        by (simp add: dg1 diff_files_add_parents gr)
      have rest: "for_fold ks dg1 (search_parents my c) w1 = (r, w')"
        using Cons.prems(1) Pair Inr by (simp add: mbind_def)
      have others: "diff_files dg1 k' = diff_files dg k'" "known dg1 k' = known dg k'"
        "parent_ids dg1 k' = parent_ids dg k'" if "k' \<in> set ks" for k'
        using that Cons.prems(4) by (auto simp: known_def parent_ids_def files1)
      show ?thesis
      proof (cases r)
        case (Inr dg')
        note ih = Cons.IH [OF rest ok1 tab1, unfolded t, simplified Inr, simplified]
        have "diff_files dg' k = diff_files dg k @ map (model_diff '''') xs"
          using ih Cons.prems(4) by (simp add: files1)
        moreover have "\<exists>xs. diff_files dg' k' = diff_files dg k' @ map (model_diff '''') xs \<and>
            parents_found (tbl w) (known dg k') (parent_ids dg k') xs" if "k' \<in> set ks" for k'
          using ih that Cons.prems(4) by (simp add: others)
        ultimately show ?thesis using ih Inr found Cons.prems(4) files1 by auto
      qed (use Cons.IH [OF rest ok1 tab1] Cons.prems(4) t in simp)
    qed
  qed
qed auto

lemma comments_run:
  assumes "for_fold ds dg (load_comments my c) w = (r, w')" "\<forall>d \<in> set ds. int32 d"
  shows "tbl w' = tbl w \<and>
         (case r of
            Inl e \<Rightarrow> db_error e
          | Inr dg' \<Rightarrow> diff_files dg' = diff_files dg \<and> m_vFileDefineIds dg' = m_vFileDefineIds dg \<and>
              (diff_groups_ok dg \<longrightarrow> diff_groups_ok dg') \<and>
              (\<forall>d. d \<notin> set ds \<longrightarrow> map_of (m_mapComments dg') d = map_of (m_mapComments dg) d) \<and>
              (\<forall>d \<in> set ds. \<exists>rs. map_of (m_mapComments dg') d = Some (map model_comment rs) \<and>
                 comments_listed (tbl w) d rs))"
  using assms
proof (induction ds arbitrary: dg w)
  case (Cons d ds)
  show ?case
  proof (cases "getComments my c d w")
    case (Pair r1 w1)
    note one = getComments_run [OF _ Pair]
    show ?thesis
    proof (cases r1)
      case (Inl e)
      with Pair Cons.prems one show ?thesis by (auto simp: mbind_def load_comments_def)
    next
      case (Inr cs)
      with one Cons.prems(2) obtain rs where cs: "cs = map model_comment rs" "comments_listed (tbl w) d rs"
        and t: "tbl w1 = tbl w" by (auto simp: comments_listed_def)
      let ?dg = "ModelDiffGroups_setComments d cs dg"
      have "load_comments my c dg d w = (Inr ?dg, w1)"
        using Pair Inr by (simp add: load_comments_def mbind_def)
      with Cons.prems(1) have "for_fold ds ?dg (load_comments my c) w1 = (r, w')"
        by (simp add: mbind_def)
      from Cons.IH [OF this] Cons.prems(2) t cs show ?thesis
        by (cases "d \<in> set ds") (auto simp: diff_groups_ok_setComments split: sum.splits)
    qed
  qed
qed auto

section \<open>The difference of two versions\<close>

lemma changed_files_run:
  assumes l: "int32 l" and r: "int32 r"
    and run: "mbind (getDiffFiles my c l r ''missing'' ModelDiffGroups_new) (getDiffFiles my c r l ''new'') w = (res, w')"
  shows "tbl w' = tbl w \<and>
         (case res of
            Inl e \<Rightarrow> db_error e
          | Inr dg \<Rightarrow> \<exists>ms ns. mset ms = mset (only_in (tbl w) l r) \<and> mset ns = mset (only_in (tbl w) r l) \<and>
              dg = add_rows ''new'' ns (add_rows ''missing'' ms ModelDiffGroups_new))"
proof (cases "getDiffFiles my c l r ''missing'' ModelDiffGroups_new w")
  case (Pair r1 w1)
  note one = getDiffFiles_run [OF l r Pair]
  show ?thesis
  proof (cases r1)
    case (Inl e)
    with Pair run one show ?thesis by (auto simp: mbind_def)
  next
    case (Inr gs1)
    with Pair run have two: "getDiffFiles my c r l ''new'' gs1 w1 = (res, w')" by (simp add: mbind_def)
    from getDiffFiles_run [OF r l two] one Inr show ?thesis
      by (auto simp: add_rows_def split: sum.splits)
  qed
qed

lemma changed_files_state:
  assumes "mset ms = mset (only_in T l r)" "mset ns = mset (only_in T r l)"
    and dg: "dg = add_rows ''new'' ns (add_rows ''missing'' ms ModelDiffGroups_new)"
  shows "diff_groups_ok dg" "from_table T dg"
    "diff_files dg k = map (row_diff ''missing'') (in_group k ms) @ map (row_diff ''new'') (in_group k ns)"
    "known dg k = insert 0 ((\<lambda>(f, d, g). fr_id f) ` set (in_group k ms @ in_group k ns))"
    "parent_ids dg k = (\<lambda>(f, d, g). fr_parent f) ` set (in_group k ms @ in_group k ns)"
proof -
  show "diff_groups_ok dg" by (simp add: dg diff_groups_ok_add_rows diff_groups_ok_new)
  have "set ms \<subseteq> set (files_with_define_group T)" "set ns \<subseteq> set (files_with_define_group T)"
    using mset_eq_setD [OF assms(1)] mset_eq_setD [OF assms(2)] by (auto simp: only_in_def)
  then show "from_table T dg" unfolding dg
    by (intro from_table_add_rows) (simp_all add: from_table_def)
  show files: "diff_files dg k = map (row_diff ''missing'') (in_group k ms) @ map (row_diff ''new'') (in_group k ns)"
    by (simp add: dg diff_files_add_rows)
  have "dfile_nFileId (row_diff s x) = (\<lambda>(f, d, g). fr_id f) x" "dfile_nParentFileId (row_diff s x) = (\<lambda>(f, d, g). fr_parent f) x" for s x
    by (auto simp: row_diff_def model_diff_def split: prod.splits)
  then show "known dg k = insert 0 ((\<lambda>(f, d, g). fr_id f) ` set (in_group k ms @ in_group k ns))"
    "parent_ids dg k = (\<lambda>(f, d, g). fr_parent f) ` set (in_group k ms @ in_group k ns)"
    by (simp_all add: known_def parent_ids_def files image_Un image_image)
qed

lemma parents_and_comments_run:
  assumes ms: "mset ms = mset (only_in (tbl w) l r)" and ns: "mset ns = mset (only_in (tbl w) r l)"
    and dg: "dg = add_rows ''new'' ns (add_rows ''missing'' ms ModelDiffGroups_new)"
    and run: "mbind (for_fold (map fst (m_mapGroups dg)) dg (search_parents my c))
                (\<lambda>dg3. for_fold (m_vFileDefineIds dg3) dg3 (load_comments my c)) w = (res, w')"
  shows "tbl w' = tbl w \<and>
         (case res of
            Inl e \<Rightarrow> db_error e
          | Inr dg' \<Rightarrow> diff_groups_ok dg' \<and> is_difference (tbl w) l r dg')"
proof (cases "for_fold (map fst (m_mapGroups dg)) dg (search_parents my c) w")
  case (Pair r3 w3)
  note state = changed_files_state [OF ms ns dg]
  have "distinct (map fst (m_mapGroups dg))"
    using state(1) by (simp add: diff_groups_ok_def smap_ok_distinct)
  note three = search_all_run [OF Pair state(1,2) this]
  show ?thesis
  proof (cases r3)
    case (Inl e)
    with Pair run three show ?thesis by (auto simp: mbind_def)
  next
    case (Inr dg3)
    with three have s3: "diff_groups_ok dg3" "from_table (tbl w3) dg3" "tbl w3 = tbl w" by auto
    have files3: "\<exists>xs. diff_files dg3 k = diff_files dg k @ map (model_diff '''') xs \<and>
        parents_found (tbl w) (known dg k) (parent_ids dg k) xs" for k
    proof (cases "k \<in> set (map fst (m_mapGroups dg))")
      case False
      then have "map_of (m_mapGroups dg) k = None" by (simp add: map_of_eq_None_iff)
      then have "diff_files dg k = []" by (simp add: diff_files_def)
      with three Inr False show ?thesis
        by (intro exI [of _ "[]"]) (simp add: parents_found_def parent_ids_def)
    qed (use three Inr in auto)
    have "\<forall>d \<in> set (m_vFileDefineIds dg3). int32 d"
      using s3(1) from_table_int32(2) [OF s3(2)] by (auto simp: diff_groups_ok_lookup)
    moreover have four: "for_fold (m_vFileDefineIds dg3) dg3 (load_comments my c) w3 = (res, w')"
      using Pair Inr run by (simp add: mbind_def)
    ultimately have end_: "tbl w' = tbl w" "case res of Inl e \<Rightarrow> db_error e
          | Inr dg' \<Rightarrow> diff_files dg' = diff_files dg3 \<and> diff_groups_ok dg' \<and>
              (\<forall>d \<in> set (m_vFileDefineIds dg'). \<exists>rs. map_of (m_mapComments dg') d = Some (map model_comment rs) \<and>
                 comments_listed (tbl w) d rs)"
      using comments_run [OF four] s3 by (auto split: sum.splits)
    have "is_difference (tbl w) l r dg'" if "res = Inr dg'" for dg'
      unfolding is_difference_def
    proof (intro conjI allI)
      fix k
      from files3 [of k] obtain xs where xs: "diff_files dg3 k = diff_files dg k @ map (model_diff '''') xs"
        "parents_found (tbl w) (known dg k) (parent_ids dg k) xs" by blast
      show "\<exists>ms ns xs.
        diff_files dg' k = map (row_diff ''missing'') ms @ map (row_diff ''new'') ns @ map (model_diff '''') xs \<and>
        mset ms = mset (in_group k (only_in (tbl w) l r)) \<and> mset ns = mset (in_group k (only_in (tbl w) r l)) \<and>
        parents_found (tbl w) (insert 0 ((\<lambda>(f, d, g). fr_id f) ` set (ms @ ns)))
          ((\<lambda>(f, d, g). fr_parent f) ` set (ms @ ns)) xs"
        by (rule exI [of _ "in_group k ms"], rule exI [of _ "in_group k ns"], rule exI [of _ xs])
           (use end_ that xs ms ns state(3-5) [of k] in \<open>simp add: in_group_def mset_filter\<close>)
    qed (use end_ that in simp)
    with end_ show ?thesis by (auto split: sum.splits)
  qed
qed

lemma diff_on_connection_run:
  assumes l: "int32 l" and r: "int32 r"
    and run: "diff_on_connection my l r ModelDiffGroups_new c w = (res, w')"
  shows "tbl w' = tbl w \<and>
         (case res of
            Inl e \<Rightarrow> db_error e
          | Inr dg \<Rightarrow> diff_groups_ok dg \<and> is_difference (tbl w) l r dg)"
proof (cases "mbind (getDiffFiles my c l r ''missing'' ModelDiffGroups_new) (getDiffFiles my c r l ''new'') w")
  case (Pair r2 w2)
  note two = changed_files_run [OF l r Pair]
  have eq: "diff_on_connection my l r ModelDiffGroups_new c =
      mbind (mbind (getDiffFiles my c l r ''missing'' ModelDiffGroups_new) (getDiffFiles my c r l ''new''))
        (\<lambda>dg. mbind (for_fold (map fst (m_mapGroups dg)) dg (search_parents my c))
           (\<lambda>dg3. for_fold (m_vFileDefineIds dg3) dg3 (load_comments my c)))"
    by (simp add: diff_on_connection_def mbind_assoc)
  show ?thesis
  proof (cases r2)
    case (Inl e)
    with Pair run two show ?thesis by (auto simp: eq mbind_fail)
  next
    case (Inr dg)
    with two obtain ms ns where dg: "mset ms = mset (only_in (tbl w2) l r)" "mset ns = mset (only_in (tbl w2) r l)"
      "dg = add_rows ''new'' ns (add_rows ''missing'' ms ModelDiffGroups_new)" by auto
    have "mbind (for_fold (map fst (m_mapGroups dg)) dg (search_parents my c))
           (\<lambda>dg3. for_fold (m_vFileDefineIds dg3) dg3 (load_comments my c)) w2 = (res, w')"
      using run Pair Inr unfolding eq by (simp add: mbind_def)
    from parents_and_comments_run [OF dg this] two show ?thesis by (auto split: sum.splits)
  qed
qed

end

end
