(* ===== verification/Storage_Cache.thy ===== *)
theory Storage_Cache
  imports Mysql_Client
begin

text \<open>
  Adding files: the integrity of the tables (\<open>db_ok\<close>) and the agreement of the caches of
  \<open>MySqlStorage\<close> with them (\<open>coherent\<close>), for every database that satisfies the laws of
  \<open>mysql_server\<close>. \<open>loadCache\<close> establishes the agreement; \<open>findVersionOrCreate\<close>,
  \<open>findGroupOrCreate\<close>, \<open>findDefineFileIdOrCreate\<close>, \<open>findFileOrCreate\<close> and \<open>addFile\<close> keep both.
  The abstract state is the set \<open>stored\<close> of (version, group, path) entries, and \<open>addFile\<close> refines
  the operation that adds every non-empty prefix of the normalised path to it.
\<close>

section \<open>Integrity of the tables\<close>

definition ids_ok :: "int list \<Rightarrow> bool" where
  "ids_ok ids \<longleftrightarrow> distinct ids \<and> (\<forall>i \<in> set ids. 0 < i)"

definition file_key :: "file_row \<Rightarrow> int \<times> int \<times> int" where
  "file_key r = (fr_version r, fr_group r, fr_define r)"

definition name_ok :: "string \<Rightarrow> bool" where
  "name_ok n \<longleftrightarrow> n \<noteq> '''' \<and> CHR ''/'' \<notin> set n"

text \<open>The path of a definition; the root has the identifier 0 and the empty path.\<close>

definition paths_of :: "tables \<Rightarrow> int \<Rightarrow> string list" where
  "paths_of T p = (if p = 0 then [''''] else map dr_path (filter (\<lambda>q. dr_id q = p) (t_defines T)))"

definition define_tree_ok :: "tables \<Rightarrow> bool" where
  "define_tree_ok T \<longleftrightarrow>
     (\<forall>r \<in> set (t_defines T). name_ok (dr_name r) \<and>
        (\<exists>x \<in> set (paths_of T (dr_parent r)). dr_path r = x @ ''/'' @ dr_name r))"

text \<open>File \<open>f\<close> is the entry of definition \<open>d\<close> in the version and group, or both are the root.\<close>

definition is_entry :: "tables \<Rightarrow> int \<Rightarrow> int \<Rightarrow> int \<Rightarrow> int \<Rightarrow> bool" where
  "is_entry T v g f d \<longleftrightarrow> f = 0 \<and> d = 0 \<or>
     (\<exists>q \<in> set (t_files T). fr_id q = f \<and> fr_version q = v \<and> fr_group q = g \<and> fr_define q = d)"

definition file_tree_ok :: "tables \<Rightarrow> bool" where
  "file_tree_ok T \<longleftrightarrow>
     (\<forall>r \<in> set (t_files T).
        fr_version r \<in> vr_id ` set (t_versions T) \<and> fr_group r \<in> gr_id ` set (t_groups T) \<and>
        (\<exists>d \<in> set (t_defines T). dr_id d = fr_define r \<and>
           is_entry T (fr_version r) (fr_group r) (fr_parent r) (dr_parent d)))"

definition counters_ok :: "tables \<Rightarrow> bool" where
  "counters_ok T \<longleftrightarrow>
     (\<forall>r \<in> set (t_files T). fr_children r = int (length (children_of T (fr_id r))))"

definition db_ok :: "tables \<Rightarrow> bool" where
  "db_ok T \<longleftrightarrow>
     ids_ok (map vr_id (t_versions T)) \<and> ids_ok (map gr_id (t_groups T)) \<and>
     ids_ok (map dr_id (t_defines T)) \<and> ids_ok (map fr_id (t_files T)) \<and>
     distinct (map vr_name (t_versions T)) \<and> distinct (map gr_name (t_groups T)) \<and>
     distinct (map dr_path (t_defines T)) \<and> distinct (map file_key (t_files T)) \<and>
     define_tree_ok T \<and> file_tree_ok T \<and> counters_ok T"

section \<open>Agreement of the caches\<close>

definition version_obj :: "version_row \<Rightarrow> ModelVersion" where
  "version_obj r = \<lparr>ver_nId = vr_id r, ver_sName = vr_name r\<rparr>"

definition group_obj :: "group_row \<Rightarrow> ModelGroup" where
  "group_obj r = \<lparr>grp_nId = gr_id r, grp_sTitle = gr_name r\<rparr>"

definition define_index :: "tables \<Rightarrow> string \<rightharpoonup> int" where
  "define_index T = map_of (map (\<lambda>r. (dr_path r, dr_id r)) (t_defines T))"

definition file_index :: "tables \<Rightarrow> int \<times> int \<times> int \<rightharpoonup> int" where
  "file_index T = map_of (map (\<lambda>r. (file_key r, fr_id r)) (t_files T))"

definition coherent :: "MySqlStorage \<Rightarrow> tables \<Rightarrow> bool" where
  "coherent st T \<longleftrightarrow>
     mset (m_vVersions st) = mset (map version_obj (t_versions T)) \<and>
     mset (m_vGroups st) = mset (map group_obj (t_groups T)) \<and>
     m_mapCacheFileDefinsIds st = define_index T \<and>
     (\<forall>v g d. ModelCacheFilesVersion_findFileId (m_cacheGroups st) v g d =
        (case file_index T (v, g, d) of None \<Rightarrow> -1 | Some i \<Rightarrow> i))"

lemma coherent_same_caches: "same_caches st st' \<Longrightarrow> coherent st T \<Longrightarrow> coherent st' T"
  by (simp add: coherent_def same_caches_def)

section \<open>The stored entries\<close>

definition stored :: "tables \<Rightarrow> (int \<times> int \<times> string) set" where
  "stored T = {(fr_version f, fr_group f, dr_path d) | f d.
     f \<in> set (t_files T) \<and> d \<in> set (t_defines T) \<and> dr_id d = fr_define f}"

text \<open>The names a path is stored under, and the path they make.\<close>

definition stored_names :: "string \<Rightarrow> string list" where
  "stored_names p =
     (if p = '''' \<or> p = ''/'' then []
      else case WsjcppCore_split (WsjcppCore_doNormalizePath p) ''/'' of
             None \<Rightarrow> [] | Some ts \<Rightarrow> filter (\<lambda>n. n \<noteq> '''') ts)"

definition path_of :: "string list \<Rightarrow> string" where
  "path_of ns = concat (map (\<lambda>n. ''/'' @ n) ns)"

definition prefix_paths :: "string list \<Rightarrow> string set" where
  "prefix_paths ns = (\<lambda>k. path_of (take k ns)) ` {1..length ns}"

section \<open>Facts about the index functions\<close>

lemma ids_ok_append [simp]: "ids_ok (ids @ [n]) \<longleftrightarrow> ids_ok ids \<and> 0 < n \<and> n \<notin> set ids"
  by (auto simp: ids_ok_def)

lemma define_index_Some:
  "distinct (map dr_path (t_defines T)) \<Longrightarrow>
     define_index T p = Some i \<longleftrightarrow> (\<exists>r \<in> set (t_defines T). dr_path r = p \<and> dr_id r = i)"
  by (subst define_index_def, subst map_of_eq_Some_iff) (auto simp: o_def)

lemma define_index_None:
  "define_index T p = None \<longleftrightarrow> p \<notin> dr_path ` set (t_defines T)"
  by (force simp: define_index_def map_of_eq_None_iff)

lemma file_index_Some:
  "distinct (map file_key (t_files T)) \<Longrightarrow>
     file_index T k = Some i \<longleftrightarrow> (\<exists>r \<in> set (t_files T). file_key r = k \<and> fr_id r = i)"
  by (subst file_index_def, subst map_of_eq_Some_iff) (auto simp: o_def)

lemma file_index_None: "file_index T k = None \<longleftrightarrow> k \<notin> file_key ` set (t_files T)"
  by (force simp: file_index_def map_of_eq_None_iff)

text \<open>Definitions are determined by their identifier and by their path.\<close>

lemma define_by_id:
  "db_ok T \<Longrightarrow> d \<in> set (t_defines T) \<Longrightarrow> e \<in> set (t_defines T) \<Longrightarrow> dr_id d = dr_id e \<Longrightarrow> d = e"
  by (metis db_ok_def distinct_map ids_ok_def inj_onD)

lemma define_by_path:
  "db_ok T \<Longrightarrow> d \<in> set (t_defines T) \<Longrightarrow> e \<in> set (t_defines T) \<Longrightarrow> dr_path d = dr_path e \<Longrightarrow> d = e"
  by (metis db_ok_def distinct_map inj_onD)

lemma file_by_id:
  "db_ok T \<Longrightarrow> f \<in> set (t_files T) \<Longrightarrow> h \<in> set (t_files T) \<Longrightarrow> fr_id f = fr_id h \<Longrightarrow> f = h"
  by (metis db_ok_def distinct_map ids_ok_def inj_onD)

lemma file_define:
  assumes "db_ok T" "f \<in> set (t_files T)"
  shows "\<exists>d \<in> set (t_defines T). dr_id d = fr_define f \<and>
           is_entry T (fr_version f) (fr_group f) (fr_parent f) (dr_parent d)"
  using assms unfolding db_ok_def file_tree_ok_def by blast

lemma define_id_pos: "db_ok T \<Longrightarrow> d \<in> set (t_defines T) \<Longrightarrow> 0 < dr_id d"
  by (simp add: db_ok_def ids_ok_def)

lemma define_in_paths: "db_ok T \<Longrightarrow> d \<in> set (t_defines T) \<Longrightarrow> dr_path d \<in> set (paths_of T (dr_id d))"
  using define_id_pos [of T d] by (auto simp: paths_of_def)

lemma file_id_pos: "db_ok T \<Longrightarrow> f \<in> set (t_files T) \<Longrightarrow> 0 < fr_id f"
  by (simp add: db_ok_def ids_ok_def)

lemma path_split_unique:
  assumes "x @ ''/'' @ n = y @ ''/'' @ m" "CHR ''/'' \<notin> set n" "CHR ''/'' \<notin> set m"
  shows "x = y \<and> n = m"
  using assms by (auto simp: append_eq_append_conv2 Cons_eq_append_conv append_eq_Cons_conv)

lemma define_path:
  assumes "db_ok T" "r \<in> set (t_defines T)"
  obtains x where "x \<in> set (paths_of T (dr_parent r))" "dr_path r = x @ ''/'' @ dr_name r"
    "CHR ''/'' \<notin> set (dr_name r)"
  using assms unfolding db_ok_def define_tree_ok_def name_ok_def by blast

text \<open>A path belongs to one identifier.\<close>

lemma paths_of_inj:
  assumes "db_ok T" "x \<in> set (paths_of T p)" "x \<in> set (paths_of T q)"
  shows "p = q"
proof -
  have root: "r \<in> set (t_defines T) \<Longrightarrow> dr_path r \<noteq> ''''" for r
    by (rule define_path [OF assms(1)]) auto
  have cases: "i = 0 \<and> x = '''' \<or> (\<exists>r \<in> set (t_defines T). dr_id r = i \<and> dr_path r = x)"
    if "x \<in> set (paths_of T i)" for i
    using that by (auto simp: paths_of_def split: if_splits)
  from cases [OF assms(2)] cases [OF assms(3)] root define_by_path [OF assms(1)] show ?thesis by metis
qed

section \<open>Rows added to the tables\<close>

lemma name_tables [simp]:
  "paths_of (T\<lparr>t_versions := vs\<rparr>) = paths_of T" "paths_of (T\<lparr>t_groups := gs\<rparr>) = paths_of T"
  "is_entry (T\<lparr>t_versions := vs\<rparr>) = is_entry T" "is_entry (T\<lparr>t_groups := gs\<rparr>) = is_entry T"
  "children_of (T\<lparr>t_versions := vs\<rparr>) = children_of T" "children_of (T\<lparr>t_groups := gs\<rparr>) = children_of T"
  "stored (T\<lparr>t_versions := vs\<rparr>) = stored T" "stored (T\<lparr>t_groups := gs\<rparr>) = stored T"
  "define_index (T\<lparr>t_versions := vs\<rparr>) = define_index T" "define_index (T\<lparr>t_groups := gs\<rparr>) = define_index T"
  "file_index (T\<lparr>t_versions := vs\<rparr>) = file_index T" "file_index (T\<lparr>t_groups := gs\<rparr>) = file_index T"
  by (simp_all add: paths_of_def is_entry_def children_of_def stored_def define_index_def file_index_def fun_eq_iff)

lemma add_version_ok:
  assumes "db_ok T" "fresh_id n (map vr_id (t_versions T))" "s \<notin> vr_name ` set (t_versions T)"
  shows "db_ok (T\<lparr>t_versions := t_versions T @ [\<lparr>vr_id = n, vr_name = s\<rparr>]\<rparr>)"
  using assms
  by (auto simp: db_ok_def fresh_id_def define_tree_ok_def file_tree_ok_def counters_ok_def)

lemma add_group_ok:
  assumes "db_ok T" "fresh_id n (map gr_id (t_groups T))" "s \<notin> gr_name ` set (t_groups T)"
  shows "db_ok (T\<lparr>t_groups := t_groups T @ [\<lparr>gr_id = n, gr_name = s\<rparr>]\<rparr>)"
  using assms
  by (auto simp: db_ok_def fresh_id_def define_tree_ok_def file_tree_ok_def counters_ok_def)

definition add_define :: "tables \<Rightarrow> int \<Rightarrow> string \<Rightarrow> string \<Rightarrow> int \<Rightarrow> tables" where
  "add_define T n path name p =
     T\<lparr>t_defines := t_defines T @ [\<lparr>dr_id = n, dr_path = path, dr_name = name, dr_parent = p\<rparr>]\<rparr>"

lemma add_define_simps [simp]:
  "t_versions (add_define T n path name p) = t_versions T"
  "t_groups (add_define T n path name p) = t_groups T"
  "t_files (add_define T n path name p) = t_files T"
  "t_comments (add_define T n path name p) = t_comments T"
  "t_defines (add_define T n path name p) =
     t_defines T @ [\<lparr>dr_id = n, dr_path = path, dr_name = name, dr_parent = p\<rparr>]"
  "is_entry (add_define T n path name p) = is_entry T"
  by (simp_all add: add_define_def is_entry_def fun_eq_iff)

lemma add_define_ok:
  assumes ok: "db_ok T" and fresh: "fresh_id n (map dr_id (t_defines T))"
    and new: "path \<notin> dr_path ` set (t_defines T)" and name: "name_ok name"
    and path: "x \<in> set (paths_of T p)" "path = x @ ''/'' @ name"
  shows "db_ok (add_define T n path name p)"
proof -
  let ?T = "add_define T n path name p"
  have mono: "set (paths_of T q) \<subseteq> set (paths_of ?T q)" for q
    by (auto simp: paths_of_def)
  have "define_tree_ok ?T"
    unfolding define_tree_ok_def
  proof (intro ballI)
    fix r assume "r \<in> set (t_defines ?T)"
    then consider "r \<in> set (t_defines T)" | "r = \<lparr>dr_id = n, dr_path = path, dr_name = name, dr_parent = p\<rparr>"
      by auto
    then show "name_ok (dr_name r) \<and> (\<exists>x \<in> set (paths_of ?T (dr_parent r)). dr_path r = x @ ''/'' @ dr_name r)"
    proof cases
      case 1
      with ok mono show ?thesis unfolding db_ok_def define_tree_ok_def by blast
    next
      case 2
      with path name mono show ?thesis by auto
    qed
  qed
  moreover have "file_tree_ok ?T"
    using ok by (fastforce simp: db_ok_def file_tree_ok_def)
  moreover have "counters_ok ?T"
    using ok by (simp add: db_ok_def counters_ok_def children_of_def)
  ultimately show ?thesis
    using ok fresh new by (auto simp: db_ok_def fresh_id_def)
qed

lemma map_add_new: "k \<notin> dom m \<Longrightarrow> [k \<mapsto> v] ++ m = m(k \<mapsto> v)"
  by (auto simp: map_add_def fun_eq_iff dom_def split: option.split)

lemma add_define_index:
  "path \<notin> dr_path ` set (t_defines T) \<Longrightarrow>
     define_index (add_define T n path name p) = (define_index T)(path \<mapsto> n)"
  "file_index (add_define T n path name p) = file_index T"
  unfolding define_index_def file_index_def
  by (simp_all add: map_add_new dom_map_of_conv_image_fst image_image)

lemma add_define_stored:
  assumes "db_ok T" "fresh_id n (map dr_id (t_defines T))"
  shows "stored (add_define T n path name p) = stored T"
proof -
  have "n \<noteq> fr_define f" if "f \<in> set (t_files T)" for f
  proof -
    from file_define [OF assms(1) that] obtain d where "d \<in> set (t_defines T)" "dr_id d = fr_define f"
      by blast
    with assms(2) show ?thesis unfolding fresh_id_def by (metis image_eqI list.set_map)
  qed
  then show ?thesis by (fastforce simp: stored_def)
qed

definition add_file :: "tables \<Rightarrow> int \<Rightarrow> int \<Rightarrow> int \<Rightarrow> int \<Rightarrow> int \<Rightarrow> tables" where
  "add_file T n v g d p = T\<lparr>t_files := recount p (t_files T @ [new_file n v g d p])\<rparr>"

lemma recount_maps [simp]:
  "map fr_id (recount p fs) = map fr_id fs"
  "map file_key (recount p fs) = map file_key fs"
  "length (filter (\<lambda>f. fr_parent f = q) (recount p fs)) = length (filter (\<lambda>f. fr_parent f = q) fs)"
  by (simp_all add: recount_def file_key_def filter_map o_def if_distrib cong: if_cong)

lemma recount_ball:
  assumes "\<And>r k. P (r\<lparr>fr_children := k\<rparr>) = P r"
  shows "(\<forall>r \<in> set (recount p fs). P r) \<longleftrightarrow> (\<forall>r \<in> set fs. P r)"
  unfolding recount_def list.set_map ball_simps by (simp add: if_distrib [of P] assms)

lemma recount_bex:
  assumes "\<And>r k. P (r\<lparr>fr_children := k\<rparr>) = P r"
  shows "(\<exists>r \<in> set (recount p fs). P r) \<longleftrightarrow> (\<exists>r \<in> set fs. P r)"
  unfolding recount_def list.set_map bex_simps by (simp add: if_distrib [of P] assms)

lemma add_file_simps [simp]:
  "t_versions (add_file T n v g d p) = t_versions T"
  "t_groups (add_file T n v g d p) = t_groups T"
  "t_defines (add_file T n v g d p) = t_defines T"
  "t_comments (add_file T n v g d p) = t_comments T"
  "paths_of (add_file T n v g d p) = paths_of T"
  "define_tree_ok (add_file T n v g d p) = define_tree_ok T"
  "define_index (add_file T n v g d p) = define_index T"
  by (simp_all add: add_file_def paths_of_def fun_eq_iff define_tree_ok_def define_index_def)

lemma add_file_index:
  assumes "(v, g, d) \<notin> file_key ` set (t_files T)"
  shows "file_index (add_file T n v g d p) = (file_index T)((v, g, d) \<mapsto> n)"
proof -
  have "map (\<lambda>r. (file_key r, fr_id r)) (recount p fs) = map (\<lambda>r. (file_key r, fr_id r)) fs" for fs
    by (simp add: recount_def file_key_def)
  with assms show ?thesis
    unfolding file_index_def add_file_def
    by (simp add: new_file_def file_key_def map_add_new dom_map_of_conv_image_fst image_image)
qed

lemma add_file_is_entry:
  "is_entry (add_file T n v g d p) v' g' f' d' \<longleftrightarrow>
     is_entry T v' g' f' d' \<or> (f' = n \<and> v' = v \<and> g' = g \<and> d' = d)"
  by (auto simp: is_entry_def add_file_def recount_bex new_file_def)

lemma children_add_file:
  "length (children_of (add_file T n v g d p) q) = length (children_of T q) + (if q = p then 1 else 0)"
  by (simp add: children_of_def add_file_def new_file_def)

lemma add_file_files:
  "h \<in> set (t_files (add_file T n v g d p)) \<Longrightarrow>
     \<exists>r \<in> set (t_files T @ [new_file n v g d p]).
        fr_id h = fr_id r \<and> fr_version h = fr_version r \<and> fr_group h = fr_group r \<and>
        fr_define h = fr_define r \<and> fr_parent h = fr_parent r \<and>
        fr_children h = (if fr_id r = p then int (length (children_of (add_file T n v g d p) p)) else fr_children r)"
  by (force simp: add_file_def recount_def children_of_def filter_map o_def if_distrib cong: if_cong)

lemma parent_id_known:
  assumes "is_entry T v g p e" "fresh_id n (map fr_id (t_files T))" "db_ok T"
  shows "p \<noteq> n"
  using assms by (auto simp: is_entry_def fresh_id_def)

lemma no_children_yet:
  assumes "db_ok T" "fresh_id n (map fr_id (t_files T))"
  shows "children_of T n = []"
  unfolding children_of_def filter_empty_conv
proof
  fix f assume "f \<in> set (t_files T)"
  with file_define [OF assms(1)] obtain d :: define_row where
    "is_entry T (fr_version f) (fr_group f) (fr_parent f) (dr_parent d)" by blast
  from parent_id_known [OF this assms(2,1)] show "fr_parent f \<noteq> n" .
qed

lemma add_file_counters:
  assumes ok: "db_ok T" and fresh: "fresh_id n (map fr_id (t_files T))"
    and entry: "is_entry T v g p e"
  shows "counters_ok (add_file T n v g d p)"
  unfolding counters_ok_def
proof
  fix h assume "h \<in> set (t_files (add_file T n v g d p))"
  from add_file_files [OF this] obtain r where r: "r \<in> set (t_files T @ [new_file n v g d p])"
    "fr_id h = fr_id r"
    "fr_children h = (if fr_id r = p then int (length (children_of (add_file T n v g d p) p)) else fr_children r)"
    by blast
  have "fr_children r = int (length (children_of T (fr_id r)))" if "fr_id r \<noteq> p"
    using r(1) ok no_children_yet [OF ok fresh] by (auto simp: db_ok_def counters_ok_def new_file_def)
  with r show "fr_children h = int (length (children_of (add_file T n v g d p) (fr_id h)))"
    by (auto simp: children_add_file)
qed

lemma add_file_ok:
  assumes ok: "db_ok T" and fresh: "fresh_id n (map fr_id (t_files T))"
    and new: "(v, g, d) \<notin> file_key ` set (t_files T)"
    and refs: "v \<in> vr_id ` set (t_versions T)" "g \<in> gr_id ` set (t_groups T)"
    and drow: "r \<in> set (t_defines T)" "dr_id r = d" "is_entry T v g p (dr_parent r)"
  shows "db_ok (add_file T n v g d p)"
proof -
  let ?T = "add_file T n v g d p"
  have "ids_ok (map fr_id (t_files ?T))" "distinct (map file_key (t_files ?T))"
    using ok fresh new
    by (simp_all add: add_file_def db_ok_def fresh_id_def file_key_def new_file_def)
  moreover have "file_tree_ok ?T"
    unfolding file_tree_ok_def
  proof
    fix h assume "h \<in> set (t_files ?T)"
    from add_file_files [OF this] obtain f where f: "f \<in> set (t_files T @ [new_file n v g d p])"
      "fr_version h = fr_version f" "fr_group h = fr_group f" "fr_define h = fr_define f"
      "fr_parent h = fr_parent f" by blast
    show "fr_version h \<in> vr_id ` set (t_versions ?T) \<and> fr_group h \<in> gr_id ` set (t_groups ?T) \<and>
      (\<exists>d \<in> set (t_defines ?T). dr_id d = fr_define h \<and>
           is_entry ?T (fr_version h) (fr_group h) (fr_parent h) (dr_parent d))"
    proof (cases "f = new_file n v g d p")
      case True
      with f refs drow show ?thesis by (auto simp: new_file_def add_file_is_entry)
    next
      case False
      with f(1) have "f \<in> set (t_files T)" by simp
      with ok f(2-) show ?thesis
        unfolding db_ok_def file_tree_ok_def by (auto simp: add_file_is_entry)
    qed
  qed
  ultimately show ?thesis
    using ok add_file_counters [OF ok fresh drow(3)] by (simp add: db_ok_def)
qed

lemma add_file_stored:
  assumes "db_ok T" "r \<in> set (t_defines T)" "dr_id r = d"
  shows "stored (add_file T n v g d p) = insert (v, g, dr_path r) (stored T)"
proof -
  have "stored (add_file T n v g d p) =
      {(v', g', dr_path e) | v' g' e. e \<in> set (t_defines T) \<and>
         (\<exists>f \<in> set (recount p (t_files T @ [new_file n v g d p])).
             fr_version f = v' \<and> fr_group f = g' \<and> dr_id e = fr_define f)}"
    by (auto simp: stored_def add_file_def)
  also have "\<dots> = {(v', g', dr_path e) | v' g' e. e \<in> set (t_defines T) \<and>
         (\<exists>f \<in> set (t_files T @ [new_file n v g d p]).
             fr_version f = v' \<and> fr_group f = g' \<and> dr_id e = fr_define f)}"
    by (simp add: recount_bex)
  also have "\<dots> = insert (v, g, dr_path r) (stored T)"
    using assms define_by_id [OF assms(1)] by (auto simp: stored_def new_file_def)
  finally show ?thesis .
qed

section \<open>Growth\<close>

text \<open>Nothing that was in the tables is lost; only counters of files may differ.\<close>

definition extends :: "tables \<Rightarrow> tables \<Rightarrow> bool" where
  "extends T T' \<longleftrightarrow>
     set (t_versions T) \<subseteq> set (t_versions T') \<and> set (t_groups T) \<subseteq> set (t_groups T') \<and>
     set (t_defines T) \<subseteq> set (t_defines T') \<and>
     (\<forall>v g f d. is_entry T v g f d \<longrightarrow> is_entry T' v g f d) \<and> t_comments T' = t_comments T"

lemma extends_refl [simp]: "extends T T"
  by (simp add: extends_def)

lemma extends_trans: "extends T T' \<Longrightarrow> extends T' T'' \<Longrightarrow> extends T T''"
  unfolding extends_def by (metis subset_trans)

lemma extends_add [simp]:
  "extends T (T\<lparr>t_versions := t_versions T @ vs\<rparr>)" "extends T (T\<lparr>t_groups := t_groups T @ gs\<rparr>)"
  "extends T (add_define T n path name p)" "extends T (add_file T n v g d p)"
  by (auto simp: extends_def add_file_is_entry)

lemma extends_paths: "extends T T' \<Longrightarrow> x \<in> set (paths_of T p) \<Longrightarrow> x \<in> set (paths_of T' p)"
  by (auto simp: extends_def paths_of_def split: if_splits)

lemma prefix_paths_Nil [simp]: "prefix_paths [] = {}"
  by (simp add: prefix_paths_def)

lemma prefix_paths_Cons [simp]:
  "prefix_paths (n # ns) = insert (''/'' @ n) ((\<lambda>q. ''/'' @ n @ q) ` prefix_paths ns)"
proof -
  have "{1..length (n # ns)} = insert 1 (Suc ` {1..length ns})"
    by (auto simp: image_iff)
  then have "prefix_paths (n # ns) = (\<lambda>k. path_of (take k (n # ns))) ` insert 1 (Suc ` {1..length ns})"
    by (simp only: prefix_paths_def)
  then show ?thesis
    by (simp add: image_image prefix_paths_def path_of_def del: image_Suc_atLeastAtMost)
qed

lemma stored_names_ok: "n \<in> set (stored_names p) \<Longrightarrow> name_ok n"
proof -
  obtain ts where "WsjcppCore_split (WsjcppCore_doNormalizePath p) ''/'' = Some ts"
    "\<And>t. t \<in> set ts \<Longrightarrow> CHR ''/'' \<notin> set t" by (rule split_slash) auto
  then show "n \<in> set (stored_names p) \<Longrightarrow> name_ok n"
    by (auto simp: stored_names_def name_ok_def split: if_splits)
qed

lemma addFile_turn_simps:
  "addFile_turn my v g acc '''' = ret acc"
  "n \<noteq> '''' \<Longrightarrow> addFile_turn my v g (x, d0, f0) n =
     mbind (findDefineFileIdOrCreate my (x @ ''/'' @ n) n d0) (\<lambda>d.
     mbind (findFileOrCreate my v g d f0) (\<lambda>f. ret (x @ ''/'' @ n, d, f)))"
  by (auto simp: addFile_turn_def Let_def split: prod.split)

text \<open>
  Where the loop of \<open>addFile\<close> stands: the path so far with its definition and its file in the
  version and group.
\<close>

definition at_dir :: "tables \<Rightarrow> int \<Rightarrow> int \<Rightarrow> string \<times> int \<times> int \<Rightarrow> bool" where
  "at_dir T v g acc \<longleftrightarrow>
     v \<in> vr_id ` set (t_versions T) \<and> g \<in> gr_id ` set (t_groups T) \<and>
     (case acc of (x, d, f) \<Rightarrow> x \<in> set (paths_of T d) \<and> is_entry T v g f d)"

lemma extends_at_dir: "extends T T' \<Longrightarrow> at_dir T v g acc \<Longrightarrow> at_dir T' v g acc"
  by (auto simp: at_dir_def extends_paths) (auto simp: extends_def)

lemma extends_new_file:
  "extends T (T\<lparr>t_files := t_files T @ fs\<rparr>)" "stored T \<subseteq> stored (T\<lparr>t_files := t_files T @ fs\<rparr>)"
  by (auto simp: extends_def is_entry_def stored_def)

lemma map_of_fill:
  assumes "distinct (map f xs)" "mset rs = mset xs"
  shows "foldl (\<lambda>m r. m(f r \<mapsto> g r)) Map.empty rs = map_of (map (\<lambda>r. (f r, g r)) xs)"
proof -
  have fill: "foldl (\<lambda>m r. m(f r \<mapsto> g r)) m rs = m ++ map_of (rev (map (\<lambda>r. (f r, g r)) rs))" for m
    by (induction rs arbitrary: m) simp_all
  have "distinct (map f rs)"
    using assms mset_eq_imp_distinct_iff [of "map f rs" "map f xs"] by simp
  with assms mset_eq_setD [OF assms(2)] show ?thesis
    unfolding fill by (simp, intro map_of_inject_set [THEN iffD2]) (simp_all add: o_def rev_map [symmetric])
qed

lemma cache_fill:
  assumes "distinct (map file_key (t_files T))" "mset rs = mset (t_files T)"
  shows "ModelCacheFilesVersion_findFileId
           (foldl (\<lambda>fc r. ModelCacheFilesVersion_add fc (fr_version r) (fr_group r) (fr_define r) (fr_id r))
              ModelCacheFilesVersion_new rs) v g d =
         (case file_index T (v, g, d) of None \<Rightarrow> -1 | Some i \<Rightarrow> i)"
proof -
  let ?kns = "map (\<lambda>r. (file_key r, fr_id r)) rs"
  have dist: "distinct (map file_key rs)"
    using assms mset_eq_imp_distinct_iff [of "map file_key rs" "map file_key (t_files T)"] by simp

  have "map_of ?kns = file_index T"
    unfolding file_index_def using dist assms mset_eq_setD [OF assms(2)]
    by (intro map_of_inject_set [THEN iffD2]) (simp_all add: o_def)
  with cache_versions.find_fill_distinct [of ?kns "(v, g, d)"] dist show ?thesis
    by (simp add: o_def foldl_map file_key_def [abs_def])
qed


context mysql_server
begin

section \<open>Versions and groups\<close>


lemma findVersionOrCreate_ok:
  assumes ok: "db_ok (tbl w)" and co: "coherent st (tbl w)"
    and run: "findVersionOrCreate my s (st, w) = (r, (st', w'))"
  shows "db_ok (tbl w') \<and> coherent st' (tbl w') \<and> extends (tbl w) (tbl w') \<and> stored (tbl w') = stored (tbl w)
     \<and> (\<forall>v. r = Inr v \<longrightarrow> ver_sName v = s \<and> ver_nId v \<in> vr_id ` set (t_versions (tbl w')))"
proof (cases "find (\<lambda>v. ver_sName v = s) (m_vVersions st)")
  case (Some v)
  with run have "r = Inr v" "st' = st" "w' = w" by (auto simp: findVersionOrCreate_def mbind_def)
  moreover from Some have "v \<in> set (m_vVersions st)" "ver_sName v = s"
    by (auto simp: find_Some_iff)
  moreover have "set (m_vVersions st) = version_obj ` set (t_versions (tbl w))"
    using co mset_eq_setD unfolding coherent_def by fastforce
  ultimately show ?thesis using ok co by (auto simp: version_obj_def)
next
  case None
  have names: "ver_sName ` set (m_vVersions st) = vr_name ` set (t_versions (tbl w))"
    using co mset_eq_setD unfolding coherent_def by (fastforce simp: version_obj_def image_image)
  have new: "s \<notin> vr_name ` set (t_versions (tbl w))"
    unfolding names [symmetric] using None by (auto simp: find_None_iff)
  show ?thesis
  proof (cases r)
    case (Inl e)
    with run None have "with_connection my (\<lambda>c. insertVersion my c s) (st, w) = (Inl e, (st', w'))"
      by (auto simp: findVersionOrCreate_def mbind_Inl_iff)
    then have "same_caches st st' \<and> tbl w' = tbl w"
      by (rule with_connection_throws) (auto dest: insert_throws)
    with Inl ok co show ?thesis by (auto intro: coherent_same_caches)
  next
    case (Inr v)
    with run None obtain st1 where
      "with_connection my (\<lambda>c. insertVersion my c s) (st, w) = (Inr v, (st1, w'))"
      and st': "st' = st1\<lparr>m_vVersions := m_vVersions st1 @ [v]\<rparr>"
      by (auto simp: findVersionOrCreate_def mbind_Inr_iff)
    then obtain c w1 where same: "same_caches st st1" and w1: "tbl w1 = tbl w"
      and ins: "insertVersion my c s w1 = (Inr v, w')" by (auto elim: with_connection_returns)
    from insertVersion_returns [OF ins] w1
    have v: "ver_sName v = s" "fresh_id (ver_nId v) (map vr_id (t_versions (tbl w)))"
      and t: "tbl w' = (tbl w)\<lparr>t_versions := t_versions (tbl w) @ [\<lparr>vr_id = ver_nId v, vr_name = s\<rparr>]\<rparr>"
      by auto
    have "coherent st' (tbl w')"
      using co same v by (auto simp: coherent_def same_caches_def st' t version_obj_def)
    with add_version_ok [OF ok v(2) new] Inr v(1) t show ?thesis by auto
  qed
qed

lemma findGroupOrCreate_ok:
  assumes ok: "db_ok (tbl w)" and co: "coherent st (tbl w)"
    and run: "findGroupOrCreate my s (st, w) = (r, (st', w'))"
  shows "db_ok (tbl w') \<and> coherent st' (tbl w') \<and> extends (tbl w) (tbl w') \<and> stored (tbl w') = stored (tbl w)
     \<and> (\<forall>g. r = Inr g \<longrightarrow> grp_sTitle g = s \<and> grp_nId g \<in> gr_id ` set (t_groups (tbl w')))"
proof (cases "find (\<lambda>g. grp_sTitle g = s) (m_vGroups st)")
  case (Some g)
  with run have "r = Inr g" "st' = st" "w' = w" by (auto simp: findGroupOrCreate_def mbind_def)
  moreover from Some have "g \<in> set (m_vGroups st)" "grp_sTitle g = s"
    by (auto simp: find_Some_iff)
  moreover have "set (m_vGroups st) = group_obj ` set (t_groups (tbl w))"
    using co mset_eq_setD unfolding coherent_def by fastforce
  ultimately show ?thesis using ok co by (auto simp: group_obj_def)
next
  case None
  have names: "grp_sTitle ` set (m_vGroups st) = gr_name ` set (t_groups (tbl w))"
    using co mset_eq_setD unfolding coherent_def by (fastforce simp: group_obj_def image_image)
  have new: "s \<notin> gr_name ` set (t_groups (tbl w))"
    unfolding names [symmetric] using None by (auto simp: find_None_iff)
  show ?thesis
  proof (cases r)
    case (Inl e)
    with run None have "with_connection my (\<lambda>c. insertGroup my c s) (st, w) = (Inl e, (st', w'))"
      by (auto simp: findGroupOrCreate_def mbind_Inl_iff)
    then have "same_caches st st' \<and> tbl w' = tbl w"
      by (rule with_connection_throws) (auto dest: insert_throws)
    with Inl ok co show ?thesis by (auto intro: coherent_same_caches)
  next
    case (Inr g)
    with run None obtain st1 where
      "with_connection my (\<lambda>c. insertGroup my c s) (st, w) = (Inr g, (st1, w'))"
      and st': "st' = st1\<lparr>m_vGroups := m_vGroups st1 @ [g]\<rparr>"
      by (auto simp: findGroupOrCreate_def mbind_Inr_iff)
    then obtain c w1 where same: "same_caches st st1" and w1: "tbl w1 = tbl w"
      and ins: "insertGroup my c s w1 = (Inr g, w')" by (auto elim: with_connection_returns)
    from insertGroup_returns [OF ins] w1
    have g: "grp_sTitle g = s" "fresh_id (grp_nId g) (map gr_id (t_groups (tbl w)))"
      and t: "tbl w' = (tbl w)\<lparr>t_groups := t_groups (tbl w) @ [\<lparr>gr_id = grp_nId g, gr_name = s\<rparr>]\<rparr>"
      by auto
    have "coherent st' (tbl w')"
      using co same g by (auto simp: coherent_def same_caches_def st' t group_obj_def)
    with add_group_ok [OF ok g(2) new] Inr g(1) t show ?thesis by auto
  qed
qed

section \<open>Definitions and files\<close>

lemma int32_ids:
  "p \<in> insert 0 (dr_id ` set (t_defines (tbl w))) \<Longrightarrow> int32 p"
  "v \<in> vr_id ` set (t_versions (tbl w)) \<Longrightarrow> int32 v"
  "g \<in> gr_id ` set (t_groups (tbl w)) \<Longrightarrow> int32 g"
  "is_entry (tbl w) v g f d \<Longrightarrow> int32 f"
  using columns [of w] by (auto simp: int_columns_def is_entry_def int32_def)

lemma findDefineFileIdOrCreate_ok:
  assumes ok: "db_ok (tbl w)" and co: "coherent st (tbl w)"
    and path: "x \<in> set (paths_of (tbl w) p)" "path = x @ ''/'' @ name" and name: "name_ok name"
    and run: "findDefineFileIdOrCreate my path name p (st, w) = (r, (st', w'))"
  shows "db_ok (tbl w') \<and> coherent st' (tbl w') \<and> extends (tbl w) (tbl w') \<and> stored (tbl w') = stored (tbl w)
     \<and> t_versions (tbl w') = t_versions (tbl w) \<and> t_groups (tbl w') = t_groups (tbl w)
     \<and> (\<forall>n. r = Inr n \<longrightarrow> (\<exists>d \<in> set (t_defines (tbl w')). dr_id d = n \<and> dr_path d = path \<and> dr_parent d = p))"
proof (cases "m_mapCacheFileDefinsIds st path")
  case (Some n)
  with run have r: "r = Inr n" "st' = st" "w' = w" by (auto simp: findDefineFileIdOrCreate_def mbind_def)
  have "distinct (map dr_path (t_defines (tbl w)))" using ok by (simp add: db_ok_def)
  from define_index_Some [OF this] Some co obtain d where
    d: "d \<in> set (t_defines (tbl w))" "dr_path d = path" "dr_id d = n" by (auto simp: coherent_def)
  obtain y where y: "y \<in> set (paths_of (tbl w) (dr_parent d))" "dr_path d = y @ ''/'' @ dr_name d"
    "CHR ''/'' \<notin> set (dr_name d)" by (rule define_path [OF ok d(1)])
  with path d name have "y = x" using path_split_unique unfolding name_ok_def by metis
  with paths_of_inj [OF ok path(1)] y have "dr_parent d = p" by auto
  with d r ok co show ?thesis by auto
next
  case None
  have new: "path \<notin> dr_path ` set (t_defines (tbl w))"
    using None co define_index_None unfolding coherent_def by metis
  have p: "int32 p" by (rule int32_ids) (use path in \<open>auto simp: paths_of_def split: if_splits\<close>)
  show ?thesis
  proof (cases r)
    case (Inl e)
    with run None have
      "with_connection my (\<lambda>c. insertDefineFile my c path name p) (st, w) = (Inl e, (st', w'))"
      by (auto simp: findDefineFileIdOrCreate_def mbind_Inl_iff)
    then have "same_caches st st' \<and> tbl w' = tbl w"
      by (rule with_connection_throws) (auto dest: insert_throws)
    with Inl ok co show ?thesis by (auto intro: coherent_same_caches)
  next
    case (Inr n)
    with run None obtain st1 where
      "with_connection my (\<lambda>c. insertDefineFile my c path name p) (st, w) = (Inr n, (st1, w'))"
      and st': "st' = st1\<lparr>m_mapCacheFileDefinsIds := (m_mapCacheFileDefinsIds st1)(path \<mapsto> n)\<rparr>"
      by (auto simp: findDefineFileIdOrCreate_def mbind_Inr_iff)
    then obtain c w1 where same: "same_caches st st1" and w1: "tbl w1 = tbl w"
      and ins: "insertDefineFile my c path name p w1 = (Inr n, w')" by (auto elim: with_connection_returns)
    from insertDefineFile_returns [OF p ins] w1
    have fresh: "fresh_id n (map dr_id (t_defines (tbl w)))" and t: "tbl w' = add_define (tbl w) n path name p"
      by (auto simp: add_define_def)
    have "coherent st' (tbl w')"
      using co same by (auto simp: coherent_def same_caches_def st' t add_define_index(1) [OF new] add_define_index(2))

    with add_define_ok [OF ok fresh new name path] add_define_stored [OF ok fresh] t Inr show ?thesis by auto
  qed
qed

lemma findFileOrCreate_ok:
  assumes ok: "db_ok (tbl w)" and co: "coherent st (tbl w)"
    and refs: "v \<in> vr_id ` set (t_versions (tbl w))" "g \<in> gr_id ` set (t_groups (tbl w))"
    and drow: "d \<in> set (t_defines (tbl w))" "is_entry (tbl w) v g p (dr_parent d)"
    and run: "findFileOrCreate my v g (dr_id d) p (st, w) = (Inr n, (st', w'))"
  shows "db_ok (tbl w') \<and> coherent st' (tbl w') \<and> extends (tbl w) (tbl w')
     \<and> stored (tbl w') = insert (v, g, dr_path d) (stored (tbl w))
     \<and> t_versions (tbl w') = t_versions (tbl w) \<and> t_groups (tbl w') = t_groups (tbl w)
     \<and> is_entry (tbl w') v g n (dr_id d)"
proof -
  let ?k = "(v, g, dr_id d)"
  obtain st1 w1 pc where con: "getConnection my (st, w) = (Inr pc, (st1, w1))"
    using run by (auto simp: findFileOrCreate_def mbind_Inr_iff)
  from getConnection_keeps [OF con] have same: "same_caches st st1" and w1: "tbl w1 = tbl w" by auto
  have co1: "coherent st1 (tbl w)" using coherent_same_caches [OF same co] .
  have keys: "distinct (map file_key (t_files (tbl w)))" using ok by (simp add: db_ok_def)
  show ?thesis
  proof (cases "file_index (tbl w) ?k")
    case (Some i)
    then obtain f where f: "f \<in> set (t_files (tbl w))" "file_key f = ?k" "fr_id f = i"
      using file_index_Some [OF keys] by blast
    have "ModelCacheFilesVersion_findFileId (m_cacheGroups st1) v g (dr_id d) = i"
      using co1 Some by (simp add: coherent_def)
    with run con file_id_pos [OF ok f(1)] f(3) have "n = i" "st' = st1" "w' = w1"
      by (auto simp: findFileOrCreate_def mbind_def Let_def split: if_splits)
    moreover have "(v, g, dr_path d) \<in> stored (tbl w)"
      using f drow unfolding stored_def file_key_def by force
    ultimately show ?thesis
      using ok co1 w1 f by (auto simp: insert_absorb is_entry_def file_key_def)
  next
    case None
    then have new: "?k \<notin> file_key ` set (t_files (tbl w))" by (simp add: file_index_None)
    have "ModelCacheFilesVersion_findFileId (m_cacheGroups st1) v g (dr_id d) = -1"
      using co1 None by (simp add: coherent_def)
    with run con obtain c where ins: "insertFile my c v g (dr_id d) p w1 = (Inr n, w')"
      and st': "st' = st1\<lparr>m_cacheGroups := ModelCacheFilesVersion_add (m_cacheGroups st1) v g (dr_id d) n\<rparr>"
      by (auto simp: findFileOrCreate_def mbind_Inr_iff Let_def deref_def on_snd_eq
          simp del: on_snd_apply split: option.splits)
    have "int32 v" "int32 g" "int32 (dr_id d)" "int32 p"
      using refs drow by (auto intro: int32_ids)
    from insertFile_returns [OF this ins] w1
    have fresh: "fresh_id n (map fr_id (t_files (tbl w)))" and t: "tbl w' = add_file (tbl w) n v g (dr_id d) p"
      by (auto simp: add_file_def)
    have "coherent st' (tbl w')"
      using co1 by (auto simp: coherent_def st' add_file_index [OF new] ModelCacheFilesVersion_find_add t)

    with add_file_ok [OF ok fresh new refs drow(1) refl drow(2)] add_file_stored [OF ok drow(1) refl] t
    show ?thesis by (auto simp: add_file_is_entry)
  qed
qed

text \<open>Whatever happens, a failed call keeps every entry that was stored.\<close>

lemma findFileOrCreate_throws:
  assumes "v \<in> vr_id ` set (t_versions (tbl w))" "g \<in> gr_id ` set (t_groups (tbl w))"
    and "d \<in> set (t_defines (tbl w))" "is_entry (tbl w) v g p (dr_parent d)"
    and run: "findFileOrCreate my v g (dr_id d) p (st, w) = (Inl e, (st', w'))"
  shows "extends (tbl w) (tbl w') \<and> stored (tbl w) \<subseteq> stored (tbl w')"
proof -
  have i: "int32 v" "int32 g" "int32 (dr_id d)" "int32 p"
    using assms(1-4) by (auto intro: int32_ids)
  from run consider st1 w1 where "getConnection my (st, w) = (Inl e, (st1, w1))" "w' = w1"
    | st1 w1 c where "getConnection my (st, w) = (Inr c, (st1, w1))" "w' = w1"
    | st1 w1 c c' where "getConnection my (st, w) = (Inr c, (st1, w1))"
        "insertFile my c' v g (dr_id d) p w1 = (Inl e, w')"
    by (auto simp: findFileOrCreate_def mbind_Inl_iff Let_def deref_def on_snd_eq simp del: on_snd_apply
        split: option.splits if_splits)
  then show ?thesis
  proof cases
    case 3
    from insertFile_throws [OF i 3(2)] getConnection_keeps [OF 3(1)] show ?thesis
      by (elim conjE disjE exE) (simp_all add: extends_new_file)
  qed (auto dest!: getConnection_keeps)
qed

section \<open>Adding a file\<close>

lemma addFile_turn_returns:
  assumes run: "addFile_turn my v g (x, d0, f0) n (st, w) = (Inr (y, d, f), (st1, w1))"
    and ok: "db_ok (tbl w)" and co: "coherent st (tbl w)"
    and dir: "at_dir (tbl w) v g (x, d0, f0)" and name: "CHR ''/'' \<notin> set n"
  shows "db_ok (tbl w1) \<and> coherent st1 (tbl w1) \<and> extends (tbl w) (tbl w1) \<and> at_dir (tbl w1) v g (y, d, f) \<and>
         (if n = '''' then y = x \<and> stored (tbl w1) = stored (tbl w)
          else y = x @ ''/'' @ n \<and> stored (tbl w1) = insert (v, g, y) (stored (tbl w)))"
proof (cases "n = ''''")
  case True
  with assms show ?thesis by (simp add: addFile_turn_simps)
next
  case False
  with run obtain st0 w0 where y: "y = x @ ''/'' @ n"
    and def: "findDefineFileIdOrCreate my y n d0 (st, w) = (Inr d, (st0, w0))"
    and fil: "findFileOrCreate my v g d f0 (st0, w0) = (Inr f, (st1, w1))"
    by (auto simp: addFile_turn_simps mbind_Inr_iff)
  from dir have x: "x \<in> set (paths_of (tbl w) d0)" by (simp add: at_dir_def)
  from False name have "name_ok n" by (simp add: name_ok_def)
  from findDefineFileIdOrCreate_ok [OF ok co x y this def]
  obtain dr where s0: "db_ok (tbl w0)" "coherent st0 (tbl w0)" "extends (tbl w) (tbl w0)"
    "stored (tbl w0) = stored (tbl w)"
    and dr: "dr \<in> set (t_defines (tbl w0))" "dr_id dr = d" "dr_path dr = y" "dr_parent dr = d0"
    by auto
  from extends_at_dir [OF s0(3) dir] have dir0: "v \<in> vr_id ` set (t_versions (tbl w0))"
    "g \<in> gr_id ` set (t_groups (tbl w0))" "is_entry (tbl w0) v g f0 (dr_parent dr)"
    by (auto simp: at_dir_def dr(4))
  from findFileOrCreate_ok [OF s0(1,2) dir0(1,2) dr(1) dir0(3) fil [folded dr(2)]] dr
  have s1: "db_ok (tbl w1)" "coherent st1 (tbl w1)" "extends (tbl w0) (tbl w1)"
    "stored (tbl w1) = insert (v, g, y) (stored (tbl w0))" "is_entry (tbl w1) v g f d"
    "t_versions (tbl w1) = t_versions (tbl w0)" "t_groups (tbl w1) = t_groups (tbl w0)" by auto
  have "y \<in> set (paths_of (tbl w1) d)"
    using extends_paths [OF s1(3) define_in_paths [OF s0(1) dr(1)]] dr by simp
  with s0 s1 dir0 y False show ?thesis by (auto simp: at_dir_def intro: extends_trans)
qed

lemma addFile_turn_throws:
  assumes run: "addFile_turn my v g (x, d0, f0) n (st, w) = (Inl e, (st1, w1))"
    and ok: "db_ok (tbl w)" and co: "coherent st (tbl w)"
    and dir: "at_dir (tbl w) v g (x, d0, f0)" and name: "CHR ''/'' \<notin> set n"
  shows "extends (tbl w) (tbl w1) \<and> stored (tbl w) \<subseteq> stored (tbl w1)"
proof -
  from run have ne: "n \<noteq> ''''" by (auto simp: addFile_turn_simps)
  let ?y = "x @ ''/'' @ n"
  from dir have x: "x \<in> set (paths_of (tbl w) d0)" by (simp add: at_dir_def)
  from ne name have nm: "name_ok n" by (simp add: name_ok_def)
  note def_ok = findDefineFileIdOrCreate_ok [OF ok co x refl nm]
  from run ne consider "findDefineFileIdOrCreate my ?y n d0 (st, w) = (Inl e, (st1, w1))"
    | d st0 w0 where "findDefineFileIdOrCreate my ?y n d0 (st, w) = (Inr d, (st0, w0))"
        "findFileOrCreate my v g d f0 (st0, w0) = (Inl e, (st1, w1))"
    by (auto simp: addFile_turn_simps mbind_Inl_iff mbind_Inr_iff)
  then show ?thesis
  proof cases
    case 1
    from def_ok [OF 1] show ?thesis by simp
  next
    case 2
    from def_ok [OF 2(1)] obtain dr where s0: "extends (tbl w) (tbl w0)" "stored (tbl w0) = stored (tbl w)"
      and dr: "dr \<in> set (t_defines (tbl w0))" "dr_id dr = d" "dr_parent dr = d0" by auto
    from extends_at_dir [OF s0(1) dir] have "v \<in> vr_id ` set (t_versions (tbl w0))"
      "g \<in> gr_id ` set (t_groups (tbl w0))" "is_entry (tbl w0) v g f0 (dr_parent dr)"
      by (auto simp: at_dir_def dr(3))
    from findFileOrCreate_throws [OF this(1,2) dr(1) this(3) 2(2) [folded dr(2)]] s0
    show ?thesis by (auto intro: extends_trans)
  qed
qed

lemma addFile_loop:
  assumes "for_fold ns (x, d0, f0) (addFile_turn my v g) (st, w) = (r, (st', w'))"
    and "db_ok (tbl w)" "coherent st (tbl w)" "at_dir (tbl w) v g (x, d0, f0)"
    and "\<forall>n \<in> set ns. CHR ''/'' \<notin> set n"
  shows "extends (tbl w) (tbl w') \<and> stored (tbl w) \<subseteq> stored (tbl w') \<and>
         (\<forall>acc. r = Inr acc \<longrightarrow> db_ok (tbl w') \<and> coherent st' (tbl w') \<and>
            stored (tbl w') = stored (tbl w) \<union>
              (\<lambda>q. (v, g, x @ q)) ` prefix_paths (filter (\<lambda>n. n \<noteq> '''') ns))"
  using assms
proof (induction ns arbitrary: x d0 f0 st w)
  case (Cons n ns)
  have slash: "CHR ''/'' \<notin> set n" using Cons.prems(5) by simp
  show ?case
  proof (cases "addFile_turn my v g (x, d0, f0) n (st, w)")
    case (fields t st1 w1)
    show ?thesis
    proof (cases t)
      case (Inl e)
      with fields Cons.prems(1) have "r = Inl e" "w' = w1" by (auto simp: mbind_def)
      with addFile_turn_throws [OF _ Cons.prems(2-4) slash] fields Inl show ?thesis by auto
    next
      case (Inr acc)
      then obtain y d f where t: "t = Inr (y, d, f)" by (cases acc) auto
      note s1 = addFile_turn_returns [OF fields [unfolded t] Cons.prems(2-4) slash]
      from fields t Cons.prems(1) have "for_fold ns (y, d, f) (addFile_turn my v g) (st1, w1) = (r, (st', w'))"
        by (simp add: mbind_def)
      from Cons.IH [OF this] s1 Cons.prems(5)
      have "extends (tbl w1) (tbl w') \<and> stored (tbl w1) \<subseteq> stored (tbl w') \<and>
         (\<forall>acc. r = Inr acc \<longrightarrow> db_ok (tbl w') \<and> coherent st' (tbl w') \<and>
            stored (tbl w') = stored (tbl w1) \<union>
              (\<lambda>q. (v, g, y @ q)) ` prefix_paths (filter (\<lambda>n. n \<noteq> '''') ns))" by simp
      with s1 show ?thesis
        by (cases "n = ''''") (auto simp: image_image intro: extends_trans)
    qed
  qed
qed simp

lemma addFile_run:
  assumes run: "addFile my v g p nSize nCompress sMode bIsDir sDate (st, w) = (r, (st', w'))"
    and ok: "db_ok (tbl w)" and co: "coherent st (tbl w)"
    and refs: "v \<in> vr_id ` set (t_versions (tbl w))" "g \<in> gr_id ` set (t_groups (tbl w))"
  shows "extends (tbl w) (tbl w') \<and> stored (tbl w) \<subseteq> stored (tbl w') \<and>
         (r = Inr () \<longrightarrow> db_ok (tbl w') \<and> coherent st' (tbl w') \<and>
            stored (tbl w') = stored (tbl w) \<union> (\<lambda>q. (v, g, q)) ` prefix_paths (stored_names p))"
proof (cases "p = '''' \<or> p = ''/''")
  case True
  with run ok co show ?thesis by (auto simp: addFile_def stored_names_def)
next
  case False
  obtain ts where ts: "WsjcppCore_split (WsjcppCore_doNormalizePath p) ''/'' = Some ts"
    "\<And>t. t \<in> set ts \<Longrightarrow> CHR ''/'' \<notin> set t" by (rule split_slash) auto
  from run False obtain r' where
    loop: "for_fold ts ('''', 0, 0) (addFile_turn my v g) (st, w) = (r', (st', w'))"
    and r: "r = Inr () \<longrightarrow> (\<exists>acc. r' = Inr acc)"
    by (auto simp: addFile_def ts(1) mbind_def split: prod.splits sum.splits)
  have "at_dir (tbl w) v g ('''', 0, 0)"
    using refs by (simp add: at_dir_def paths_of_def is_entry_def)
  from addFile_loop [OF loop ok co this] ts r show ?thesis
    by (auto simp: False stored_names_def)
qed

section \<open>Adding a file that is there\<close>

lemma findDefineFileIdOrCreate_known:
  assumes "db_ok (tbl w)" "coherent st (tbl w)" "d \<in> set (t_defines (tbl w))"
  shows "findDefineFileIdOrCreate my (dr_path d) name p (st, w) = (Inr (dr_id d), (st, w))"
proof -
  have "distinct (map dr_path (t_defines (tbl w)))" using assms(1) by (simp add: db_ok_def)
  then have "define_index (tbl w) (dr_path d) = Some (dr_id d)"
    using assms(3) by (auto simp: define_index_Some)
  with assms(2) show ?thesis by (simp add: findDefineFileIdOrCreate_def mbind_def coherent_def)
qed

lemma findFileOrCreate_known:
  assumes "db_ok (tbl w)" "coherent st (tbl w)" "f \<in> set (t_files (tbl w))" "file_key f = (v, g, d)"
    and "findFileOrCreate my v g d p (st, w) = (r, (st', w'))"
  shows "tbl w' = tbl w \<and> same_caches st st' \<and> (\<forall>n. r = Inr n \<longrightarrow> n = fr_id f)"
proof (cases "getConnection my (st, w)")
  case (fields c st1 w1)
  from getConnection_keeps [OF fields] have same: "same_caches st st1" "tbl w1 = tbl w" by auto
  have "distinct (map file_key (t_files (tbl w)))" using assms(1) by (simp add: db_ok_def)
  then have "file_index (tbl w) (v, g, d) = Some (fr_id f)"
    using assms(3,4) by (auto simp: file_index_Some)
  then have "ModelCacheFilesVersion_findFileId (m_cacheGroups st1) v g d = fr_id f"
    using coherent_same_caches [OF same(1) assms(2)] by (simp add: coherent_def)
  moreover have "fr_id f \<noteq> -1" using file_id_pos [OF assms(1,3)] by simp
  ultimately show ?thesis
    using assms(5) fields same by (auto simp: findFileOrCreate_def mbind_def Let_def split: sum.splits)
qed

lemma addFile_loop_known:
  assumes "for_fold ns (x, d0, f0) (addFile_turn my v g) (st, w) = (r, (st', w'))"
    and "db_ok (tbl w)" "coherent st (tbl w)"
    and "(\<lambda>q. (v, g, x @ q)) ` prefix_paths (filter (\<lambda>n. n \<noteq> '''') ns) \<subseteq> stored (tbl w)"
  shows "tbl w' = tbl w \<and> same_caches st st'"
  using assms
proof (induction ns arbitrary: x d0 f0 st w)
  case (Cons n ns)
  show ?case
  proof (cases "n = ''''")
    case True
    with Cons show ?thesis by (simp add: addFile_turn_simps)
  next
    case False
    from Cons.prems(4) False have "(v, g, x @ ''/'' @ n) \<in> stored (tbl w)" by simp
    then obtain d f where d: "d \<in> set (t_defines (tbl w))" "dr_path d = x @ ''/'' @ n"
      and f: "f \<in> set (t_files (tbl w))" "file_key f = (v, g, dr_id d)"
      by (auto simp: stored_def file_key_def)
    from findDefineFileIdOrCreate_known [OF Cons.prems(2,3) d(1), of n d0]
    have def: "findDefineFileIdOrCreate my (x @ ''/'' @ n) n d0 (st, w) = (Inr (dr_id d), (st, w))"
      by (simp add: d(2))
    show ?thesis
    proof (cases "findFileOrCreate my v g (dr_id d) f0 (st, w)")
      case (fields r1 st1 w1)
      from findFileOrCreate_known [OF Cons.prems(2,3) f fields]
      have s1: "tbl w1 = tbl w" "same_caches st st1" "\<forall>n. r1 = Inr n \<longrightarrow> n = fr_id f" by auto
      show ?thesis
      proof (cases r1)
        case (Inl e)
        with Cons.prems(1) def fields False s1 show ?thesis by (simp add: addFile_turn_simps mbind_def)
      next
        case (Inr i)
        with Cons.prems(1) def fields False
        have rest: "for_fold ns (x @ ''/'' @ n, dr_id d, i) (addFile_turn my v g) (st1, w1) = (r, (st', w'))"
          by (simp add: addFile_turn_simps mbind_def)
        have "tbl w' = tbl w1 \<and> same_caches st1 st'"
          by (rule Cons.IH [OF rest])
             (use Cons.prems False s1 in \<open>auto simp: image_image intro: coherent_same_caches\<close>)
        with s1 show ?thesis by (auto intro: same_caches_trans)
      qed
    qed
  qed
qed simp

lemma addFile_known:
  assumes run: "addFile my v g p nSize nCompress sMode bIsDir sDate (st, w) = (r, (st', w'))"
    and ok: "db_ok (tbl w)" "coherent st (tbl w)"
    and known: "(\<lambda>q. (v, g, q)) ` prefix_paths (stored_names p) \<subseteq> stored (tbl w)"
  shows "tbl w' = tbl w \<and> same_caches st st'"
proof (cases "p = '''' \<or> p = ''/''")
  case True
  with run show ?thesis by (auto simp: addFile_def)
next
  case False
  obtain ts where ts: "WsjcppCore_split (WsjcppCore_doNormalizePath p) ''/'' = Some ts"
    by (rule split_slash) auto
  from run False obtain r' where
    loop: "for_fold ts ('''', 0, 0) (addFile_turn my v g) (st, w) = (r', (st', w'))"
    by (auto simp: addFile_def ts(1) mbind_def split: prod.splits sum.splits)
  from addFile_loop_known [OF loop ok] ts known show ?thesis
    by (simp add: False stored_names_def)
qed

section \<open>Loading the caches\<close>

lemma loadCache_ok:
  assumes run: "MySqlStorage_loadCache my (st, w) = (Inr b, (st', w'))"
    and ok: "db_ok (tbl w)"
    and fresh: "m_mapCacheFileDefinsIds st = Map.empty" "m_cacheGroups st = ModelCacheFilesVersion_new"
    and nul: "\<forall>r \<in> set (t_versions (tbl w)). CHR 0x00 \<notin> set (vr_name r)"
      "\<forall>r \<in> set (t_groups (tbl w)). CHR 0x00 \<notin> set (gr_name r)"
      "\<forall>r \<in> set (t_defines (tbl w)). CHR 0x00 \<notin> set (dr_path r)"
  shows "b \<and> tbl w' = tbl w \<and> coherent st' (tbl w')"
proof -
  from run obtain p st1 w1 c vs w2 gs w3 m w4 fc where
    con: "getConnection my (st, w) = (Inr p, (st1, w1))"
    and vs: "getApiVersionsAll my c w1 = (Inr vs, w2)"
    and gs: "conn_getGroupsAll my c w2 = (Inr gs, w3)"
    and m: "getDefineFilesCache my c (m_mapCacheFileDefinsIds st1) w3 = (Inr m, w4)"
    and fc: "loadFilesIds my c (m_cacheGroups st1) w4 = (Inr fc, w')"
    and st': "st' = st1\<lparr>m_vVersions := vs, m_vGroups := gs, m_mapCacheFileDefinsIds := m, m_cacheGroups := fc\<rparr>"
    and b: "b"
    by (auto simp: MySqlStorage_loadCache_def mbind_Inr_iff deref_def on_snd_eq simp del: on_snd_apply
        split: option.splits)
  have same: "same_caches st st1" "tbl w1 = tbl w" using getConnection_keeps [OF con] by auto
  from vs obtain rv where rv: "mset rv = mset (t_versions (tbl w))" "vs = map model_version rv" "tbl w2 = tbl w"
    using same by (auto elim: getApiVersionsAll_returns)
  from gs obtain rg where rg: "mset rg = mset (t_groups (tbl w))" "gs = map model_group rg" "tbl w3 = tbl w"
    using rv by (auto elim: conn_getGroupsAll_returns)
  from m obtain rd where rd: "mset rd = mset (t_defines (tbl w))" "tbl w4 = tbl w"
    "m = foldl (\<lambda>m r. m(c_str (dr_path r) \<mapsto> dr_id r)) Map.empty rd"
    using rg same fresh by (auto simp: same_caches_def elim: getDefineFilesCache_returns)
  from fc obtain rf where rf: "mset rf = mset (t_files (tbl w))" "tbl w' = tbl w"
    "fc = foldl (\<lambda>fc r. ModelCacheFilesVersion_add fc (fr_version r) (fr_group r) (fr_define r) (fr_id r))
            ModelCacheFilesVersion_new rf"
    using rd same fresh by (auto simp: same_caches_def elim: loadFilesIds_returns)
  have "vs = map version_obj rv" "gs = map group_obj rg"
    using rv rg nul mset_eq_setD [OF rv(1)] mset_eq_setD [OF rg(1)]
    by (auto simp: model_version_def version_obj_def model_group_def group_obj_def)
  then have "mset vs = mset (map version_obj (t_versions (tbl w)))" "mset gs = mset (map group_obj (t_groups (tbl w)))"
    using rv(1) rg(1) by simp_all
  moreover have "m = define_index (tbl w)"
  proof -
    have "m = foldl (\<lambda>m r. m(dr_path r \<mapsto> dr_id r)) Map.empty rd"
      unfolding rd(3) using nul(3) mset_eq_setD [OF rd(1)] by (intro foldl_cong) auto
    also have "\<dots> = define_index (tbl w)"
      unfolding define_index_def using ok rd(1) by (intro map_of_fill) (auto simp: db_ok_def)
    finally show ?thesis .
  qed
  moreover have "ModelCacheFilesVersion_findFileId fc v g d =
      (case file_index (tbl w) (v, g, d) of None \<Rightarrow> -1 | Some i \<Rightarrow> i)" for v g d
    unfolding rf(3) using ok rf(1) by (intro cache_fill) (auto simp: db_ok_def)
  ultimately show ?thesis by (simp add: coherent_def st' b rf(2))
qed

end

end
