(* ===== verification/Reference_Server.thy ===== *)
theory Reference_Server
  imports Storage_Cache
begin

text \<open>
  An executable database that satisfies the laws of \<open>mysql_server\<close>: it reads the text of a query
  back into a statement, piece by piece, and runs the statement on tables held in memory. A plan
  of failures, one flag per query, lets a query fail at a chosen moment. It shows that the laws
  can hold together, and the concrete runs of the development use it.
\<close>

section \<open>Statements\<close>

datatype statement =
    Select_versions
  | Select_groups
  | Select_defines
  | Select_files
  | Comments_of int
  | Groups_of int
  | Files_of int int int
  | File_by_id int
  | Diff_files int int
  | Count_children int
  | Insert_version string
  | Insert_group string
  | Insert_define string string int
  | Insert_file int int int int
  | Set_children int int
  | Insert_comment int string
  | Hide_comment int
  | Last_version
  | Other_statement

section \<open>Reading a query\<close>

fun strip_prefix :: "string \<Rightarrow> string \<Rightarrow> string option" where
  "strip_prefix [] s = Some s"
| "strip_prefix (p # ps) [] = None"
| "strip_prefix (p # ps) (c # cs) = (if p = c then strip_prefix ps cs else None)"

definition read_number :: "string \<Rightarrow> (int \<times> string) option" where
  "read_number s =
     (case s of
        [] \<Rightarrow> None
      | c # cs \<Rightarrow>
          let neg = (c = CHR ''-''); rest = (if neg then cs else s); ds = takeWhile is_digit rest
          in if ds = [] then None
             else Some (if neg then - int (digits_val ds) else int (digits_val ds), dropWhile is_digit rest))"

text \<open>A query text is a sequence of fixed pieces, numbers and string literals.\<close>

datatype piece = Fixed string | Number | Literal

datatype cell = Int_cell int | Str_cell string

fun match_pieces :: "piece list \<Rightarrow> string \<Rightarrow> cell list option" where
  "match_pieces [] s = (if s = [] then Some [] else None)"
| "match_pieces (Fixed p # ps) s =
     (case strip_prefix p s of None \<Rightarrow> None | Some r \<Rightarrow> match_pieces ps r)"
| "match_pieces (Number # ps) s =
     (case read_number s of None \<Rightarrow> None | Some (n, r) \<Rightarrow> map_option ((#) (Int_cell n)) (match_pieces ps r))"
| "match_pieces (Literal # ps) s =
     (case scan_literal s of None \<Rightarrow> None | Some (t, r) \<Rightarrow> map_option ((#) (Str_cell t)) (match_pieces ps r))"

fun cell_int :: "cell \<Rightarrow> int" where
  "cell_int (Int_cell n) = n"
| "cell_int (Str_cell s) = 0"

fun cell_str :: "cell \<Rightarrow> string" where
  "cell_str (Str_cell s) = s"
| "cell_str (Int_cell n) = []"

definition templates :: "((cell list \<Rightarrow> statement) \<times> piece list) list" where
  "templates =
     [(\<lambda>cs. Select_versions, [Fixed ''SELECT id, `name` FROM webdiff_versions ORDER BY `name`'']),
      (\<lambda>cs. Select_groups, [Fixed ''SELECT id, `name` FROM webdiff_file_groups ORDER BY `name`'']),
      (\<lambda>cs. Select_defines, [Fixed '' SELECT id, filepath FROM webdiff_define_files;'']),
      (\<lambda>cs. Select_files, [Fixed '' SELECT id, version_id, define_file_id, file_group_id FROM webdiff_files;'']),
      (\<lambda>cs. Insert_version (cell_str (cs ! 0)), [Fixed '' INSERT INTO webdiff_versions(`name`, comment) VALUES('', Literal,
         Fixed ('','' @ [CHR 0x27, CHR 0x27] @ '');'')]),
      (\<lambda>cs. Insert_group (cell_str (cs ! 0)), [Fixed '' INSERT INTO webdiff_file_groups(`name`) VALUES('', Literal, Fixed '');'']),
      (\<lambda>cs. Insert_define (cell_str (cs ! 0)) (cell_str (cs ! 1)) (cell_int (cs ! 2)), [Fixed '' INSERT INTO webdiff_define_files(filepath, `filename`, parent_id) VALUES('',
         Literal, Fixed '', '', Literal, Fixed '', '', Number, Fixed '');'']),
      (\<lambda>cs. Insert_file (cell_int (cs ! 0)) (cell_int (cs ! 1)) (cell_int (cs ! 2)) (cell_int (cs ! 3)), [Fixed '' INSERT INTO webdiff_files(version_id, file_group_id, define_file_id,  parent_id) VALUES('',
         Number, Fixed '','', Number, Fixed '','', Number, Fixed '','', Number, Fixed '');'']),
      (\<lambda>cs. Insert_comment (cell_int (cs ! 0)) (cell_str (cs ! 1)), [Fixed '' INSERT INTO webdiff_define_files_comments(define_file_id, comment, dt_created) VALUES('',
         Number, Fixed '','', Literal, Fixed '',NOW());'']),
      (\<lambda>cs. Hide_comment (cell_int (cs ! 0)), [Fixed ''  UPDATE webdiff_define_files_comments SET hided = 1 WHERE id = '', Number, Fixed '';'']),
      (\<lambda>cs. Set_children (cell_int (cs ! 0)) (cell_int (cs ! 1)), [Fixed '' UPDATE webdiff_files SET amount_of_children = '', Number, Fixed '' WHERE id = '',
         Number, Fixed '';'']),
      (\<lambda>cs. Count_children (cell_int (cs ! 0)), [Fixed '' SELECT COUNT(id) as cnt FROM webdiff_files WHERE parent_id = '', Number, Fixed '';'']),
      (\<lambda>cs. Comments_of (cell_int (cs ! 0)), [Fixed ('' SELECT   t0.id,   t0.define_file_id,   t0.comment'' @
         '' FROM webdiff_define_files_comments t0 WHERE t0.define_file_id = ''), Number,
         Fixed '' AND hided = 0 ORDER BY dt_created DESC'']),
      (\<lambda>cs. Groups_of (cell_int (cs ! 0)), [Fixed ('' SELECT   version_id,   file_group_id,   `name` as title,   COUNT(*) as amount_of_files'' @
         '' FROM webdiff_files INNER JOIN webdiff_file_groups t1 ON t1.id = file_group_id WHERE version_id = ''), Number,
         Fixed '' GROUP BY version_id, file_group_id'']),
      (\<lambda>cs. Files_of (cell_int (cs ! 0)) (cell_int (cs ! 1)) (cell_int (cs ! 2)), [Fixed ('' SELECT   t0.version_id,   t0.file_group_id,   t0.id as file_id,'' @
         ''   t0.amount_of_children,   t1.filename as title FROM webdiff_files t0'' @
         '' INNER JOIN webdiff_define_files t1 ON t1.id = define_file_id WHERE t0.version_id = ''), Number,
         Fixed '' AND file_group_id = '', Number, Fixed '' AND t0.parent_id = '', Number,
         Fixed '' ORDER BY t0.amount_of_children <> 0 DESC, title'']),
      (\<lambda>cs. File_by_id (cell_int (cs ! 0)), [Fixed ('' SELECT   t0.id,   t0.parent_id,   t0.amount_of_children,   t0.define_file_id,'' @
         ''   t1.filepath,   t1.filename FROM webdiff_files t0'' @
         '' INNER JOIN webdiff_define_files t1 ON t1.id = t0.define_file_id WHERE t0.id = ''), Number, Fixed '';'']),
      (\<lambda>cs. Diff_files (cell_int (cs ! 0)) (cell_int (cs ! 1)), [Fixed (''SELECT     t0.id,     t0.parent_id,     t0.file_group_id,     t0.amount_of_children, '' @
         ''    t2.name as group_name,     t0.define_file_id,     t1.filepath,     t1.filename '' @
         ''FROM webdiff_files t0 INNER JOIN webdiff_define_files t1 ON t1.id = t0.define_file_id '' @
         ''INNER JOIN webdiff_file_groups t2 ON t2.id = t0.file_group_id WHERE   version_id = ''), Number,
         Fixed ''  AND define_file_id NOT IN (SELECT define_file_id FROM webdiff_files t10 WHERE version_id = '', Number,
         Fixed '' AND t0.file_group_id = t10.file_group_id); '']),
      (\<lambda>cs. Last_version, [Fixed ''SELECT version FROM webdiff_db_updates ORDER BY dt DESC, version DESC LIMIT 0,1''])]"

fun parse_with :: "((cell list \<Rightarrow> statement) \<times> piece list) list \<Rightarrow> string \<Rightarrow> statement" where
  "parse_with [] s = Other_statement"
| "parse_with ((k, ps) # ts) s =
     (case match_pieces ps s of Some cs \<Rightarrow> k cs | None \<Rightarrow> parse_with ts s)"

definition parse_sql :: "string \<Rightarrow> statement" where
  "parse_sql s = parse_with templates s"

section \<open>Reading back what the program writes\<close>

lemma digits_split:
  assumes "\<forall>c \<in> set ds. is_digit c" "rest = [] \<or> \<not> is_digit (hd rest)"
  shows "takeWhile is_digit (ds @ rest) = ds" "dropWhile is_digit (ds @ rest) = rest"
  using assms by (induction ds) (auto simp: takeWhile_eq_Nil_iff dropWhile_eq_self_iff)

lemma read_number_to_string:
  assumes "rest = [] \<or> \<not> is_digit (hd rest)"
  shows "read_number (to_string n @ rest) = Some (n, rest)"
proof (cases "n < 0")
  case True
  then show ?thesis
    by (simp add: read_number_def to_string_def Let_def digits_split [OF nat_to_string_digits assms])
next
  case False
  obtain c cs where c: "nat_to_string (nat n) = c # cs"
    by (metis nat_to_string_nonempty neq_Nil_conv)
  then have "c \<noteq> CHR ''-''" using nat_to_string_digits [of "nat n"] digit_not_sign [of c] by auto
  with False digits_split [OF nat_to_string_digits assms, of "nat n"] show ?thesis
    by (simp add: read_number_def to_string_def Let_def c)
       (metis append_Cons c digits_val_nat_to_string nat_0_le not_less)
qed

lemma match_number:
  "rest = [] \<or> \<not> is_digit (hd rest) \<Longrightarrow>
     match_pieces (Number # ps) (to_string n @ rest) = map_option ((#) (Int_cell n)) (match_pieces ps rest)"
  by (simp add: read_number_to_string)

lemma scan_body_rest:
  "scan_body l = Some (s, []) \<Longrightarrow> rest = [] \<or> hd rest \<noteq> CHR 0x22 \<Longrightarrow> scan_body (l @ rest) = Some (s, rest)"
proof (induction l arbitrary: s rule: scan_body.induct)
  case (2 c cs)
  show ?case
  proof (cases cs)
    case Nil
    with 2 show ?thesis by (cases rest) (auto simp: scan_body.simps split: if_splits)
  next
    case (Cons d ds)
    with 2 show ?thesis
      by (auto simp: scan_body.simps(2) [of c] split: if_splits option.splits)
  qed
qed (simp add: scan_body.simps)

lemma scan_literal_rest:
  "scan_literal l = Some (s, []) \<Longrightarrow> rest = [] \<or> hd rest \<noteq> CHR 0x22 \<Longrightarrow>
     scan_literal (l @ rest) = Some (s, rest)"
  by (auto simp: scan_literal_def scan_body_rest split: list.splits if_splits)

lemma match_literal:
  "scan_literal l = Some (s, []) \<Longrightarrow> rest = [] \<or> hd rest \<noteq> CHR 0x22 \<Longrightarrow>
     match_pieces (Literal # ps) (l @ rest) = map_option ((#) (Str_cell s)) (match_pieces ps rest)"
  by (simp add: scan_literal_rest)

lemmas parse_rules =
  parse_sql_def templates_def match_number match_literal is_digit_def

lemma parse_selects [simp]:
  "parse_sql sql_select_versions = Select_versions"
  "parse_sql sql_select_groups = Select_groups"
  "parse_sql sql_select_define_files = Select_defines"
  "parse_sql sql_select_files = Select_files"
  unfolding sql_select_versions_def sql_select_groups_def sql_select_define_files_def sql_select_files_def
  by (simp_all add: parse_sql_def templates_def)

lemma parse_comments_of [simp]: "parse_sql (sql_comments_of d) = Comments_of d"
  unfolding sql_comments_of_def by (simp add: parse_rules del: match_pieces.simps(3,4))

lemma parse_groups_of [simp]: "parse_sql (sql_groups_of_version v) = Groups_of v"
  unfolding sql_groups_of_version_def by (simp add: parse_rules del: match_pieces.simps(3,4))

lemma parse_files_of [simp]: "parse_sql (sql_files_of v g p) = Files_of v g p"
  unfolding sql_files_of_def by (simp add: parse_rules del: match_pieces.simps(3,4))

lemma parse_file_by_id [simp]: "parse_sql (sql_file_by_id i) = File_by_id i"
  unfolding sql_file_by_id_def by (simp add: parse_rules del: match_pieces.simps(3,4))

lemma parse_diff_files [simp]: "parse_sql (sql_diff_files l r) = Diff_files l r"
  unfolding sql_diff_files_def by (simp add: parse_rules del: match_pieces.simps(3,4))

lemma parse_count_children [simp]: "parse_sql (sql_count_children p) = Count_children p"
  unfolding sql_count_children_def by (simp add: parse_rules del: match_pieces.simps(3,4))

lemma parse_set_children [simp]: "parse_sql (sql_set_children k p) = Set_children k p"
  unfolding sql_set_children_def by (simp add: parse_rules del: match_pieces.simps(3,4))

lemma parse_insert_file [simp]: "parse_sql (sql_insert_file v g d p) = Insert_file v g d p"
  unfolding sql_insert_file_def by (simp add: parse_rules del: match_pieces.simps(3,4))

lemma parse_hide_comment [simp]: "parse_sql (sql_hide_comment i) = Hide_comment i"
  unfolding sql_hide_comment_def by (simp add: parse_rules del: match_pieces.simps(3,4))

lemma parse_insert_version:
  "scan_literal l = Some (s, []) \<Longrightarrow> parse_sql (sql_insert_version l) = Insert_version s"
  unfolding sql_insert_version_def by (simp add: parse_rules del: match_pieces.simps(3,4))

lemma parse_insert_group:
  "scan_literal l = Some (s, []) \<Longrightarrow> parse_sql (sql_insert_group l) = Insert_group s"
  unfolding sql_insert_group_def by (simp add: parse_rules del: match_pieces.simps(3,4))

lemma parse_insert_define:
  "scan_literal l = Some (s, []) \<Longrightarrow> scan_literal l' = Some (t, []) \<Longrightarrow>
     parse_sql (sql_insert_define_file l l' p) = Insert_define s t p"
  unfolding sql_insert_define_file_def by (simp add: parse_rules del: match_pieces.simps(3,4))

lemma parse_insert_comment:
  "scan_literal l = Some (s, []) \<Longrightarrow> parse_sql (sql_insert_comment d l) = Insert_comment d s"
  unfolding sql_insert_comment_def by (simp add: parse_rules del: match_pieces.simps(3,4))

section \<open>Running a statement\<close>

record ref_world =
  rw_tables :: tables
  rw_clock :: int
  rw_failures :: "bool list"

definition empty_tables :: tables where
  "empty_tables = \<lparr>t_versions = [], t_groups = [], t_defines = [], t_files = [], t_comments = []\<rparr>"

definition ref_tbl :: "ref_world \<Rightarrow> tables" where
  "ref_tbl w = (if int_columns (rw_tables w) then rw_tables w else empty_tables)"

definition next_id :: "int list \<Rightarrow> int" where
  "next_id ids = 1 + foldr max ids 0"

text \<open>A write that would not fit the columns is refused.\<close>

definition ref_write :: "ref_world \<Rightarrow> int \<Rightarrow> tables \<Rightarrow> mysql_reply \<times> ref_world" where
  "ref_write w n T =
     (if int_columns T \<and> int32 n then (QueryOk [] n, w\<lparr>rw_tables := T\<rparr>)
      else (QueryError ''Out of range value'', w))"

definition ref_run :: "statement \<Rightarrow> ref_world \<Rightarrow> mysql_reply \<times> ref_world" where
  "ref_run k w = (let T = ref_tbl w; rows = (\<lambda>rs. (QueryOk rs 0, w)) in
     case k of
       Select_versions \<Rightarrow> rows (map version_cells (t_versions T))
     | Select_groups \<Rightarrow> rows (map group_cells (t_groups T))
     | Select_defines \<Rightarrow> rows (map define_cells (t_defines T))
     | Select_files \<Rightarrow> rows (map file_cells (t_files T))
     | Comments_of d \<Rightarrow>
         rows (map comment_cells (rev (sort_key cr_created
                 (filter (\<lambda>r. cr_define r = d \<and> cr_hided r = 0) (t_comments T)))))
     | Groups_of v \<Rightarrow> rows (map amount_cells (group_amounts T v))
     | Files_of v g p \<Rightarrow>
         (let fs = filter (\<lambda>(f, d). fr_version f = v \<and> fr_group f = g \<and> fr_parent f = p) (files_with_define T)
          in rows (map title_cells (filter (\<lambda>(f, d). fr_children f \<noteq> 0) fs @ filter (\<lambda>(f, d). fr_children f = 0) fs)))
     | File_by_id i \<Rightarrow> rows (map parent_cells (filter (\<lambda>(f, d). fr_id f = i) (files_with_define T)))
     | Diff_files l r \<Rightarrow> rows (map diff_cells (only_in T l r))
     | Count_children p \<Rightarrow> rows [[int_cell (int (length (children_of T p)))]]
     | Insert_version s \<Rightarrow>
         (let n = next_id (map vr_id (t_versions T))
          in ref_write w n (T\<lparr>t_versions := t_versions T @ [\<lparr>vr_id = n, vr_name = s\<rparr>]\<rparr>))
     | Insert_group s \<Rightarrow>
         (let n = next_id (map gr_id (t_groups T))
          in ref_write w n (T\<lparr>t_groups := t_groups T @ [\<lparr>gr_id = n, gr_name = s\<rparr>]\<rparr>))
     | Insert_define s t p \<Rightarrow>
         (let n = next_id (map dr_id (t_defines T))
          in ref_write w n (T\<lparr>t_defines := t_defines T @ [\<lparr>dr_id = n, dr_path = s, dr_name = t, dr_parent = p\<rparr>]\<rparr>))
     | Insert_file v g d p \<Rightarrow>
         (let n = next_id (map fr_id (t_files T))
          in ref_write w n (T\<lparr>t_files := t_files T @ [new_file n v g d p]\<rparr>))
     | Set_children k p \<Rightarrow>
         ref_write w 0 (T\<lparr>t_files := map (\<lambda>f. if fr_id f = p then f\<lparr>fr_children := k\<rparr> else f) (t_files T)\<rparr>)
     | Insert_comment d s \<Rightarrow>
         (let n = next_id (map cr_id (t_comments T))
          in ref_write w n (T\<lparr>t_comments := t_comments T @
               [\<lparr>cr_id = n, cr_define = d, cr_text = s, cr_created = rw_clock w, cr_hided = 0\<rparr>]\<rparr>))
     | Hide_comment i \<Rightarrow>
         ref_write w 0 (T\<lparr>t_comments := map (\<lambda>r. if cr_id r = i then r\<lparr>cr_hided := 1\<rparr> else r) (t_comments T)\<rparr>)
     | Last_version \<Rightarrow> rows [[int_cell 9]]
     | Other_statement \<Rightarrow> (QueryError ''You have an error in your SQL syntax'', w))"

definition ref_query :: "nat \<Rightarrow> string \<Rightarrow> ref_world \<Rightarrow> mysql_reply \<times> ref_world" where
  "ref_query h q w =
     (case rw_failures w of
        True # fs \<Rightarrow> (QueryError ''Lost connection to MySQL server during query'', w\<lparr>rw_failures := fs\<rparr>)
      | False # fs \<Rightarrow> ref_run (parse_sql q) (w\<lparr>rw_failures := fs\<rparr>)
      | [] \<Rightarrow> ref_run (parse_sql q) w)"

definition reference_mysql :: "ref_world mysql" where
  "reference_mysql =
     \<lparr>mysql_query = ref_query,
      mysql_real_connect = (\<lambda>ho us pa db po w. (Inr 1, w)),
      system_clock_ms = rw_clock,
      this_thread_id = ''main''\<rparr>"

section \<open>The laws hold\<close>

lemma next_id_fresh: "int32 (next_id ids) \<Longrightarrow> fresh_id (next_id ids) ids"
proof -
  have "i \<le> foldr max ids 0" if "i \<in> set ids" for i using that by (induction ids) auto
  moreover have "0 \<le> foldr max ids (0::int)" by (induction ids) auto
  ultimately show "int32 (next_id ids) \<Longrightarrow> ?thesis" by (fastforce simp: fresh_id_def next_id_def)
qed

lemma ref_tbl_columns: "int_columns (ref_tbl w)"
  by (simp add: ref_tbl_def) (simp add: int_columns_def empty_tables_def)

lemma ref_tbl_simps [simp]:
  "ref_tbl (w\<lparr>rw_failures := fs\<rparr>) = ref_tbl w"
  "int_columns T \<Longrightarrow> ref_tbl (w\<lparr>rw_tables := T\<rparr>) = T"
  "int_columns T \<Longrightarrow> ref_tbl (w\<lparr>rw_failures := fs, rw_tables := T\<rparr>) = T"
  by (simp_all add: ref_tbl_def)

lemma ref_write_ok:
  "ref_write w n T = (QueryOk rows m, w') \<Longrightarrow> int32 n \<and> m = n \<and> ref_tbl w' = T"
  by (auto simp: ref_write_def split: if_splits)

lemma ref_write_error: "ref_write w n T = (QueryError e, w') \<Longrightarrow> w' = w"
  by (auto simp: ref_write_def split: if_splits)

lemma ref_run_error: "ref_run k w = (QueryError e, w') \<Longrightarrow> ref_tbl w' = ref_tbl w"
  by (cases k) (auto simp: ref_run_def Let_def dest: ref_write_error)

lemma ref_query_error: "ref_query h q w = (QueryError e, w') \<Longrightarrow> ref_tbl w' = ref_tbl w"
  by (auto simp: ref_query_def dest!: ref_run_error split: list.splits bool.splits)

lemma ref_query_ok:
  assumes "ref_query h q w = (QueryOk rows n, w')"
  obtains w0 where "ref_tbl w0 = ref_tbl w" "ref_run (parse_sql q) w0 = (QueryOk rows n, w')"
proof (cases "rw_failures w")
  case Nil
  with assms show ?thesis by (intro that [of w]) (auto simp: ref_query_def)
next
  case (Cons b fs)
  with assms show ?thesis
    by (intro that [of "w\<lparr>rw_failures := fs\<rparr>"]) (auto simp: ref_query_def split: bool.splits)
qed

lemma reference_mysql_query [simp]: "mysql_query reference_mysql = ref_query"
  "mysql_real_connect reference_mysql = (\<lambda>ho us pa db po w. (Inr 1, w))"
  "system_clock_ms reference_mysql = rw_clock" "this_thread_id reference_mysql = ''main''"
  by (simp_all add: reference_mysql_def)

lemma ref_select_ok:
  assumes "ref_query h q w = (QueryOk rows n, w')"
    and "\<And>w0. ref_tbl w0 = ref_tbl w \<Longrightarrow> ref_run (parse_sql q) w0 = (QueryOk rs 0, w0)"
  shows "ref_tbl w' = ref_tbl w \<and> rows = rs"
  using assms by (auto elim!: ref_query_ok)

lemma sorted_wrt_all: "(\<And>x y. x \<in> set xs \<Longrightarrow> y \<in> set xs \<Longrightarrow> R x y) \<Longrightarrow> sorted_wrt R xs"
  by (induction xs) auto

lemma directories_first:
  "sorted_wrt (\<lambda>(f, _) (f', _). fr_children f' \<noteq> 0 \<longrightarrow> fr_children f \<noteq> 0)
     (filter (\<lambda>(f, d). fr_children f \<noteq> 0) xs @ filter (\<lambda>(f, d). fr_children f = 0) xs)"
  unfolding sorted_wrt_append by (auto intro!: sorted_wrt_all)

lemma mset_partition: "mset (filter (\<lambda>(f, d). P f) xs @ filter (\<lambda>(f, d). \<not> P f) xs) = mset xs"
  by (simp add: case_prod_unfold)

lemma newest_first: "sorted_wrt (\<lambda>a b. cr_created b \<le> cr_created a) (rev (sort_key cr_created xs))"
  unfolding sorted_wrt_rev using sorted_sort_key [of cr_created xs] by (simp only: sorted_map)

lemma ref_selects:
  "ref_query h sql_select_versions w = (QueryOk rows n, w') \<Longrightarrow>
     ref_tbl w' = ref_tbl w \<and> rows = map version_cells (t_versions (ref_tbl w))"
  "ref_query h sql_select_groups w = (QueryOk rows n, w') \<Longrightarrow>
     ref_tbl w' = ref_tbl w \<and> rows = map group_cells (t_groups (ref_tbl w))"
  "ref_query h sql_select_define_files w = (QueryOk rows n, w') \<Longrightarrow>
     ref_tbl w' = ref_tbl w \<and> rows = map define_cells (t_defines (ref_tbl w))"
  "ref_query h sql_select_files w = (QueryOk rows n, w') \<Longrightarrow>
     ref_tbl w' = ref_tbl w \<and> rows = map file_cells (t_files (ref_tbl w))"
  "ref_query h (sql_comments_of d) w = (QueryOk rows n, w') \<Longrightarrow>
     ref_tbl w' = ref_tbl w \<and> rows = map comment_cells (rev (sort_key cr_created
                 (filter (\<lambda>r. cr_define r = d \<and> cr_hided r = 0) (t_comments (ref_tbl w)))))"
  "ref_query h (sql_groups_of_version v) w = (QueryOk rows n, w') \<Longrightarrow>
     ref_tbl w' = ref_tbl w \<and> rows = map amount_cells (group_amounts (ref_tbl w) v)"
  "ref_query h (sql_file_by_id i) w = (QueryOk rows n, w') \<Longrightarrow>
     ref_tbl w' = ref_tbl w \<and> rows = map parent_cells (filter (\<lambda>(f, d). fr_id f = i) (files_with_define (ref_tbl w)))"
  "ref_query h (sql_diff_files l r) w = (QueryOk rows n, w') \<Longrightarrow>
     ref_tbl w' = ref_tbl w \<and> rows = map diff_cells (only_in (ref_tbl w) l r)"
  "ref_query h (sql_count_children p) w = (QueryOk rows n, w') \<Longrightarrow>
     ref_tbl w' = ref_tbl w \<and> rows = [[int_cell (int (length (children_of (ref_tbl w) p)))]]"
  by (erule ref_select_ok, simp add: ref_run_def Let_def)+

lemma ref_files_of:
  assumes "ref_query h (sql_files_of v g p) w = (QueryOk rows n, w')"
  shows "ref_tbl w' = ref_tbl w \<and>
         (\<exists>rs. mset rs = mset (filter (\<lambda>(f, d). fr_version f = v \<and> fr_group f = g \<and> fr_parent f = p)
                                 (files_with_define (ref_tbl w))) \<and>
               sorted_wrt (\<lambda>(f, _) (f', _). fr_children f' \<noteq> 0 \<longrightarrow> fr_children f \<noteq> 0) rs \<and>
               rows = map title_cells rs)"
proof -
  let ?fs = "filter (\<lambda>(f, d). fr_version f = v \<and> fr_group f = g \<and> fr_parent f = p) (files_with_define (ref_tbl w))"
  let ?rs = "filter (\<lambda>(f, d). fr_children f \<noteq> 0) ?fs @ filter (\<lambda>(f, d). fr_children f = 0) ?fs"
  have "ref_tbl w' = ref_tbl w \<and> rows = map title_cells ?rs"
    using assms by (rule ref_select_ok) (simp add: ref_run_def Let_def)
  moreover have "mset ?rs = mset ?fs" using mset_partition [of "\<lambda>f. fr_children f \<noteq> 0" ?fs] by simp
  ultimately show ?thesis using directories_first by blast
qed

lemma ref_insert_version:
  assumes "scan_literal l = Some (s, [])" "ref_query h (sql_insert_version l) w = (QueryOk rows n, w')"
  shows "fresh_id n (map vr_id (t_versions (ref_tbl w))) \<and>
         ref_tbl w' = (ref_tbl w)\<lparr>t_versions := t_versions (ref_tbl w) @ [\<lparr>vr_id = n, vr_name = s\<rparr>]\<rparr>"
  using assms(2)
  by (rule ref_query_ok)
     (auto simp: parse_insert_version [OF assms(1)] ref_run_def Let_def next_id_fresh dest!: ref_write_ok)

lemma ref_insert_group:
  assumes "scan_literal l = Some (s, [])" "ref_query h (sql_insert_group l) w = (QueryOk rows n, w')"
  shows "fresh_id n (map gr_id (t_groups (ref_tbl w))) \<and>
         ref_tbl w' = (ref_tbl w)\<lparr>t_groups := t_groups (ref_tbl w) @ [\<lparr>gr_id = n, gr_name = s\<rparr>]\<rparr>"
  using assms(2)
  by (rule ref_query_ok)
     (auto simp: parse_insert_group [OF assms(1)] ref_run_def Let_def next_id_fresh dest!: ref_write_ok)

lemma ref_insert_define:
  assumes "scan_literal l1 = Some (s1, [])" "scan_literal l2 = Some (s2, [])"
    "ref_query h (sql_insert_define_file l1 l2 p) w = (QueryOk rows n, w')"
  shows "fresh_id n (map dr_id (t_defines (ref_tbl w))) \<and>
         ref_tbl w' = (ref_tbl w)\<lparr>t_defines := t_defines (ref_tbl w) @
                            [\<lparr>dr_id = n, dr_path = s1, dr_name = s2, dr_parent = p\<rparr>]\<rparr>"
  using assms(3)
  by (rule ref_query_ok)
     (auto simp: parse_insert_define [OF assms(1,2)] ref_run_def Let_def next_id_fresh dest!: ref_write_ok)

lemma ref_insert_file:
  assumes "ref_query h (sql_insert_file v g d p) w = (QueryOk rows n, w')"
  shows "fresh_id n (map fr_id (t_files (ref_tbl w))) \<and>
         ref_tbl w' = (ref_tbl w)\<lparr>t_files := t_files (ref_tbl w) @ [new_file n v g d p]\<rparr>"
  using assms
  by (rule ref_query_ok) (auto simp: ref_run_def Let_def next_id_fresh dest!: ref_write_ok)

lemma ref_set_children:
  assumes "ref_query h (sql_set_children k p) w = (QueryOk rows n, w')"
  shows "ref_tbl w' = (ref_tbl w)\<lparr>t_files := map (\<lambda>f. if fr_id f = p then f\<lparr>fr_children := k\<rparr> else f)
                                        (t_files (ref_tbl w))\<rparr>"
  using assms by (rule ref_query_ok) (auto simp: ref_run_def Let_def dest!: ref_write_ok)

lemma ref_insert_comment:
  assumes "scan_literal l = Some (s, [])" "ref_query h (sql_insert_comment d l) w = (QueryOk rows n, w')"
  shows "fresh_id n (map cr_id (t_comments (ref_tbl w))) \<and>
         (\<exists>t. ref_tbl w' = (ref_tbl w)\<lparr>t_comments := t_comments (ref_tbl w) @
                [\<lparr>cr_id = n, cr_define = d, cr_text = s, cr_created = t, cr_hided = 0\<rparr>]\<rparr>)"
  using assms(2)
  by (rule ref_query_ok)
     (auto simp: parse_insert_comment [OF assms(1)] ref_run_def Let_def next_id_fresh dest!: ref_write_ok)

lemma ref_hide_comment:
  assumes "ref_query h (sql_hide_comment i) w = (QueryOk rows n, w')"
  shows "ref_tbl w' = (ref_tbl w)\<lparr>t_comments := map (\<lambda>r. if cr_id r = i then r\<lparr>cr_hided := 1\<rparr> else r)
                                           (t_comments (ref_tbl w))\<rparr>"
  using assms by (rule ref_query_ok) (auto simp: ref_run_def Let_def dest!: ref_write_ok)

interpretation reference: mysql_server reference_mysql ref_tbl
proof (unfold_locales, unfold reference_mysql_query)
  fix d h w rows n w'
  assume "ref_query h (sql_comments_of d) w = (QueryOk rows n, w')"
  from ref_selects(5) [OF this] newest_first show "ref_tbl w' = ref_tbl w \<and>
         (\<exists>rs. mset rs = mset (filter (\<lambda>r. cr_define r = d \<and> cr_hided r = 0) (t_comments (ref_tbl w))) \<and>
               sorted_wrt (\<lambda>a b. cr_created b \<le> cr_created a) rs \<and> rows = map comment_cells rs)"
    by (intro conjI exI [of _ "rev (sort_key cr_created (filter (\<lambda>r. cr_define r = d \<and> cr_hided r = 0)
          (t_comments (ref_tbl w))))"]) simp_all
next
  fix v g p h w rows n w'
  assume "ref_query h (sql_files_of v g p) w = (QueryOk rows n, w')"
  then show "ref_tbl w' = ref_tbl w \<and>
         (\<exists>rs. mset rs = mset (filter (\<lambda>(f, d). fr_version f = v \<and> fr_group f = g \<and> fr_parent f = p)
                                 (files_with_define (ref_tbl w))) \<and>
               sorted_wrt (\<lambda>(f, _) (f', _). fr_children f' \<noteq> 0 \<longrightarrow> fr_children f \<noteq> 0) rs \<and>
               rows = map title_cells rs)" by (rule ref_files_of)
next
  fix i h w rows n w'
  assume "ref_query h (sql_file_by_id i) w = (QueryOk rows n, w')"
  from ref_selects(7) [OF this] show "ref_tbl w' = ref_tbl w \<and>
         (\<exists>rs. mset rs = mset (filter (\<lambda>(f, d). fr_id f = i) (files_with_define (ref_tbl w))) \<and>
               rows = map parent_cells rs)" by blast
qed (auto simp: ref_tbl_columns new_file_def dest: ref_query_error ref_selects ref_files_of ref_insert_version
    ref_insert_group ref_insert_define ref_insert_file ref_set_children ref_insert_comment ref_hide_comment)

end
