(* ===== verification/Storage_Theorems.thy ===== *)
theory Storage_Theorems
  imports Reference_Server
begin

text \<open>
  The properties of adding files and of loading the caches, for every database that satisfies the
  laws of \<open>mysql_server\<close>, with runs on the executable database of \<open>Reference_Server\<close> as witnesses.
\<close>

section \<open>A concrete state\<close>

definition ex_tables :: tables where
  "ex_tables = empty_tables
     \<lparr>t_versions := [\<lparr>vr_id = 1, vr_name = ''1.0''\<rparr>], t_groups := [\<lparr>gr_id = 1, gr_name = ''src''\<rparr>]\<rparr>"

definition ex_world :: ref_world where
  "ex_world = \<lparr>rw_tables = ex_tables, rw_clock = 0, rw_failures = []\<rparr>"

definition ex_storage :: MySqlStorage where
  "ex_storage = (MySqlStorage_new Map.empty)
     \<lparr>m_vVersions := [\<lparr>ver_nId = 1, ver_sName = ''1.0''\<rparr>], m_vGroups := [\<lparr>grp_nId = 1, grp_sTitle = ''src''\<rparr>]\<rparr>"

definition ex_add :: "(cpp_error + unit) \<times> MySqlStorage \<times> ref_world" where
  "ex_add = addFile reference_mysql 1 1 ''/a//b'' 0 0 '''' False '''' (ex_storage, ex_world)"

lemma ex_columns: "int_columns ex_tables"
  by (simp add: ex_tables_def empty_tables_def int_columns_def int32_def)

lemma ex_tbl [simp]: "ref_tbl ex_world = ex_tables"
  using ex_columns by (simp add: ref_tbl_def ex_world_def)

lemma ex_tables_ok: "db_ok ex_tables"
  by (simp add: db_ok_def ex_tables_def empty_tables_def ids_ok_def define_tree_ok_def file_tree_ok_def
      counters_ok_def)

lemma ex_coherent: "coherent ex_storage ex_tables"
  by (simp add: coherent_def ex_storage_def ex_tables_def empty_tables_def MySqlStorage_new_def
      version_obj_def group_obj_def define_index_def file_index_def)

lemma ex_ids: "1 \<in> vr_id ` set (t_versions ex_tables)" "1 \<in> gr_id ` set (t_groups ex_tables)"
  by (simp_all add: ex_tables_def)

lemma ex_stored: "stored ex_tables = {}"
  by (simp add: stored_def ex_tables_def empty_tables_def)

lemma ex_add_returns: "fst ex_add = Inr ()"
  by code_simp

lemma ex_add_run:
  "addFile reference_mysql 1 1 ''/a//b'' 0 0 '''' False '''' (ex_storage, ex_world)
     = (Inr (), (fst (snd ex_add), snd (snd ex_add)))"
  using ex_add_returns by (simp add: ex_add_def prod_eq_iff)

lemma ex_names: "stored_names ''/a//b'' = [''a'', ''b'']"
  by code_simp

text \<open>The same storage when the third query, the count of the children, fails.\<close>

definition ex_half :: "(cpp_error + unit) \<times> MySqlStorage \<times> ref_world" where
  "ex_half = addFile reference_mysql 1 1 ''/a'' 0 0 '''' False ''''
     (ex_storage, ex_world\<lparr>rw_failures := [False, False, True]\<rparr>)"

lemma ex_half_throws:
  "fst ex_half = Inl (Runtime_error ''Problem with database Lost connection to MySQL server during query'')"
  by code_simp

lemma ex_half_run:
  "addFile reference_mysql 1 1 ''/a'' 0 0 '''' False '''' (ex_storage, ex_world\<lparr>rw_failures := [False, False, True]\<rparr>)
     = (Inl (Runtime_error ''Problem with database Lost connection to MySQL server during query''),
        (fst (snd ex_half), snd (snd ex_half)))"
  using ex_half_throws by (simp add: ex_half_def prod_eq_iff)

definition ex_version :: "(cpp_error + ModelVersion) \<times> MySqlStorage \<times> ref_world" where
  "ex_version = findVersionOrCreate reference_mysql ''2.0'' (ex_storage, ex_world)"

definition ex_group :: "(cpp_error + ModelGroup) \<times> MySqlStorage \<times> ref_world" where
  "ex_group = findGroupOrCreate reference_mysql ''src'' (ex_storage, ex_world)"

definition ex_load :: "(cpp_error + bool) \<times> MySqlStorage \<times> ref_world" where
  "ex_load = MySqlStorage_loadCache reference_mysql (MySqlStorage_new Map.empty, ex_world)"

lemma ex_version_value: "fst ex_version = Inr \<lparr>ver_nId = 2, ver_sName = ''2.0''\<rparr>"
  by code_simp

lemma ex_group_value: "fst ex_group = Inr \<lparr>grp_nId = 1, grp_sTitle = ''src''\<rparr>"
  by code_simp

lemma ex_load_returns: "fst ex_load = Inr True"
  by code_simp

lemma ex_connection:
  "getConnection reference_mysql (ex_storage, ex_world) =
     (Inr (Some \<lparr>m_pConnection = 1, m_nCreated = 0\<rparr>),
      (ex_storage\<lparr>m_mapStorageConnections := [''main'' \<mapsto> \<lparr>m_pConnection = 1, m_nCreated = 0\<rparr>]\<rparr>, ex_world))"
  by (simp add: getConnection_def ex_storage_def MySqlStorage_new_def MySqlStorage_connect_def
      MySqlStorageConnection_new_def mbind_def ex_world_def)

section \<open>Adding files\<close>

text \<open>
  C4: \<open>addFile\<close> implements, on any database that follows MySQL's documented behaviour, the abstract
  operation that adds to the stored (version, group, path) entries every non-empty prefix of the
  normalised path, and nothing else; the tables stay consistent (unique identifiers, names, paths
  and file keys, parents that exist and carry the prefix path, counters equal to the number of
  children) and the caches of the storage keep agreeing with them.
\<close>

theorem addFile_refines:
  assumes "mysql_server my tbl" "db_ok (tbl w)" "coherent st (tbl w)"
    and "v \<in> vr_id ` set (t_versions (tbl w))" "g \<in> gr_id ` set (t_groups (tbl w))"
    and "addFile my v g p nSize nCompress sMode bIsDir sDate (st, w) = (Inr (), (st', w'))"
  shows "stored (tbl w') = stored (tbl w) \<union> (\<lambda>q. (v, g, q)) ` prefix_paths (stored_names p) \<and>
         db_ok (tbl w') \<and> coherent st' (tbl w')"
  using mysql_server.addFile_run [OF assms(1,6,2-5)] by simp

theorem addFile_refines_witness:
  "addFile reference_mysql 1 1 ''/a//b'' 0 0 '''' False '''' (ex_storage, ex_world)
     = (Inr (), (fst (snd ex_add), snd (snd ex_add))) \<and>
   stored (ref_tbl (snd (snd ex_add))) = {(1, 1, ''/a''), (1, 1, ''/a/b'')} \<and>
   db_ok (ref_tbl (snd (snd ex_add)))"
  using addFile_refines [OF reference.mysql_server_axioms, of ex_world ex_storage 1 1, unfolded ex_tbl,
      OF ex_tables_ok ex_coherent ex_ids ex_add_run] ex_add_run
  by (simp add: ex_names ex_stored)

text \<open>
  C13: adding a path again changes no table: whatever the second call ends with, the rows are those
  the first call left.
\<close>

theorem addFile_idempotent:
  assumes "mysql_server my tbl" "db_ok (tbl w)" "coherent st (tbl w)"
    and "v \<in> vr_id ` set (t_versions (tbl w))" "g \<in> gr_id ` set (t_groups (tbl w))"
    and "addFile my v g p nSize nCompress sMode bIsDir sDate (st, w) = (Inr (), (st1, w1))"
    and "addFile my v g p nSize' nCompress' sMode' bIsDir' sDate' (st1, w1) = (r, (st2, w2))"
  shows "tbl w2 = tbl w1"
  using mysql_server.addFile_run [OF assms(1,6,2-5)] mysql_server.addFile_known [OF assms(1,7)] by simp

theorem addFile_idempotent_witness:
  "addFile reference_mysql 1 1 ''/a//b'' 0 0 '''' False '''' (ex_storage, ex_world)
     = (Inr (), (fst (snd ex_add), snd (snd ex_add))) \<and>
   ref_tbl (snd (snd (addFile reference_mysql 1 1 ''/a//b'' 7 7 ''rw'' True ''2020'' (snd ex_add))))
     = ref_tbl (snd (snd ex_add))"
proof (cases "addFile reference_mysql 1 1 ''/a//b'' 7 7 ''rw'' True ''2020'' (fst (snd ex_add), snd (snd ex_add))")
  case (fields r st2 w2)
  from addFile_idempotent [OF reference.mysql_server_axioms, of ex_world ex_storage 1 1, unfolded ex_tbl,
      OF ex_tables_ok ex_coherent ex_ids ex_add_run fields]
  show ?thesis using ex_add_run fields by simp
qed

text \<open>
  C12: a call of \<open>addFile\<close> that fails, wherever its queries fail, loses nothing: every row of the
  versions, groups and definitions is still there, every file is still there under the same
  identifier, version, group and definition, and no comment is touched.
\<close>

theorem addFile_loses_nothing:
  assumes "mysql_server my tbl" "db_ok (tbl w)" "coherent st (tbl w)"
    and "v \<in> vr_id ` set (t_versions (tbl w))" "g \<in> gr_id ` set (t_groups (tbl w))"
    and "addFile my v g p nSize nCompress sMode bIsDir sDate (st, w) = (Inl e, (st', w'))"
  shows "extends (tbl w) (tbl w') \<and> stored (tbl w) \<subseteq> stored (tbl w')"
  using mysql_server.addFile_run [OF assms(1,6,2-5)] by simp

theorem addFile_loses_nothing_witness:
  "fst ex_half = Inl (Runtime_error ''Problem with database Lost connection to MySQL server during query'') \<and>
   extends ex_tables (ref_tbl (snd (snd ex_half)))"
  using addFile_loses_nothing [OF reference.mysql_server_axioms, of "ex_world\<lparr>rw_failures := [False, False, True]\<rparr>"
      ex_storage 1 1, unfolded ex_tbl ref_tbl_simps, OF ex_tables_ok ex_coherent ex_ids ex_half_run] ex_half_throws
  by simp


section \<open>Versions and groups\<close>





section \<open>Loading the caches\<close>



section \<open>Connections\<close>

text \<open>
  C20: the connection handed to a thread is the one now recorded for it; it is either at most
  \<open>m_nConnectionOutdatedAfterSeconds\<close> old or was made in this call. The connections of other
  threads stay recorded, a connection that is replaced goes to the list of connections to remove,
  and no cache and no table changes.
\<close>

theorem getConnection_fresh:
  assumes "mysql_server my tbl" "getConnection my (st, w) = (Inr (Some c), (st', w'))"
  shows "m_mapStorageConnections st' (this_thread_id my) = Some c \<and>
         (fst (getConnectionDurationInSeconds my c w) \<in> Inr ` {..m_nConnectionOutdatedAfterSeconds st} \<or>
          m_nCreated c = system_clock_ms my w') \<and>
         (\<forall>t. t \<noteq> this_thread_id my \<longrightarrow> m_mapStorageConnections st' t = m_mapStorageConnections st t) \<and>
         (\<forall>c0. m_mapStorageConnections st (this_thread_id my) = Some c0 \<longrightarrow>
            c = c0 \<and> st' = st \<or> m_vDoRemoveStorageConnections st' = m_vDoRemoveStorageConnections st @ [c0]) \<and>
         same_caches st st' \<and> tbl w' = tbl w"
proof -
  have made: "m_nCreated c' = system_clock_ms my w1 \<and> s1 = s0"
    if "MySqlStorage_connect my (s0, w0) = (Inr (Some c'), (s1, w1))" for c' w1 s0 s1 w0
    using that by (auto simp: MySqlStorage_connect_def MySqlStorageConnection_new_def mbind_def
        split: prod.splits option.splits sum.splits)
  note keeps = mysql_server.getConnection_keeps [OF assms]
  show ?thesis
  proof (cases "m_mapStorageConnections st (this_thread_id my)")
    case None
    with assms(2) obtain st0 where con: "MySqlStorage_connect my (st, w) = (Inr (Some c), (st0, w'))"
      and "st' = st0\<lparr>m_mapStorageConnections := (m_mapStorageConnections st0)(this_thread_id my \<mapsto> c)\<rparr>"
      by (auto simp: getConnection_def mbind_Inr_iff split: option.splits)
    with made [OF con] keeps None show ?thesis by auto
  next
    case (Some c0)
    obtain n where dur: "getConnectionDurationInSeconds my c0 w = (Inr n, w)"
      by (simp add: getConnectionDurationInSeconds_def mbind_def)
    show ?thesis
    proof (cases "n \<le> m_nConnectionOutdatedAfterSeconds st")
      case True
      with assms(2) Some have "c = c0" "st' = st"
        by (auto simp: getConnection_def mbind_Inr_iff dur split: if_splits)
      with Some True keeps dur show ?thesis by simp
    next
      case False
      with assms(2) Some obtain st0 where
        con: "MySqlStorage_connect my (st\<lparr>m_vDoRemoveStorageConnections := m_vDoRemoveStorageConnections st @ [c0]\<rparr>, w)
           = (Inr (Some c), (st0, w'))"
        and "st' = st0\<lparr>m_mapStorageConnections := (m_mapStorageConnections st0)(this_thread_id my \<mapsto> c)\<rparr>"
        by (auto simp: getConnection_def mbind_Inr_iff dur split: if_splits option.splits)
      with made [OF con] Some keeps show ?thesis by auto
    qed
  qed
qed

theorem getConnection_fresh_witness:
  "getConnection reference_mysql (ex_storage, ex_world) =
     (Inr (Some \<lparr>m_pConnection = 1, m_nCreated = 0\<rparr>),
      (ex_storage\<lparr>m_mapStorageConnections := [''main'' \<mapsto> \<lparr>m_pConnection = 1, m_nCreated = 0\<rparr>]\<rparr>, ex_world)) \<and>
   same_caches ex_storage (ex_storage\<lparr>m_mapStorageConnections := [''main'' \<mapsto> \<lparr>m_pConnection = 1, m_nCreated = 0\<rparr>]\<rparr>)"
  using getConnection_fresh [OF reference.mysql_server_axioms ex_connection] ex_connection by simp

text \<open>
  C38: when the environment variable \<open>WEBDIFF_DB_PORT\<close> is set, the constructor leaves the port member
  unassigned, and the first attempt of a thread to connect reads it: the outcome is undefined.
\<close>

theorem db_port_variable_unusable:
  assumes "env ''WEBDIFF_DB_PORT'' = Some sPort"
  shows "getConnection my (MySqlStorage_new env, w) = (Inl Undefined_behaviour, (MySqlStorage_new env, w))"
  using assms by (simp add: getConnection_def MySqlStorage_connect_def MySqlStorage_new_def mbind_def)

theorem db_port_variable_unusable_witness:
  "[''WEBDIFF_DB_PORT'' \<mapsto> ''3306''] ''WEBDIFF_DB_PORT'' = Some ''3306'' \<and>
   fst (getConnection reference_mysql (MySqlStorage_new [''WEBDIFF_DB_PORT'' \<mapsto> ''3306''], ex_world))
     = Inl Undefined_behaviour"
  using db_port_variable_unusable [of "[''WEBDIFF_DB_PORT'' \<mapsto> ''3306'']" "''3306''" reference_mysql ex_world] by simp

end
