(* ===== verification/Diff_Theorems.thy ===== *)
theory Diff_Theorems
  imports Storage_Diff Storage_Theorems
begin

text \<open>
  The properties of the difference of two versions, of the comments and of the listings, for every
  database that satisfies the laws of \<open>mysql_server\<close>, with runs on the executable database as
  witnesses.
\<close>

section \<open>A concrete pair of versions\<close>

text \<open>Version 1 has \<open>/a/b/c\<close>, version 2 has \<open>/a/b\<close> only; one comment on \<open>/a/b/c\<close> is hidden.\<close>

definition diff_tables :: tables where
  "diff_tables =
     \<lparr>t_versions = [\<lparr>vr_id = 1, vr_name = ''1.0''\<rparr>, \<lparr>vr_id = 2, vr_name = ''2.0''\<rparr>],
      t_groups = [\<lparr>gr_id = 1, gr_name = ''src''\<rparr>],
      t_defines = [\<lparr>dr_id = 1, dr_path = ''/a'', dr_name = ''a'', dr_parent = 0\<rparr>,
                   \<lparr>dr_id = 2, dr_path = ''/a/b'', dr_name = ''b'', dr_parent = 1\<rparr>,
                   \<lparr>dr_id = 3, dr_path = ''/a/b/c'', dr_name = ''c'', dr_parent = 2\<rparr>],
      t_files = [\<lparr>fr_id = 1, fr_version = 1, fr_group = 1, fr_define = 1, fr_parent = 0, fr_children = 1\<rparr>,
                 \<lparr>fr_id = 2, fr_version = 1, fr_group = 1, fr_define = 2, fr_parent = 1, fr_children = 1\<rparr>,
                 \<lparr>fr_id = 3, fr_version = 1, fr_group = 1, fr_define = 3, fr_parent = 2, fr_children = 0\<rparr>,
                 \<lparr>fr_id = 4, fr_version = 2, fr_group = 1, fr_define = 1, fr_parent = 0, fr_children = 1\<rparr>,
                 \<lparr>fr_id = 5, fr_version = 2, fr_group = 1, fr_define = 2, fr_parent = 4, fr_children = 0\<rparr>],
      t_comments = [\<lparr>cr_id = 1, cr_define = 3, cr_text = ''gone'', cr_created = 1, cr_hided = 0\<rparr>,
                    \<lparr>cr_id = 2, cr_define = 3, cr_text = ''old'', cr_created = 2, cr_hided = 1\<rparr>]\<rparr>"

definition diff_world :: ref_world where
  "diff_world = \<lparr>rw_tables = diff_tables, rw_clock = 0, rw_failures = []\<rparr>"

definition diff_run :: "(cpp_error + ModelDiffGroups) \<times> MySqlStorage \<times> ref_world" where
  "diff_run = getDiff reference_mysql 1 2 ModelDiffGroups_new (MySqlStorage_new Map.empty, diff_world)"

lemma diff_columns: "int_columns diff_tables"
  by (simp add: diff_tables_def int_columns_def int32_def)

lemma diff_tbl [simp]: "ref_tbl diff_world = diff_tables"
  using diff_columns by (simp add: ref_tbl_def diff_world_def)

lemma diff_tables_ok: "db_ok diff_tables"
  by code_simp

lemma diff_run_files:
  "map_sum id (\<lambda>dg. map (\<lambda>m. (dfile_sFilepath m, dfile_sState m)) (diff_files dg 1)) (fst diff_run)
     = Inr [(''/a/b/c'', ''missing''), (''/a/b'', '''')]"
  by code_simp

section \<open>Differences\<close>

lemma getDiff_run:
  assumes "mysql_server my tbl" "int32 l" "int32 r"
    and "getDiff my l r ModelDiffGroups_new (st, w) = (res, (st', w'))"
  shows "tbl w' = tbl w \<and> same_caches st st' \<and>
         (\<forall>dg. res = Inr dg \<longrightarrow> diff_groups_ok dg \<and> is_difference (tbl w) l r dg) \<and>
         res \<noteq> Inl Does_not_return"
proof (cases res)
  case (Inl e)
  from assms(4) [unfolded getDiff_def Inl] show ?thesis
  proof (cases "getConnection my (st, w)")
    case (fields p st1 w1)
    note keeps = mysql_server.getConnection_keeps [OF assms(1) fields]
    have conn: "p \<noteq> Inl Does_not_return"
      using fields by (auto simp: getConnection_def MySqlStorage_connect_def MySqlStorageConnection_new_def
          getConnectionDurationInSeconds_def mbind_def split: option.splits sum.splits prod.splits if_splits)
    show ?thesis
    proof (cases p)
      case (Inl e1)
      with assms(4) fields keeps conn \<open>res = Inl e\<close> show ?thesis
        by (auto simp: getDiff_def with_connection_def mbind_def)
    next
      case (Inr q)
      show ?thesis
      proof (cases q)
        case None
        with Inr assms(4) fields keeps \<open>res = Inl e\<close> show ?thesis
          by (auto simp: getDiff_def with_connection_def mbind_def deref_def)
      next
        case (Some c)
        with Inr assms(4) fields have "diff_on_connection my l r ModelDiffGroups_new c w1 = (res, w')" "st' = st1"
          by (auto simp: getDiff_def with_connection_def mbind_def deref_def on_snd_eq simp del: on_snd_apply)
        with mysql_server.diff_on_connection_run [OF assms(1-3) this(1)] keeps \<open>res = Inl e\<close> show ?thesis
          by (auto simp: db_error_def)
      qed
    qed
  qed
next
  case (Inr dg)
  with assms(4) obtain c w1 where "same_caches st st'" "tbl w1 = tbl w"
    "diff_on_connection my l r ModelDiffGroups_new c w1 = (Inr dg, w')"
    by (auto simp: getDiff_def elim: mysql_server.with_connection_returns [OF assms(1)])
  with mysql_server.diff_on_connection_run [OF assms(1-3) this(3)] Inr show ?thesis by auto
qed

text \<open>
  C5: \<open>getDiff\<close> changes nothing, its search for parents always ends, and what it returns is the
  difference: in each group, the files that only the left version has, as missing, then the files
  that only the right version has, as new, then the direct parents of these that are not among
  them, without a state; the counters and identifier lists agree with the files, and every file
  definition that occurs carries its comments that are not hidden, newest first.
\<close>

theorem getDiff_is_difference:
  assumes "mysql_server my tbl" "int32 l" "int32 r"
    and "getDiff my l r ModelDiffGroups_new (st, w) = (res, (st', w'))"
  shows "tbl w' = tbl w \<and> same_caches st st' \<and> res \<noteq> Inl Does_not_return \<and>
         (\<forall>dg. res = Inr dg \<longrightarrow> diff_groups_ok dg \<and> is_difference (tbl w) l r dg)"
  using getDiff_run [OF assms] by blast

lemma diff_run_returns: "\<exists>dg. getDiff reference_mysql 1 2 ModelDiffGroups_new (MySqlStorage_new Map.empty, diff_world)
    = (Inr dg, (fst (snd diff_run), snd (snd diff_run)))"
  using diff_run_files by (cases "fst diff_run") (auto simp: diff_run_def prod_eq_iff)

theorem getDiff_is_difference_witness:
  "\<exists>dg. getDiff reference_mysql 1 2 ModelDiffGroups_new (MySqlStorage_new Map.empty, diff_world)
     = (Inr dg, (fst (snd diff_run), snd (snd diff_run))) \<and> is_difference diff_tables 1 2 dg"
proof -
  obtain dg where dg: "getDiff reference_mysql 1 2 ModelDiffGroups_new (MySqlStorage_new Map.empty, diff_world)
      = (Inr dg, (fst (snd diff_run), snd (snd diff_run)))" using diff_run_returns by blast
  have "int32 1" "int32 2" by (simp_all add: int32_def)
  from getDiff_is_difference [OF reference.mysql_server_axioms this dg] dg show ?thesis by auto
qed

text \<open>The paths of a group that are stored for one version and not for the other.\<close>

lemma only_in_paths:
  assumes ok: "db_ok T"
  shows "(\<lambda>(f, d, g). dr_path d) ` set (in_group k (only_in T l r)) =
         {p. (l, k, p) \<in> stored T \<and> (r, k, p) \<notin> stored T}"
proof (intro equalityI subsetI)
  fix p assume "p \<in> (\<lambda>(f, d, g). dr_path d) ` set (in_group k (only_in T l r))"
  then obtain f d where fd: "f \<in> set (t_files T)" "d \<in> set (t_defines T)" "dr_id d = fr_define f"
    "fr_version f = l" "fr_group f = k" "\<not> version_has T r k (dr_id d)" "p = dr_path d"
    by (auto simp: in_group_def only_in_def files_with_define_group_def files_with_define_def)
  moreover have "(r, k, p) \<notin> stored T"
    using fd define_by_path [OF ok] by (fastforce simp: stored_def version_has_def)
  ultimately show "p \<in> {p. (l, k, p) \<in> stored T \<and> (r, k, p) \<notin> stored T}" by (auto simp: stored_def)
next
  fix p assume "p \<in> {p. (l, k, p) \<in> stored T \<and> (r, k, p) \<notin> stored T}"
  then obtain f d where fd: "f \<in> set (t_files T)" "d \<in> set (t_defines T)" "dr_id d = fr_define f"
    "fr_version f = l" "fr_group f = k" "p = dr_path d" "(r, k, p) \<notin> stored T" by (auto simp: stored_def)
  have "\<not> version_has T r k (dr_id d)"
  proof
    assume "version_has T r k (dr_id d)"
    then obtain h where "h \<in> set (t_files T)" "fr_version h = r" "fr_group h = k" "dr_id d = fr_define h"
      by (auto simp: version_has_def)
    with fd(2,6) have "(r, k, p) \<in> stored T" unfolding stored_def by blast
    with fd(7) show False ..
  qed
  moreover obtain g where "g \<in> set (t_groups T)" "gr_id g = k"
    using ok fd(1,5) unfolding db_ok_def file_tree_ok_def by fastforce
  ultimately have "(f, d, g) \<in> set (in_group k (only_in T l r))"
    using fd by (auto simp: in_group_def only_in_def files_with_define_group_def files_with_define_def)
  with fd(6) show "p \<in> (\<lambda>(f, d, g). dr_path d) ` set (in_group k (only_in T l r))" by force
qed

definition paths_in_state :: "string \<Rightarrow> ModelDiffGroups \<Rightarrow> int \<Rightarrow> string set" where
  "paths_in_state s dg k = {dfile_sFilepath m | m. m \<in> set (diff_files dg k) \<and> dfile_sState m = s}"

lemma is_difference_paths:
  assumes "is_difference T l r dg" "db_ok T" and nul: "\<forall>d \<in> set (t_defines T). CHR 0x00 \<notin> set (dr_path d)"
  shows "paths_in_state ''missing'' dg k = {p. (l, k, p) \<in> stored T \<and> (r, k, p) \<notin> stored T}"
    and "paths_in_state ''new'' dg k = {p. (r, k, p) \<in> stored T \<and> (l, k, p) \<notin> stored T}"
proof -
  from assms(1) obtain ms ns xs where files: "diff_files dg k =
      map (row_diff ''missing'') ms @ map (row_diff ''new'') ns @ map (model_diff '''') xs"
    and ms: "mset ms = mset (in_group k (only_in T l r))" and ns: "mset ns = mset (in_group k (only_in T r l))"
    unfolding is_difference_def by blast
  have path: "dfile_sFilepath (row_diff s x) = (\<lambda>(f, d, g). dr_path d) x" if "x \<in> set ms \<union> set ns" for s x
    using that nul mset_eq_setD [OF ms] mset_eq_setD [OF ns]
    by (auto simp: row_diff_def model_diff_def in_group_def only_in_def files_with_define_group_def
        files_with_define_def)
  have state: "dfile_sState (row_diff s x) = s" "dfile_sState (model_diff s y) = s" for s x y
    by (simp_all add: row_diff_def model_diff_def split: prod.splits)
  have image: "paths_in_state s dg k = dfile_sFilepath ` {m \<in> set (diff_files dg k). dfile_sState m = s}" for s
    by (auto simp: paths_in_state_def)
  have "{m \<in> set (diff_files dg k). dfile_sState m = ''missing''} = row_diff ''missing'' ` set ms"
    "{m \<in> set (diff_files dg k). dfile_sState m = ''new''} = row_diff ''new'' ` set ns"
    unfolding files by (auto simp: state)
  then have "paths_in_state ''missing'' dg k = (\<lambda>(f, d, g). dr_path d) ` set ms"
    "paths_in_state ''new'' dg k = (\<lambda>(f, d, g). dr_path d) ` set ns"
    unfolding image by (simp_all add: image_image path cong: image_cong)
  then show "paths_in_state ''missing'' dg k = {p. (l, k, p) \<in> stored T \<and> (r, k, p) \<notin> stored T}"
    "paths_in_state ''new'' dg k = {p. (r, k, p) \<in> stored T \<and> (l, k, p) \<notin> stored T}"
    using only_in_paths [OF assms(2)] mset_eq_setD [OF ms] mset_eq_setD [OF ns] by simp_all
qed




end
