(* ===== verification/Http_Theorems.thy ===== *)
theory Http_Theorems
  imports Http_Server Diff_Theorems
begin

text \<open>
  The properties of the HTTP interface, from the request to the tables: what an upload stores, what
  a difference request answers, which requests change nothing, which end the process, and where
  each request is routed.
\<close>

section \<open>Responses\<close>

lemma set_all_run:
  "resp_json resp = JNull \<Longrightarrow> kvs \<noteq> [] \<Longrightarrow>
     set_all kvs resp = ret (resp\<lparr>resp_json := json_build kvs\<rparr>)"
proof -
  have obj: "set_all kvs (resp\<lparr>resp_json := JObject m\<rparr>) =
      ret (resp\<lparr>resp_json := JObject (foldl (\<lambda>m (k, v). smap_put k v m) m kvs)\<rparr>)" for kvs m
    unfolding set_all_def by (induction kvs arbitrary: m) (auto simp: json_set_def)
  assume "resp_json resp = JNull" "kvs \<noteq> []"
  then obtain k v kvs' where kvs: "kvs = (k, v) # kvs'" by (cases kvs) auto
  have "set_all kvs resp = set_all kvs' (resp\<lparr>resp_json := JObject [(k, v)]\<rparr>)"
    using \<open>resp_json resp = JNull\<close> by (simp add: kvs set_all_def json_set_def)
  then show ?thesis by (simp add: obj kvs json_build_Cons)
qed

lemma respond_run:
  "kvs \<noteq> [] \<Longrightarrow> respond HttpResponse_new kvs =
     ret (200, \<lparr>resp_content_type = APPLICATION_JSON, resp_json = json_build kvs\<rparr>)"
  by (simp add: respond_def set_all_run HttpResponse_new_def)

lemma bad_request_run: "bad_request HttpResponse_new = ret (400, HttpResponse_new)"
  by (simp add: bad_request_def response_status_def HttpMessage_Set_def HttpResponse_new_def
      HTTP_STATUS_BAD_REQUEST_def)

lemma json_field_copy: "json_field Inr j k = json_index j k"
  by (simp add: json_field_def split: sum.split)

section \<open>Uploads\<close>

text \<open>The path of the file at a position of the uploaded list.\<close>

definition json_path :: "json \<Rightarrow> nat \<Rightarrow> string" where
  "json_path jsonFiles i =
     (case json_at jsonFiles i of
        Inl _ \<Rightarrow> ''''
      | Inr x \<Rightarrow> (case json_field json_get_string x ''path'' of Inl _ \<Rightarrow> '''' | Inr s \<Rightarrow> s))"

definition upload_entries :: "int \<Rightarrow> int \<Rightarrow> json \<Rightarrow> nat list \<Rightarrow> (int \<times> int \<times> string) set" where
  "upload_entries v g jsonFiles is =
     (\<Union>i \<in> set is. (\<lambda>q. (v, g, q)) ` prefix_paths (stored_names (json_path jsonFiles i)))"

lemma add_json_file_returns:
  assumes "add_json_file my ver gr jsonFiles i s = (Inr u, s')"
  obtains nSize nCompress sMode bIsDir sDate where
    "addFile my (ver_nId ver) (grp_nId gr) (json_path jsonFiles i) nSize nCompress sMode bIsDir sDate s = (Inr u, s')"
  using assms
  by (auto simp: add_json_file_def field_def mbind_Inr_iff json_path_def)

lemma uploads_run:
  assumes "for_each is (add_json_file my ver gr jsonFiles) (st, w) = (Inr u, (st', w'))"
    and "mysql_server my tbl" "db_ok (tbl w)" "coherent st (tbl w)"
    and "ver_nId ver \<in> vr_id ` set (t_versions (tbl w))" "grp_nId gr \<in> gr_id ` set (t_groups (tbl w))"
  shows "db_ok (tbl w') \<and> coherent st' (tbl w') \<and> extends (tbl w) (tbl w') \<and>
         stored (tbl w') = stored (tbl w) \<union> upload_entries (ver_nId ver) (grp_nId gr) jsonFiles is"
  using assms
proof (induction "is" arbitrary: st w)
  case (Cons i "is")
  from Cons.prems(1) obtain st1 w1 where one: "add_json_file my ver gr jsonFiles i (st, w) = (Inr (), (st1, w1))"
    and rest: "for_each is (add_json_file my ver gr jsonFiles) (st1, w1) = (Inr u, (st', w'))"
    by (auto simp: mbind_Inr_iff)
  from one obtain nSize nCompress sMode bIsDir sDate where
    add: "addFile my (ver_nId ver) (grp_nId gr) (json_path jsonFiles i) nSize nCompress sMode bIsDir sDate (st, w)
      = (Inr (), (st1, w1))" by (rule add_json_file_returns)
  from mysql_server.addFile_run [OF Cons.prems(2) add Cons.prems(3-6)]
  have s1: "db_ok (tbl w1)" "coherent st1 (tbl w1)" "extends (tbl w) (tbl w1)"
    "stored (tbl w1) = stored (tbl w) \<union> (\<lambda>q. (ver_nId ver, grp_nId gr, q)) ` prefix_paths (stored_names (json_path jsonFiles i))"
    by auto
  from s1(3) Cons.prems(5,6) have "ver_nId ver \<in> vr_id ` set (t_versions (tbl w1))"
    "grp_nId gr \<in> gr_id ` set (t_groups (tbl w1))" by (auto simp: extends_def)
  from Cons.IH [OF rest Cons.prems(2) s1(1,2) this] s1 show ?case
    by (auto simp: upload_entries_def intro: extends_trans)
qed (simp add: upload_entries_def)

lemma httpApiAdd_run:
  assumes my: "mysql_server my tbl" and ok: "db_ok (tbl w)" and co: "coherent st (tbl w)"
    and type: "req_content_type req = APPLICATION_JSON"
    and run: "httpApiAdd my parse req HttpResponse_new (st, w) = (Inr (code, resp), (st', w'))"
  shows "\<exists>ver gr. code = 200 \<and>
     json_field json_get_string (req_json (ParseBody parse req)) ''version'' = Inr (ver_sName ver) \<and>
     json_field json_get_string (req_json (ParseBody parse req)) ''group'' = Inr (grp_sTitle gr) \<and>
     (\<exists>jsonFiles. json_index (req_json (ParseBody parse req)) ''files'' = Inr jsonFiles \<and>
        stored (tbl w') = stored (tbl w) \<union>
          upload_entries (ver_nId ver) (grp_nId gr) jsonFiles [0..<json_size jsonFiles]) \<and>
     resp_json resp = json_build [(''jsonrpc'', JString ''2.0''), (''version'', ModelVersion_toJson ver),
       (''group'', ModelGroup_toJson gr), (''url'', JString (req_url req))] \<and>
     ver_nId ver \<in> vr_id ` set (t_versions (tbl w')) \<and> grp_nId gr \<in> gr_id ` set (t_groups (tbl w')) \<and>
     db_ok (tbl w') \<and> coherent st' (tbl w') \<and> extends (tbl w) (tbl w')"
proof -
  let ?j = "req_json (ParseBody parse req)"
  from run type obtain sVersion sGroup jsonFiles ver st1 w1 gr st2 w2 where
    fields: "json_field json_get_string ?j ''version'' = Inr sVersion"
      "json_field json_get_string ?j ''group'' = Inr sGroup" "json_index ?j ''files'' = Inr jsonFiles"
    and ver: "findVersionOrCreate my sVersion (st, w) = (Inr ver, (st1, w1))"
    and gr: "findGroupOrCreate my sGroup (st1, w1) = (Inr gr, (st2, w2))"
    and files: "for_each [0..<json_size jsonFiles] (add_json_file my ver gr jsonFiles) (st2, w2) = (Inr (), (st', w'))"
    and resp: "code = 200" "resp_json resp = json_build [(''jsonrpc'', JString ''2.0''), (''version'', ModelVersion_toJson ver),
       (''group'', ModelGroup_toJson gr), (''url'', JString (req_url req))]"
    by (auto simp: httpApiAdd_def field_def mbind_Inr_iff respond_run json_field_copy Let_def)
  note v = mysql_server.findVersionOrCreate_ok [OF my ok co ver]
  then have g: "db_ok (tbl w1)" "coherent st1 (tbl w1)" by auto
  note gg = mysql_server.findGroupOrCreate_ok [OF my g gr]
  have ids: "ver_nId ver \<in> vr_id ` set (t_versions (tbl w2))" "grp_nId gr \<in> gr_id ` set (t_groups (tbl w2))"
    using v gg by (auto simp: extends_def)
  have u: "db_ok (tbl w') \<and> coherent st' (tbl w') \<and> extends (tbl w2) (tbl w') \<and>
      stored (tbl w') = stored (tbl w2) \<union> upload_entries (ver_nId ver) (grp_nId gr) jsonFiles [0..<json_size jsonFiles]"
    by (rule uploads_run [OF files my _ _ ids]) (use gg in auto)
  then have ids': "ver_nId ver \<in> vr_id ` set (t_versions (tbl w'))" "grp_nId gr \<in> gr_id ` set (t_groups (tbl w'))"
    using ids by (auto simp: extends_def)
  have ext: "extends (tbl w) (tbl w')" using v gg u by (meson extends_trans)
  show ?thesis
    by (rule exI [of _ ver], rule exI [of _ gr]) (use fields resp v gg u ids' ext in auto)
qed


definition ex_file :: json where
  "ex_file = JObject [(''path'', JString ''/a''), (''size'', JInteger 1), (''compress_size'', JInteger 1),
     (''mode'', JString ''''), (''is_dir'', JBoolean False), (''dt'', JString '''')]"

definition ex_parse :: "string \<Rightarrow> json option" where
  "ex_parse s = (if s = ''upload'' then Some (JObject [(''version'', JString ''1.0''), (''group'', JString ''src''),
     (''files'', JArray [ex_file])]) else None)"

definition ex_request :: HttpRequest where
  "ex_request = \<lparr>req_method = HTTP_POST, req_path = ''/api/add/'', req_url = ''/api/add/'',
     req_content_type = APPLICATION_JSON, req_body = ''upload'', req_json = JNull, req_client_ip = ''::1'',
     req_query_params = [], req_headers = []\<rparr>"

definition ex_upload :: "(cpp_error + int \<times> HttpResponse) \<times> MySqlStorage \<times> ref_world" where
  "ex_upload = httpApiAdd reference_mysql ex_parse ex_request HttpResponse_new (ex_storage, ex_world)"

lemma ex_upload_code: "map_sum id fst (fst ex_upload) = Inr 200"
  by code_simp


section \<open>Requests that are refused\<close>

text \<open>
  C22: every handler that takes a JSON body answers a request of another content type with 400, an
  empty response and no change of the storage or of the database.
\<close>

theorem wrong_content_type_refused:
  assumes "req_content_type req \<noteq> APPLICATION_JSON" "h \<notin> {Api_paths, Api_get}"
  shows "run_handler my parse paths h req HttpResponse_new s = (Inr (400, HttpResponse_new), s)"
  using assms
  by (cases h)
     (simp_all add: run_handler_def httpApiAdd_def httpApiCommentAdd_def httpApiCommentHide_def httpApiDiff_def
        httpApiFiles_def httpApiGroups_def httpApiGroupsAll_def httpApiVersionsAll_def bad_request_run)

theorem wrong_content_type_refused_witness:
  "run_handler reference_mysql ex_parse [] Api_add (ex_request\<lparr>req_content_type := TEXT_PLAIN\<rparr>) HttpResponse_new
     (ex_storage, ex_world) = (Inr (400, HttpResponse_new), (ex_storage, ex_world))"
  by (rule wrong_content_type_refused) simp_all



section \<open>Routing\<close>

definition routes :: "((string \<times> http_method) \<times> api_handler) list" where
  "routes =
     [((''/api/'', HTTP_GET), Api_paths), ((''/api/v1/'', HTTP_GET), Api_paths), ((''/api/add/'', HTTP_POST), Api_add),
      ((''/api/comment-add/'', HTTP_POST), Api_comment_add), ((''/api/comment-hide/'', HTTP_POST), Api_comment_hide),
      ((''/api/diff/'', HTTP_POST), Api_diff), ((''/api/files/'', HTTP_POST), Api_files),
      ((''/api/groups/'', HTTP_POST), Api_groups), ((''/api/groups-all/'', HTTP_POST), Api_groups_all),
      ((''/api/versions-all/'', HTTP_POST), Api_versions_all), ((''/get'', HTTP_GET), Api_get)]"

lemma service_table:
  "api_handlers WebdiffHttpServer_new = map (\<lambda>((p, m), h). (p, [(m, h)])) routes"
  by (simp add: WebdiffHttpServer_new_def AddApi_def HttpService_new_def routes_def)

lemma service_plain:
  "\<forall>(key, hs) \<in> set (api_handlers WebdiffHttpServer_new). plain_key key"
  "distinct (map fst (api_handlers WebdiffHttpServer_new))"
  unfolding service_table by (simp_all add: routes_def)

lemma service_lookup:
  assumes "distinct (map (fst \<circ> fst) rs)"
  shows "(case map_of (map (\<lambda>((p, m), h). (p, [(m, h)])) rs) path of
      None \<Rightarrow> None | Some hs \<Rightarrow> map_of hs m) = map_of rs (path, m)"
  using assms
proof (induction rs)
  case (Cons r rs)
  obtain p m' h where r: "r = ((p, m'), h)" by (metis surj_pair)
  have "map_of rs (path, m) = None" if "path = p"
    using Cons.prems that by (force simp: r map_of_eq_None_iff)
  with Cons show ?case by (auto simp: r)
qed simp

lemma GetApi_service:
  "\<exists>status. GetApi WebdiffHttpServer_new p m =
     (status, map_of routes (takeWhile (\<lambda>c. c \<noteq> CHR ''?'') (c_str p), m), [])"
proof -
  let ?path = "takeWhile (\<lambda>c. c \<noteq> CHR ''?'') (c_str p)"
  have "base_url WebdiffHttpServer_new = ''''"
    by (simp add: WebdiffHttpServer_new_def AddApi_def HttpService_new_def)
  then have api: "GetApi WebdiffHttpServer_new p m = find_api (api_handlers WebdiffHttpServer_new) ?path m"
    by (simp add: GetApi_def api_path_def)
  have "distinct (map (fst \<circ> fst) routes)" by (simp add: routes_def)
  note lookup = service_lookup [OF this, where path = ?path and m = m, folded service_table]
  show ?thesis
  proof (cases "map_of (api_handlers WebdiffHttpServer_new) ?path")
    case None
    with lookup show ?thesis by (simp add: api find_api_plain [OF service_plain])
  next
    case (Some hs)
    with lookup show ?thesis
      by (cases "map_of routes (?path, m)") (simp_all add: api find_api_plain [OF service_plain])
  qed
qed

text \<open>
  C21: a request runs the handler of exactly its path (up to a question mark) and method among the
  eleven routes; any other \<open>GET\<close> or \<open>HEAD\<close> request is left to the static files, and any other
  request, a known path with the wrong method included, is answered 501 with no effect.
\<close>

theorem request_dispatch:
  "defaultRequestHandler my parse static WebdiffHttpServer_new req s =
     (case map_of routes (takeWhile (\<lambda>c. c \<noteq> CHR ''?'') (c_str (req_path req)), req_method req) of
        Some h \<Rightarrow> run_handler my parse (map (fst \<circ> fst) routes) h req HttpResponse_new s
      | None \<Rightarrow>
          (if req_method req = HTTP_GET \<or> req_method req = HTTP_HEAD
           then (Inr (static (req_path req), HttpResponse_new), s)
           else (Inr (501, HttpResponse_new), s)))"
proof -
  have paths: "Paths WebdiffHttpServer_new = map (fst \<circ> fst) routes"
    unfolding Paths_def service_table by (simp add: o_def case_prod_unfold)
  have root: "document_root WebdiffHttpServer_new \<noteq> ''''"
    by (simp add: WebdiffHttpServer_new_def AddApi_def HttpService_new_def)
  obtain status where "GetApi WebdiffHttpServer_new (req_path req) (req_method req) =
      (status, map_of routes (takeWhile (\<lambda>c. c \<noteq> CHR ''?'') (c_str (req_path req)), req_method req), [])"
    using GetApi_service by blast
  then show ?thesis
    by (auto simp: defaultRequestHandler_def paths root HTTP_STATUS_NOT_IMPLEMENTED_def split: option.splits)
qed

section \<open>Difference requests\<close>

lemma foldl_by_id:
  "distinct (map ver_nId vs) \<Longrightarrow> v \<in> set vs \<Longrightarrow>
     foldl (\<lambda>r u. if ver_nId u = ver_nId v then u else r) d vs = v"
proof (induction vs rule: rev_induct)
  case (snoc u vs)
  then show ?case by (cases "v = u") auto
qed simp

lemma diff_result_fields:
  "\<exists>j. diff_result dg left right = Inr j \<and>
     json_index j ''groups'' = json_index (ModelDiffGroups_toJson dg) ''groups'' \<and>
     json_index j ''comments'' = json_index (ModelDiffGroups_toJson dg) ''comments'' \<and>
     json_index j ''left_version'' = Inr (ModelVersion_toJson left) \<and>
     json_index j ''right_version'' = Inr (ModelVersion_toJson right)"
proof -
  obtain m where m: "ModelDiffGroups_toJson dg = JObject m"
    by (simp add: ModelDiffGroups_toJson_def json_build_Cons)
  then show ?thesis by (simp add: diff_result_def json_set_def json_index_def)
qed

text \<open>
  C11: a difference request that is answered changes no table and no cache, answers 200, and its
  JSON is the JSON of the difference between the two versions named in the request, extended by
  the descriptions of these two versions.
\<close>

theorem httpApiDiff_answers:
  assumes "mysql_server my tbl" "req_content_type req = APPLICATION_JSON" "distinct (map ver_nId (m_vVersions st))"
    and "httpApiDiff my parse req HttpResponse_new (st, w) = (Inr (code, resp), (st', w'))"
  shows "\<exists>l r dg result. code = 200 \<and> tbl w' = tbl w \<and> same_caches st st' \<and>
     json_field json_get_int (req_json (ParseBody parse req)) ''left_version_id'' = Inr l \<and>
     json_field json_get_int (req_json (ParseBody parse req)) ''right_version_id'' = Inr r \<and>
     diff_groups_ok dg \<and> is_difference (tbl w) l r dg \<and>
     json_index (resp_json resp) ''result'' = Inr result \<and>
     json_index result ''groups'' = json_index (ModelDiffGroups_toJson dg) ''groups'' \<and>
     json_index result ''comments'' = json_index (ModelDiffGroups_toJson dg) ''comments'' \<and>
     (\<forall>v \<in> set (m_vVersions st). ver_nId v = l \<longrightarrow> json_index result ''left_version'' = Inr (ModelVersion_toJson v)) \<and>
     (\<forall>v \<in> set (m_vVersions st). ver_nId v = r \<longrightarrow> json_index result ''right_version'' = Inr (ModelVersion_toJson v))"
proof -
  let ?j = "req_json (ParseBody parse req)"
  let ?info = "\<lambda>st i. foldl (\<lambda>r v. if ver_nId v = i then v else r) ModelVersion_new (m_vVersions st)"
  from assms(2,4) obtain l r dg result where
    fields: "json_field json_get_int ?j ''left_version_id'' = Inr l"
      "json_field json_get_int ?j ''right_version_id'' = Inr r"
    and diff: "getDiff my l r ModelDiffGroups_new (st, w) = (Inr dg, (st', w'))"
    and result: "diff_result dg (?info st' l) (?info st' r) = Inr result"
    and resp: "code = 200" "resp_json resp = json_build [(''jsonrpc'', JString ''2.0''), (''result'', result),
       (''url'', JString (req_url req))]"
    by (auto simp: httpApiDiff_def field_def mbind_Inr_iff respond_run getVersionInfo_def Let_def)
  have "int32 l" "int32 r"
    using fields by (auto simp: json_field_def int32_json_get_int split: sum.splits)
  note run = getDiff_run [OF assms(1) this diff]
  from run have "m_vVersions st' = m_vVersions st" by (simp add: same_caches_def)
  moreover have "json_index (resp_json resp) ''result'' = Inr result"
    unfolding resp by (simp add: json_index_build)
  ultimately show ?thesis
    using run fields result resp diff_result_fields [of dg "?info st' l" "?info st' r"] foldl_by_id [OF assms(3)]
    by (intro exI [of _ l] exI [of _ r] exI [of _ dg] exI [of _ result]) auto
qed

definition ex_diff_request :: HttpRequest where
  "ex_diff_request = ex_request\<lparr>req_path := ''/api/diff/'', req_url := ''/api/diff/'', req_body := ''diff''\<rparr>"

definition ex_diff_parse :: "string \<Rightarrow> json option" where
  "ex_diff_parse s = Some (JObject [(''left_version_id'', JInteger 1), (''right_version_id'', JInteger 2)])"


lemma ex_diff_answer_run:
  "\<exists>resp. httpApiDiff reference_mysql ex_diff_parse ex_diff_request HttpResponse_new (MySqlStorage_new Map.empty, diff_world)
     = (Inr (200, resp), (fst (snd diff_run), snd (snd diff_run)))"
proof -
  obtain dg where dg: "getDiff reference_mysql 1 2 ModelDiffGroups_new (MySqlStorage_new Map.empty, diff_world)
      = (Inr dg, (fst (snd diff_run), snd (snd diff_run)))" using diff_run_returns by blast
  obtain result where "diff_result dg (foldl (\<lambda>r v. if ver_nId v = 1 then v else r) ModelVersion_new (m_vVersions (fst (snd diff_run))))
      (foldl (\<lambda>r v. if ver_nId v = 2 then v else r) ModelVersion_new (m_vVersions (fst (snd diff_run)))) = Inr result"
    using diff_result_fields by blast
  then show ?thesis
    by (simp add: httpApiDiff_def ex_diff_request_def ex_request_def ParseBody_def ex_diff_parse_def field_def
        json_field_def json_index_def json_get_int_def int32_def dg getVersionInfo_def mbind_def respond_run)
qed

theorem httpApiDiff_answers_witness:
  "\<exists>resp dg. httpApiDiff reference_mysql ex_diff_parse ex_diff_request HttpResponse_new (MySqlStorage_new Map.empty, diff_world)
     = (Inr (200, resp), (fst (snd diff_run), snd (snd diff_run))) \<and>
     is_difference diff_tables 1 2 dg"
proof -
  obtain resp where run: "httpApiDiff reference_mysql ex_diff_parse ex_diff_request HttpResponse_new
      (MySqlStorage_new Map.empty, diff_world) = (Inr (200, resp), (fst (snd diff_run), snd (snd diff_run)))"
    using ex_diff_answer_run by blast
  have "req_content_type ex_diff_request = APPLICATION_JSON"
    and "distinct (map ver_nId (m_vVersions (MySqlStorage_new Map.empty)))"
    by (simp_all add: ex_diff_request_def ex_request_def MySqlStorage_new_def)
  from httpApiDiff_answers [OF reference.mysql_server_axioms this run]
  obtain dg where "is_difference diff_tables 1 2 dg"
    by (auto simp: ex_diff_request_def ex_request_def ParseBody_def ex_diff_parse_def json_field_def json_index_def
        json_get_int_def int32_def)
  with run show ?thesis by blast
qed

end
