(* ===== verification/Server_Theorems.thy ===== *)
theory Server_Theorems
  imports Http_Theorems
begin

text \<open>
  The handlers together: every answered request keeps the tables consistent and the caches in
  agreement with them, so this holds after any sequence of requests. And what the smaller
  operations of the storage do: comments, the listing of a directory, the groups of a version.
\<close>

section \<open>Comments are apart from the rest\<close>

lemma comments_apart [simp]:
  "db_ok (T\<lparr>t_comments := cs\<rparr>) = db_ok T" "coherent st (T\<lparr>t_comments := cs\<rparr>) = coherent st T"
  "stored (T\<lparr>t_comments := cs\<rparr>) = stored T"
proof -
  have "paths_of (T\<lparr>t_comments := cs\<rparr>) p = paths_of T p" "is_entry (T\<lparr>t_comments := cs\<rparr>) v g f d = is_entry T v g f d"
    "children_of (T\<lparr>t_comments := cs\<rparr>) i = children_of T i" for p v g f d i
    by (simp_all add: paths_of_def is_entry_def children_of_def)
  then show "db_ok (T\<lparr>t_comments := cs\<rparr>) = db_ok T"
    by (simp add: db_ok_def define_tree_ok_def file_tree_ok_def counters_ok_def)
  show "coherent st (T\<lparr>t_comments := cs\<rparr>) = coherent st T"
    by (simp add: coherent_def define_index_def file_index_def)
  show "stored (T\<lparr>t_comments := cs\<rparr>) = stored T" by (simp add: stored_def)
qed

lemma extends_stored: "extends T T' \<Longrightarrow> db_ok T \<Longrightarrow> stored T \<subseteq> stored T'"
proof
  fix x assume ext: "extends T T'" and ok: "db_ok T" and "x \<in> stored T"
  then obtain f d where x: "x = (fr_version f, fr_group f, dr_path d)" "f \<in> set (t_files T)" "d \<in> set (t_defines T)"
    "dr_id d = fr_define f" by (auto simp: stored_def)
  have "is_entry T (fr_version f) (fr_group f) (fr_id f) (fr_define f)" using x(2) by (auto simp: is_entry_def)
  then have "is_entry T' (fr_version f) (fr_group f) (fr_id f) (fr_define f)" using ext by (simp add: extends_def)
  moreover have "fr_id f \<noteq> 0" using file_id_pos [OF ok x(2)] by simp
  moreover have "d \<in> set (t_defines T')" using ext x(3) by (auto simp: extends_def)
  ultimately obtain q where "q \<in> set (t_files T')" "fr_version q = fr_version f" "fr_group q = fr_group f" "fr_define q = dr_id d"
    using x(4) by (auto simp: is_entry_def)
  then show "x \<in> stored T'" using x(1) \<open>d \<in> set (t_defines T')\<close>
    unfolding stored_def by (intro CollectI exI [of _ q] exI [of _ d]) simp
qed

section \<open>Every answered request\<close>

text \<open>What a request may do to the state.\<close>

definition request_effect :: "('w \<Rightarrow> tables) \<Rightarrow> MySqlStorage \<times> 'w \<Rightarrow> MySqlStorage \<times> 'w \<Rightarrow> bool" where
  "request_effect tbl s s' \<longleftrightarrow>
     (db_ok (tbl (snd s)) \<and> coherent (fst s) (tbl (snd s)) \<longrightarrow>
        db_ok (tbl (snd s')) \<and> coherent (fst s') (tbl (snd s')) \<and> stored (tbl (snd s)) \<subseteq> stored (tbl (snd s')))"

lemma effect_refl: "request_effect tbl s s"
  by (simp add: request_effect_def)

lemma effect_same: "same_caches st st' \<Longrightarrow> tbl w' = tbl w \<Longrightarrow> request_effect tbl (st, w) (st', w')"
  using coherent_same_caches by (auto simp: request_effect_def)

lemma effect_comments:
  "same_caches st st' \<Longrightarrow> tbl w' = (tbl w)\<lparr>t_comments := cs\<rparr> \<Longrightarrow> request_effect tbl (st, w) (st', w')"
  using coherent_same_caches by (auto simp: request_effect_def)

lemma field_returns: "field conv j k s = (Inr x, s') \<longleftrightarrow> json_field conv j k = Inr x \<and> s' = s"
  by (auto simp: field_def)

lemma int32_field: "json_field json_get_int j k = Inr n \<Longrightarrow> int32 n"
  by (auto simp: json_field_def int32_json_get_int split: sum.splits)

lemma respond_keeps: "respond resp kvs s = (r, s') \<Longrightarrow> s' = s"
proof -
  have "keeps id (respond resp kvs :: ('x, _) M)" for resp kvs
    unfolding respond_def set_all_def by (auto intro!: keeps_rules split: prod.splits)
  then show "respond resp kvs s = (r, s') \<Longrightarrow> s' = s" by (metis keepsD id_apply)
qed

lemma bad_request_keeps: "bad_request HttpResponse_new s = (r, s') \<Longrightarrow> s' = s"
  by (simp add: bad_request_run)

context mysql_server
begin

lemma addComment_effect:
  assumes "int32 d" "addComment my d s (st, w) = (Inr m, (st', w'))"
  shows "same_caches st st' \<and> (\<exists>t. tbl w' = (tbl w)\<lparr>t_comments := t_comments (tbl w) @
           [\<lparr>cr_id = cmt_nCommentId m, cr_define = d, cr_text = s, cr_created = t, cr_hided = 0\<rparr>]\<rparr>) \<and>
         cmt_nDefineFileId m = d \<and> cmt_sComment m = s \<and> fresh_id (cmt_nCommentId m) (map cr_id (t_comments (tbl w)))"
proof -
  obtain c w1 where c: "same_caches st st'" "tbl w1 = tbl w" "conn_addComment my c d s w1 = (Inr m, w')"
    using with_connection_returns [OF assms(2) [unfolded addComment_def]] by metis
  then show ?thesis using conn_addComment_returns [OF assms(1) c(3)] by simp
qed

lemma hideComment_effect:
  assumes "int32 i" "hideComment my i (st, w) = (Inr u, (st', w'))"
  shows "same_caches st st' \<and>
         tbl w' = (tbl w)\<lparr>t_comments := map (\<lambda>r. if cr_id r = i then r\<lparr>cr_hided := 1\<rparr> else r) (t_comments (tbl w))\<rparr>"
proof -
  obtain c w1 where c: "same_caches st st'" "tbl w1 = tbl w" "conn_hideComment my c i w1 = (Inr u, w')"
    using with_connection_returns [OF assms(2) [unfolded hideComment_def]] by metis
  then show ?thesis using conn_hideComment_returns [OF assms(1) c(3)] by simp
qed

lemma getFiles_effect:
  assumes "int32 v" "int32 g" "int32 p" "getFiles my v g p (st, w) = (Inr fs, (st', w'))"
  shows "same_caches st st' \<and> tbl w' = tbl w \<and>
         (\<exists>rs. mset rs = mset (filter (\<lambda>(f, d). fr_version f = v \<and> fr_group f = g \<and> fr_parent f = p)
                                 (files_with_define (tbl w))) \<and>
               sorted_wrt (\<lambda>(f, _) (f', _). fr_children f' \<noteq> 0 \<longrightarrow> fr_children f \<noteq> 0) rs \<and> fs = map model_file rs)"
proof -
  obtain c w1 where c: "same_caches st st'" "tbl w1 = tbl w" "conn_getFiles my c v g p w1 = (Inr fs, w')"
    using with_connection_returns [OF assms(4) [unfolded getFiles_def]] by metis
  from conn_getFiles_returns [OF assms(1-3) c(3)] show ?thesis using c(1,2) by auto
qed

lemma getGroups_effect:
  assumes "int32 v" "getGroups my v (st, w) = (Inr gs, (st', w'))"
  shows "same_caches st st' \<and> tbl w' = tbl w \<and> (\<exists>rs. mset rs = mset (group_amounts (tbl w) v) \<and> gs = map model_amount rs)"
proof -
  obtain c w1 where c: "same_caches st st'" "tbl w1 = tbl w" "conn_getGroups my c v w1 = (Inr gs, w')"
    using with_connection_returns [OF assms(2) [unfolded getGroups_def]] by metis
  from conn_getGroups_returns [OF assms(1) c(3)] show ?thesis using c(1,2) by auto
qed

lemma answered_add:
  assumes "httpApiAdd my parse req HttpResponse_new (st, w) = (Inr r, (st', w'))"
  shows "request_effect tbl (st, w) (st', w')"
proof (cases "req_content_type req = APPLICATION_JSON")
  case True
  obtain code resp where r: "r = (code, resp)" by (cases r)
  show ?thesis
    using httpApiAdd_run [OF mysql_server_axioms _ _ True assms [unfolded r]] extends_stored
    by (auto simp: request_effect_def)
next
  case False
  then have "(st', w') = (st, w)" using assms by (auto simp: httpApiAdd_def dest: bad_request_keeps)
  then show ?thesis by (simp add: effect_refl)
qed

lemma answered_comments:
  "httpApiCommentAdd my parse req HttpResponse_new (st, w) = (Inr r, (st', w')) \<Longrightarrow> request_effect tbl (st, w) (st', w')"
  "httpApiCommentHide my parse req HttpResponse_new (st, w) = (Inr r, (st', w')) \<Longrightarrow> request_effect tbl (st, w) (st', w')"
proof -
  assume "httpApiCommentAdd my parse req HttpResponse_new (st, w) = (Inr r, (st', w'))"
  then consider "(st', w') = (st, w)"
    | d s m where "int32 d" "addComment my d s (st, w) = (Inr m, (st', w'))"
    by (auto simp: httpApiCommentAdd_def Let_def mbind_Inr_iff dest!: bad_request_keeps respond_keeps
        intro: int32_field simp: field_returns split: if_splits)
  then show "request_effect tbl (st, w) (st', w')"
    by cases (auto simp: effect_refl dest!: addComment_effect intro: effect_comments)
next
  assume "httpApiCommentHide my parse req HttpResponse_new (st, w) = (Inr r, (st', w'))"
  then consider "(st', w') = (st, w)" | i u where "int32 i" "hideComment my i (st, w) = (Inr u, (st', w'))"
    by (auto simp: httpApiCommentHide_def Let_def mbind_Inr_iff dest!: bad_request_keeps respond_keeps
        intro: int32_field simp: field_returns split: if_splits)
  then show "request_effect tbl (st, w) (st', w')"
    by cases (auto simp: effect_refl dest!: hideComment_effect intro: effect_comments)
qed

lemma answered_reads:
  "httpApiDiff my parse req HttpResponse_new (st, w) = (Inr r, (st', w')) \<Longrightarrow> same_caches st st' \<and> tbl w' = tbl w"
  "httpApiFiles my parse req HttpResponse_new (st, w) = (Inr r, (st', w')) \<Longrightarrow> same_caches st st' \<and> tbl w' = tbl w"
  "httpApiGroups my parse req HttpResponse_new (st, w) = (Inr r, (st', w')) \<Longrightarrow> same_caches st st' \<and> tbl w' = tbl w"
  "httpApiGroupsAll my parse req HttpResponse_new (st, w) = (Inr r, (st', w')) \<Longrightarrow> same_caches st st' \<and> tbl w' = tbl w"
  "httpApiVersionsAll my parse req HttpResponse_new (st, w) = (Inr r, (st', w')) \<Longrightarrow> same_caches st st' \<and> tbl w' = tbl w"
proof -
  assume "httpApiDiff my parse req HttpResponse_new (st, w) = (Inr r, (st', w'))"
  then consider "(st', w') = (st, w)"
    | l rv dg where "int32 l" "int32 rv" "getDiff my l rv ModelDiffGroups_new (st, w) = (Inr dg, (st', w'))"
    by (auto simp: httpApiDiff_def Let_def mbind_Inr_iff getVersionInfo_def dest!: bad_request_keeps respond_keeps
        intro: int32_field simp: field_returns split: if_splits)
  then show "same_caches st st' \<and> tbl w' = tbl w"
  proof cases
    case 2
    from getDiff_run [OF mysql_server_axioms 2] show ?thesis by simp
  qed simp
next
  assume "httpApiFiles my parse req HttpResponse_new (st, w) = (Inr r, (st', w'))"
  then consider "(st', w') = (st, w)"
    | v g p fs where "int32 v" "int32 g" "int32 p" "getFiles my v g p (st, w) = (Inr fs, (st', w'))"
    by (auto simp: httpApiFiles_def Let_def mbind_Inr_iff dest!: bad_request_keeps respond_keeps
        simp: field_returns split: if_splits) (blast intro: int32_field)
  then show "same_caches st st' \<and> tbl w' = tbl w"
  proof cases
    case 2
    from getFiles_effect [OF 2] show ?thesis by simp
  qed simp
next
  assume "httpApiGroups my parse req HttpResponse_new (st, w) = (Inr r, (st', w'))"
  then consider "(st', w') = (st, w)" | v gs where "int32 v" "getGroups my v (st, w) = (Inr gs, (st', w'))"
    by (auto simp: httpApiGroups_def Let_def mbind_Inr_iff dest!: bad_request_keeps respond_keeps
        intro: int32_field simp: field_returns split: if_splits)
  then show "same_caches st st' \<and> tbl w' = tbl w" by cases (auto dest!: getGroups_effect)
next
  assume "httpApiGroupsAll my parse req HttpResponse_new (st, w) = (Inr r, (st', w'))"
  then have "(st', w') = (st, w)"
    by (auto simp: httpApiGroupsAll_def mbind_Inr_iff getGroupsAll_def dest!: bad_request_keeps respond_keeps split: if_splits)
  then show "same_caches st st' \<and> tbl w' = tbl w" by simp
next
  assume "httpApiVersionsAll my parse req HttpResponse_new (st, w) = (Inr r, (st', w'))"
  then have "(st', w') = (st, w)"
    by (auto simp: httpApiVersionsAll_def mbind_Inr_iff getVersionsAll_def dest!: bad_request_keeps respond_keeps split: if_splits)
  then show "same_caches st st' \<and> tbl w' = tbl w" by simp
qed

lemma answered_request:
  assumes "defaultRequestHandler my parse static WebdiffHttpServer_new req s = (Inr r, s')"
  shows "request_effect tbl s s'"
proof -
  obtain st w st' w' where s: "s = (st, w)" "s' = (st', w')" by (cases s, cases s')
  have handler: "request_effect tbl (st, w) (st', w')"
    if "run_handler my parse paths h req' HttpResponse_new (st, w) = (Inr r, (st', w'))" for paths h req'
  proof (cases h)
    case Api_paths
    then show ?thesis using that by (simp add: run_handler_def httpApiV1GetPaths_def effect_refl)
  next
    case Api_add
    then show ?thesis using that answered_add by (auto simp: run_handler_def)
  next
    case Api_comment_add
    then show ?thesis using that answered_comments(1) by (auto simp: run_handler_def)
  next
    case Api_comment_hide
    then show ?thesis using that answered_comments(2) by (auto simp: run_handler_def)
  next
    case Api_get
    have "keeps id (http_get req' HttpResponse_new)"
      unfolding http_get_def set_all_def by (auto intro!: keeps_rules split: prod.splits)
    then show ?thesis using that Api_get by (auto simp: run_handler_def effect_refl dest: keepsD)
  qed (use that in \<open>auto simp: run_handler_def intro!: effect_same dest: answered_reads\<close>)
  show ?thesis
    using assms handler
    by (auto simp: s defaultRequestHandler_def effect_refl split: prod.splits option.splits if_splits)
qed

end

text \<open>
  The states the server can be in after any number of answered requests, in any order. A request
  that is not answered has thrown, which ends the process.
\<close>

inductive serves :: "'w mysql \<Rightarrow> (string \<Rightarrow> json option) \<Rightarrow> (string \<Rightarrow> int) \<Rightarrow> MySqlStorage \<times> 'w \<Rightarrow> MySqlStorage \<times> 'w \<Rightarrow> bool"
  for my parse static s0 where
  serves_start: "serves my parse static s0 s0"
| serves_request:
    "serves my parse static s0 s \<Longrightarrow>
     defaultRequestHandler my parse static WebdiffHttpServer_new req s = (Inr answer, s') \<Longrightarrow>
     serves my parse static s0 s'"

lemma serves_keeps:
  assumes "mysql_server my tbl" "serves my parse static s s'"
  shows "request_effect tbl s s'"
  using assms(2)
proof (induction rule: serves.induct)
  case (serves_request s1 req answer s2)
  then show ?case
    using mysql_server.answered_request [OF assms(1) serves_request(2)] by (auto simp: request_effect_def)
qed (rule effect_refl)

text \<open>
  C2: whatever requests arrive and in whatever order, as long as they are answered: a server that
  starts with consistent tables and caches that agree with them has both after every request, and
  no entry that was ever stored for a version and group is lost.
\<close>

theorem server_invariant:
  assumes "mysql_server my tbl" "serves my parse static (st, w) (st', w')"
    and "db_ok (tbl w)" "coherent st (tbl w)"
  shows "db_ok (tbl w') \<and> coherent st' (tbl w') \<and> stored (tbl w) \<subseteq> stored (tbl w')"
  using serves_keeps [OF assms(1,2)] assms(3,4) by (simp add: request_effect_def)

definition ex_served :: "(cpp_error + int \<times> HttpResponse) \<times> MySqlStorage \<times> ref_world" where
  "ex_served = defaultRequestHandler reference_mysql ex_parse (\<lambda>_. 404) WebdiffHttpServer_new ex_request (ex_storage, ex_world)"

lemma ex_served_code: "map_sum id fst (fst ex_served) = Inr 200"
  by code_simp

lemma ex_served_serves: "serves reference_mysql ex_parse (\<lambda>_. 404) (ex_storage, ex_world) (fst (snd ex_served), snd (snd ex_served))"
proof -
  obtain r where "fst ex_served = Inr r" using ex_served_code by (cases "fst ex_served") auto
  then have "ex_served = (Inr r, (fst (snd ex_served), snd (snd ex_served)))" by (simp add: prod_eq_iff)
  then show ?thesis
    unfolding ex_served_def by (intro serves_request [OF serves_start])
qed

theorem server_invariant_witness:
  "map_sum id fst (fst ex_served) = Inr 200 \<and> db_ok (ref_tbl (snd (snd ex_served))) \<and>
   coherent (fst (snd ex_served)) (ref_tbl (snd (snd ex_served)))"
  using server_invariant [OF reference.mysql_server_axioms ex_served_serves, unfolded ex_tbl, OF ex_tables_ok ex_coherent]
    ex_served_code by simp

section \<open>Comments\<close>

text \<open>The comments of a file definition that a difference shows.\<close>

definition visible_comments :: "tables \<Rightarrow> int \<Rightarrow> (int \<times> string) list" where
  "visible_comments T d = map (\<lambda>r. (cr_id r, cr_text r)) (filter (\<lambda>r. cr_define r = d \<and> cr_hided r = 0) (t_comments T))"

text \<open>
  C17: a comment that was added is visible for its file definition with exactly the text the client
  sent and for no other definition, and hiding it takes exactly this comment away again: every
  other comment, of this and of every other definition, stays visible or hidden as it was. No
  cache and no other table changes.
\<close>

theorem comment_add_hide:
  assumes "mysql_server my tbl" "int32 d"
    and "addComment my d s (st, w) = (Inr m, (st1, w1))"
    and "hideComment my (cmt_nCommentId m) (st1, w1) = (Inr u, (st2, w2))"
  shows "visible_comments (tbl w1) d = visible_comments (tbl w) d @ [(cmt_nCommentId m, s)] \<and>
         (\<forall>d'. d' \<noteq> d \<longrightarrow> visible_comments (tbl w1) d' = visible_comments (tbl w) d') \<and>
         visible_comments (tbl w2) d' = visible_comments (tbl w) d' \<and>
         same_caches st st2 \<and> tbl w2 = (tbl w)\<lparr>t_comments := t_comments (tbl w2)\<rparr>"
proof -
  obtain t where add: "same_caches st st1" "tbl w1 = (tbl w)\<lparr>t_comments := t_comments (tbl w) @
      [\<lparr>cr_id = cmt_nCommentId m, cr_define = d, cr_text = s, cr_created = t, cr_hided = 0\<rparr>]\<rparr>"
    and new: "fresh_id (cmt_nCommentId m) (map cr_id (t_comments (tbl w)))"
    using mysql_server.addComment_effect [OF assms(1-3)] by metis
  have "int32 (cmt_nCommentId m)" using new by (simp add: fresh_id_def)
  note hide = mysql_server.hideComment_effect [OF assms(1) this assms(4)]
  have other: "(if cr_id r = cmt_nCommentId m then r\<lparr>cr_hided := 1\<rparr> else r) = r" if "r \<in> set (t_comments (tbl w))" for r
  proof -
    have "cr_id r \<noteq> cmt_nCommentId m" using new that by (force simp: fresh_id_def)
    then show ?thesis by simp
  qed
  then have "map (\<lambda>r. if cr_id r = cmt_nCommentId m then r\<lparr>cr_hided := 1\<rparr> else r) (t_comments (tbl w)) = t_comments (tbl w)"
    by (simp add: map_idI)
  then show ?thesis
    using add hide same_caches_trans [OF add(1)] by (auto simp: visible_comments_def)
qed

text \<open>A database with one comment, and the two calls on it.\<close>

definition ex_comment :: "(cpp_error + ModelComment) \<times> MySqlStorage \<times> ref_world" where
  "ex_comment = addComment reference_mysql 1 ''look'' (MySqlStorage_new Map.empty, diff_world)"

definition ex_hidden :: "(cpp_error + unit) \<times> MySqlStorage \<times> ref_world" where
  "ex_hidden = hideComment reference_mysql (case fst ex_comment of Inr m \<Rightarrow> cmt_nCommentId m | Inl _ \<Rightarrow> 0) (snd ex_comment)"

lemma ex_comment_returns: "map_sum id cmt_sComment (fst ex_comment) = Inr ''look''" "map_sum id (\<lambda>_. ()) (fst ex_hidden) = Inr ()"
  by code_simp+

theorem comment_add_hide_witness:
  "\<exists>m. fst ex_comment = Inr m \<and>
     visible_comments (ref_tbl (snd (snd ex_comment))) 1 = visible_comments diff_tables 1 @ [(cmt_nCommentId m, ''look'')] \<and>
     visible_comments (ref_tbl (snd (snd ex_hidden))) 1 = visible_comments diff_tables 1"
proof -
  obtain m where m: "fst ex_comment = Inr m" using ex_comment_returns(1) by (cases "fst ex_comment") auto
  obtain u where u: "fst ex_hidden = Inr u" using ex_comment_returns(2) by (cases "fst ex_hidden") auto
  have "addComment reference_mysql 1 ''look'' (MySqlStorage_new Map.empty, diff_world)
      = (Inr m, (fst (snd ex_comment), snd (snd ex_comment)))"
    using m by (simp add: ex_comment_def prod_eq_iff)
  moreover have "hideComment reference_mysql (cmt_nCommentId m) (fst (snd ex_comment), snd (snd ex_comment))
      = (Inr u, (fst (snd ex_hidden), snd (snd ex_hidden)))"
    using m u by (simp add: ex_hidden_def prod_eq_iff)
  moreover have "int32 1" by (simp add: int32_def)
  ultimately show ?thesis
    using comment_add_hide [OF reference.mysql_server_axioms, where d' = 1] m diff_tbl by metis
qed

section \<open>Listings\<close>

lemma filter_unique:
  "distinct (map g xs) \<Longrightarrow> filter (\<lambda>x. g x = k) xs = [] \<or> (\<exists>x. filter (\<lambda>x. g x = k) xs = [x])"
proof (induction xs)
  case (Cons x xs)
  have "filter (\<lambda>y. g y = g x) xs = []" using Cons.prems by (auto simp: filter_empty_conv image_iff)
  then show ?case using Cons by auto
qed simp

lemma join_distinct:
  assumes "distinct (map dr_id ds)" "distinct (map fr_id fs)"
  shows "distinct (map (fr_id \<circ> fst) [(f, d). f \<leftarrow> fs, d \<leftarrow> ds, dr_id d = fr_define f])"
  using assms(2)
proof (induction fs)
  case (Cons f fs)
  have row: "concat (map (\<lambda>d. if dr_id d = fr_define f then [(f, d)] else []) ds) = map (Pair f) (filter (\<lambda>d. dr_id d = fr_define f) ds)"
    by (induction ds) auto
  consider "filter (\<lambda>d. dr_id d = fr_define f) ds = []" | d where "filter (\<lambda>d. dr_id d = fr_define f) ds = [d]"
    using filter_unique [OF assms(1), of "fr_define f"] by blast
  moreover have "[(f, d). f \<leftarrow> f # fs, d \<leftarrow> ds, dr_id d = fr_define f] =
      map (Pair f) (filter (\<lambda>d. dr_id d = fr_define f) ds) @ [(f, d). f \<leftarrow> fs, d \<leftarrow> ds, dr_id d = fr_define f]"
    by (simp add: row)
  ultimately show ?case
    using Cons by cases (simp_all only:, auto)
qed simp

lemma files_with_define_ids:
  "db_ok T \<Longrightarrow> distinct (map (fr_id \<circ> fst) (files_with_define T))"
  unfolding files_with_define_def by (rule join_distinct) (simp_all add: db_ok_def ids_ok_def)

text \<open>
  C18: the listing of a directory: \<open>getFiles\<close> changes nothing and returns exactly the files of the
  version and group whose parent is the given file, each once with the name of its definition and
  its number of children, those with children before those without.
\<close>

theorem getFiles_lists_children:
  assumes "mysql_server my tbl" "db_ok (tbl w)" "int32 v" "int32 g" "int32 p"
    and "getFiles my v g p (st, w) = (Inr fs, (st', w'))"
  shows "tbl w' = tbl w \<and> same_caches st st' \<and> distinct (map file_nFileId fs) \<and>
         (\<lambda>m. (file_nFileId m, file_sTitle m)) ` set fs =
           {(fr_id f, c_str (dr_name d)) |f d. f \<in> set (t_files (tbl w)) \<and> d \<in> set (t_defines (tbl w)) \<and> dr_id d = fr_define f \<and>
              fr_version f = v \<and> fr_group f = g \<and> fr_parent f = p} \<and>
         (\<forall>m \<in> set fs. file_nAmountOfChildren m = int (length (children_of (tbl w) (file_nFileId m)))) \<and>
         sorted_wrt (\<lambda>a b. file_nAmountOfChildren b \<noteq> 0 \<longrightarrow> file_nAmountOfChildren a \<noteq> 0) fs"
proof -
  let ?P = "\<lambda>(f, d). fr_version f = v \<and> fr_group f = g \<and> fr_parent f = p"
  obtain rs where rs: "mset rs = mset (filter ?P (files_with_define (tbl w)))"
    "sorted_wrt (\<lambda>(f, _) (f', _). fr_children f' \<noteq> 0 \<longrightarrow> fr_children f \<noteq> 0) rs" "fs = map model_file rs"
    and same: "same_caches st st'" "tbl w' = tbl w"
    using mysql_server.getFiles_effect [OF assms(1,3-6)] by blast
  have rows: "set rs = set (filter ?P (files_with_define (tbl w)))" using rs(1) by (rule mset_eq_setD)
  have model [simp]: "file_nFileId (model_file x) = fr_id (fst x)" "file_sTitle (model_file x) = c_str (dr_name (snd x))"
    "file_nAmountOfChildren (model_file x) = fr_children (fst x)" for x
    by (cases x, simp add: model_file_def)+
  have "distinct (map (fr_id \<circ> fst) (filter ?P (files_with_define (tbl w))))"
    using files_with_define_ids [OF assms(2)] by (rule distinct_map_filter)
  moreover have "mset (map (fr_id \<circ> fst) rs) = mset (map (fr_id \<circ> fst) (filter ?P (files_with_define (tbl w))))"
    using rs(1) by (simp only: mset_map)
  ultimately have "distinct (map file_nFileId fs)"
    using mset_eq_imp_distinct_iff by (fastforce simp: rs(3) o_def)
  moreover have "(\<lambda>m. (file_nFileId m, file_sTitle m)) ` set fs =
      {(fr_id f, c_str (dr_name d)) |f d. f \<in> set (t_files (tbl w)) \<and> d \<in> set (t_defines (tbl w)) \<and> dr_id d = fr_define f \<and>
         fr_version f = v \<and> fr_group f = g \<and> fr_parent f = p}"
    unfolding rs(3) set_map image_image model rows by (force simp: files_with_define_def)
  moreover have "\<forall>m \<in> set fs. file_nAmountOfChildren m = int (length (children_of (tbl w) (file_nFileId m)))"
    using assms(2) rows by (auto simp: rs(3) db_ok_def counters_ok_def files_with_define_def)
  moreover have "sorted_wrt (\<lambda>a b. file_nAmountOfChildren b \<noteq> 0 \<longrightarrow> file_nAmountOfChildren a \<noteq> 0) fs"
    using rs(2) by (simp add: rs(3) sorted_wrt_map case_prod_unfold)
  ultimately show ?thesis using same by blast
qed

lemma ex_listing_returns:
  "map_sum id (map file_nFileId) (fst (getFiles reference_mysql 1 1 2 (MySqlStorage_new Map.empty, diff_world))) = Inr [3]"
  by code_simp

theorem getFiles_lists_children_witness:
  "\<exists>fs. fst (getFiles reference_mysql 1 1 2 (MySqlStorage_new Map.empty, diff_world)) = Inr fs \<and>
     map file_nFileId fs = [3] \<and> (\<forall>m \<in> set fs. file_nAmountOfChildren m = int (length (children_of diff_tables (file_nFileId m))))"
proof -
  obtain fs st' w' where run: "getFiles reference_mysql 1 1 2 (MySqlStorage_new Map.empty, diff_world) = (Inr fs, (st', w'))"
    and fs: "map file_nFileId fs = [3]"
    using ex_listing_returns
    by (cases "getFiles reference_mysql 1 1 2 (MySqlStorage_new Map.empty, diff_world)"; cases "fst (getFiles reference_mysql 1 1 2 (MySqlStorage_new Map.empty, diff_world))") auto
  have "int32 1" "int32 2" by (simp_all add: int32_def)
  then have "\<forall>m \<in> set fs. file_nAmountOfChildren m = int (length (children_of diff_tables (file_nFileId m)))"
    using getFiles_lists_children [OF reference.mysql_server_axioms, of diff_world, unfolded diff_tbl, OF diff_tables_ok _ _ _ run] by blast
  then show ?thesis using run fs by simp
qed

text \<open>
  C19: the groups of a version: \<open>getGroups\<close> changes nothing and returns each group that has a file
  in the version, once, with the number of its files there, and no other group.
\<close>

theorem getGroups_counts_files:
  assumes "mysql_server my tbl" "db_ok (tbl w)" "int32 v" "getGroups my v (st, w) = (Inr gs, (st', w'))"
  shows "tbl w' = tbl w \<and> same_caches st st' \<and> distinct (map gfv_nGroupId gs) \<and>
         (\<lambda>m. (gfv_nGroupId m, gfv_nVersionId m, gfv_nAmountOfFiles m)) ` set gs =
           {(gr_id g, v, int n) |g n. g \<in> set (t_groups (tbl w)) \<and> n \<noteq> 0 \<and>
              n = length (filter (\<lambda>f. fr_version f = v \<and> fr_group f = gr_id g) (t_files (tbl w)))}"
proof -
  obtain rs where rs: "mset rs = mset (group_amounts (tbl w) v)" "gs = map model_amount rs"
    and same: "same_caches st st'" "tbl w' = tbl w"
    using mysql_server.getGroups_effect [OF assms(1,3,4)] by blast
  have rows: "set rs = set (group_amounts (tbl w) v)" using rs(1) by (rule mset_eq_setD)
  have model [simp]: "gfv_nGroupId (model_amount x) = gr_id (fst (snd x))" "gfv_nVersionId (model_amount x) = fst x"
    "gfv_nAmountOfFiles (model_amount x) = snd (snd x)" for x
    by (cases x, simp add: model_amount_def)+
  have "distinct (map (gr_id \<circ> (fst \<circ> snd)) (group_amounts (tbl w) v))"
    using assms(2) by (simp add: group_amounts_def o_def db_ok_def ids_ok_def distinct_map_filter)
  moreover have "mset (map (gr_id \<circ> (fst \<circ> snd)) rs) = mset (map (gr_id \<circ> (fst \<circ> snd)) (group_amounts (tbl w) v))"
    using rs(1) by (simp only: mset_map)
  ultimately have "distinct (map gfv_nGroupId gs)"
    using mset_eq_imp_distinct_iff by (fastforce simp: rs(2) o_def)
  moreover have "(\<lambda>m. (gfv_nGroupId m, gfv_nVersionId m, gfv_nAmountOfFiles m)) ` set gs =
      {(gr_id g, v, int n) |g n. g \<in> set (t_groups (tbl w)) \<and> n \<noteq> 0 \<and>
         n = length (filter (\<lambda>f. fr_version f = v \<and> fr_group f = gr_id g) (t_files (tbl w)))}"
    unfolding rs(2) set_map image_image model rows
    by (auto simp: group_amounts_def image_iff filter_empty_conv) blast
  ultimately show ?thesis using same by blast
qed

lemma ex_groups_returns:
  "map_sum id (map gfv_nAmountOfFiles) (fst (getGroups reference_mysql 1 (MySqlStorage_new Map.empty, diff_world))) = Inr [3]"
  by code_simp

theorem getGroups_counts_files_witness:
  "\<exists>gs. fst (getGroups reference_mysql 1 (MySqlStorage_new Map.empty, diff_world)) = Inr gs \<and>
     map gfv_nAmountOfFiles gs = [3] \<and> distinct (map gfv_nGroupId gs)"
proof -
  obtain gs st' w' where run: "getGroups reference_mysql 1 (MySqlStorage_new Map.empty, diff_world) = (Inr gs, (st', w'))"
    and gs: "map gfv_nAmountOfFiles gs = [3]"
    using ex_groups_returns
    by (cases "getGroups reference_mysql 1 (MySqlStorage_new Map.empty, diff_world)"; cases "fst (getGroups reference_mysql 1 (MySqlStorage_new Map.empty, diff_world))") auto
  have "int32 1" by (simp add: int32_def)
  then have "distinct (map gfv_nGroupId gs)"
    using getGroups_counts_files [OF reference.mysql_server_axioms, of diff_world, unfolded diff_tbl, OF diff_tables_ok _ run] by blast
  then show ?thesis using run gs by simp
qed

end
