(* ===== verification/Ws_Server.thy ===== *)
theory Ws_Server
  imports Json Mysql_Connection
begin

text \<open>
  \<open>WebdiffWsServer\<close> (\<open>src/server/webdiff_ws_server.cpp\<close>) and \<open>PlayerContext\<close>
  (\<open>src/server/player_context.cpp\<close>): web-socket connections, their timers, the sessions shared
  between connections, and the messages of the protocol.

  Objects created with \<open>new\<close> live in a store \<open>m_players\<close>; a connection and the session map hold
  addresses, so two connections with the same token work on the same object. The timers of the
  event loop are a map from timer identifiers to the channel whose callback they run;
  identifiers are handed out in ascending order. \<open>m_sent\<close> collects what was sent on each channel.
  The text of a message is turned into a JSON value by the parameter \<open>parse\<close>. The server runs one
  event loop, so the callbacks are steps that do not overlap. Log output is left out.
\<close>

section \<open>State\<close>

record PlayerContext =
  m_nPlayerX :: int
  m_nPlayerY :: int

definition PlayerContext_new :: PlayerContext where
  "PlayerContext_new = \<lparr>m_nPlayerX = 2147483647, m_nPlayerY = 2147483647\<rparr>"

record VvWsConnectionContext =
  m_nTimerID :: "nat option"
  m_pPlayerContext :: "nat option"

definition VvWsConnectionContext_new :: VvWsConnectionContext where
  "VvWsConnectionContext_new = \<lparr>m_nTimerID = None, m_pPlayerContext = None\<rparr>"

record WebdiffWsServer =
  m_mapSessions :: "string \<rightharpoonup> nat"
  m_players :: "nat \<rightharpoonup> PlayerContext"
  m_nNextPlayer :: nat
  m_contexts :: "nat \<rightharpoonup> VvWsConnectionContext"
  m_timers :: "nat \<rightharpoonup> nat"
  m_nNextTimer :: nat
  m_sent :: "(nat \<times> json) list"

definition WebdiffWsServer_new :: WebdiffWsServer where
  "WebdiffWsServer_new =
     \<lparr>m_mapSessions = Map.empty, m_players = Map.empty, m_nNextPlayer = 0, m_contexts = Map.empty,
      m_timers = Map.empty, m_nNextTimer = 1, m_sent = []\<rparr>"

type_synonym 'a W = "(WebdiffWsServer, 'a) M"

section \<open>Opening, closing and the timer\<close>

definition ws_send :: "nat \<Rightarrow> json \<Rightarrow> unit W" where
  "ws_send ch j = modify (\<lambda>s. s\<lparr>m_sent := m_sent s @ [(ch, j)]\<rparr>)"

text \<open>\<open>onopen\<close>: a new context, and a timer that sends the time every second.\<close>

definition ws_onopen :: "nat \<Rightarrow> unit W" where
  "ws_onopen ch =
     modify (\<lambda>s. s\<lparr>m_contexts := (m_contexts s)(ch \<mapsto> VvWsConnectionContext_new\<lparr>m_nTimerID := Some (m_nNextTimer s)\<rparr>),
                     m_timers := (m_timers s)(m_nNextTimer s \<mapsto> ch),
                     m_nNextTimer := Suc (m_nNextTimer s)\<rparr>)"

definition ws_tick :: "string \<Rightarrow> nat \<Rightarrow> unit W" where
  "ws_tick time ch = ws_send ch (json_build [(''id'', JString ''sync''), (''result'', JString time)])"

definition context_of :: "nat \<Rightarrow> VvWsConnectionContext W" where
  "context_of ch =
     mbind (gets m_contexts) (\<lambda>m. case m ch of None \<Rightarrow> throw Null_pointer | Some c \<Rightarrow> ret c)"

definition ws_onclose :: "nat \<Rightarrow> unit W" where
  "ws_onclose ch =
     mbind (context_of ch) (\<lambda>ctx.
     mbind (case m_nTimerID ctx of
              None \<Rightarrow> ret ()
            | Some t \<Rightarrow> modify (\<lambda>s. s\<lparr>m_timers := (m_timers s)(t := None)\<rparr>)) (\<lambda>_.
       modify (\<lambda>s. s\<lparr>m_contexts := (m_contexts s)(ch := None)\<rparr>)))"

section \<open>Messages\<close>

definition player_at :: "nat \<Rightarrow> PlayerContext W" where
  "player_at p = mbind (gets m_players) (\<lambda>m. case m p of None \<Rightarrow> throw Undefined_behaviour | Some x \<Rightarrow> ret x)"

definition parse_message :: "(string \<Rightarrow> json option) \<Rightarrow> string \<Rightarrow> json W" where
  "parse_message parse msg = (case parse msg of None \<Rightarrow> throw Json_parse_error | Some j \<Rightarrow> ret j)"

text \<open>\<open>j["params"][key]\<close>, converted.\<close>

definition param :: "(json \<Rightarrow> cpp_error + 'a) \<Rightarrow> json \<Rightarrow> string \<Rightarrow> 'a W" where
  "param conv j k = lift_sum (bind_sum (json_index j ''params'') (\<lambda>ps. json_field conv ps k))"

text \<open>\<open>VvWsConnectionContext::handleMessage\<close>.\<close>

definition handleMessage :: "(string \<Rightarrow> json option) \<Rightarrow> VvWsConnectionContext \<Rightarrow> string \<Rightarrow> int W" where
  "handleMessage parse ctx msg =
     mbind (parse_message parse msg) (\<lambda>j.
     mbind (lift_sum (json_index j ''method'')) (\<lambda>sMeth.
       if sMeth = JString ''player_move_to'' then
         (case m_pPlayerContext ctx of
            None \<Rightarrow> ret 0
          | Some p \<Rightarrow>
              mbind (param json_get_int j ''x'') (\<lambda>nX.
              mbind (param json_get_int j ''y'') (\<lambda>nY.
              mbind (player_at p) (\<lambda>pl.
              mbind (modify (\<lambda>s. s\<lparr>m_players := (m_players s)(p \<mapsto> pl\<lparr>m_nPlayerX := nX, m_nPlayerY := nY\<rparr>)\<rparr>)) (\<lambda>_.
                ret 0)))))
       else ret 0))"

definition error_context :: json where
  "error_context = json_build [(''code'', JInteger 550), (''message'', JString ''Not found error context'')]"

definition get_player_position :: "nat \<Rightarrow> VvWsConnectionContext \<Rightarrow> json \<Rightarrow> unit W" where
  "get_player_position ch ctx j =
     mbind (lift_sum (json_index j ''id'')) (\<lambda>id.
     case m_pPlayerContext ctx of
       Some p \<Rightarrow>
         mbind (player_at p) (\<lambda>pl.
           ws_send ch (json_build [(''id'', id), (''method'', JString ''get_player_position''),
             (''result'', json_build [(''x'', JInteger (m_nPlayerX pl)), (''y'', JInteger (m_nPlayerY pl))])]))
     | None \<Rightarrow>
         ws_send ch (json_build [(''id'', id), (''method'', JString ''get_player_position''), (''error'', error_context)]))"

definition set_session_token :: "nat \<Rightarrow> json \<Rightarrow> unit W" where
  "set_session_token ch j =
     mbind (lift_sum (json_index j ''id'')) (\<lambda>id.
     mbind (param json_get_string j ''token'') (\<lambda>sToken.
     mbind (gets m_mapSessions) (\<lambda>sessions.
     mbind (case sessions sToken of
              Some _ \<Rightarrow> ret ()
            | None \<Rightarrow>
                modify (\<lambda>s. s\<lparr>m_players := (m_players s)(m_nNextPlayer s \<mapsto> PlayerContext_new),
                               m_mapSessions := (m_mapSessions s)(sToken \<mapsto> m_nNextPlayer s),
                               m_nNextPlayer := Suc (m_nNextPlayer s)\<rparr>)) (\<lambda>_.
     mbind (modify (\<lambda>s. case m_contexts s ch of
              None \<Rightarrow> s
            | Some ctx \<Rightarrow>
                s\<lparr>m_contexts := (m_contexts s)(ch \<mapsto> ctx\<lparr>m_pPlayerContext := m_mapSessions s sToken\<rparr>)\<rparr>)) (\<lambda>_.
       ws_send ch (json_build [(''id'', id), (''result'', JNull)]))))))"

definition get_map :: "nat \<Rightarrow> VvWsConnectionContext \<Rightarrow> json \<Rightarrow> unit W" where
  "get_map ch ctx j =
     mbind (lift_sum (json_index j ''id'')) (\<lambda>id.
     case m_pPlayerContext ctx of
       Some p \<Rightarrow>
         mbind (player_at p) (\<lambda>pl. ws_send ch (json_build [(''id'', id), (''method'', JString ''get_map'')]))
     | None \<Rightarrow> ws_send ch (json_build [(''id'', id), (''method'', JString ''get_map''), (''error'', error_context)]))"

definition onMessage :: "(string \<Rightarrow> json option) \<Rightarrow> nat \<Rightarrow> string \<Rightarrow> unit W" where
  "onMessage parse ch msg =
     mbind (context_of ch) (\<lambda>ctx.
     mbind (parse_message parse msg) (\<lambda>j.
     mbind (lift_sum (json_field json_get_string j ''method'')) (\<lambda>sMethod.
       if sMethod = ''get_player_position'' then get_player_position ch ctx j
       else if sMethod = ''player_move_to'' then mbind (handleMessage parse ctx msg) (\<lambda>_. ret ())
       else if sMethod = ''set_session_token'' then set_session_token ch j
       else if sMethod = ''get_map'' then get_map ch ctx j
       else ret ())))"

section \<open>Runs of the server\<close>

text \<open>
  The callbacks of the event loop. A message that throws ends the process, so it is not a step. A
  channel is opened once and gets messages and its close while it is open; a timer fires while it
  is active.
\<close>

inductive ws_step :: "(string \<Rightarrow> json option) \<Rightarrow> WebdiffWsServer \<Rightarrow> WebdiffWsServer \<Rightarrow> bool" for parse where
  open_: "m_contexts s ch = None \<Longrightarrow> ws_onopen ch s = (Inr (), s') \<Longrightarrow> ws_step parse s s'"
| message: "m_contexts s ch \<noteq> None \<Longrightarrow> onMessage parse ch msg s = (Inr (), s') \<Longrightarrow> ws_step parse s s'"
| tick: "m_timers s t = Some ch \<Longrightarrow> ws_tick time ch s = (Inr (), s') \<Longrightarrow> ws_step parse s s'"
| close: "m_contexts s ch \<noteq> None \<Longrightarrow> ws_onclose ch s = (Inr (), s') \<Longrightarrow> ws_step parse s s'"

inductive ws_reachable :: "(string \<Rightarrow> json option) \<Rightarrow> WebdiffWsServer \<Rightarrow> bool" for parse where
  start: "ws_reachable parse WebdiffWsServer_new"
| step: "ws_reachable parse s \<Longrightarrow> ws_step parse s s' \<Longrightarrow> ws_reachable parse s'"

section \<open>Invariant\<close>

text \<open>
  Sessions and connections point to objects that exist, different tokens to different objects; a
  connection points to an object only through a session; and the active timers are exactly those
  of the open connections, one each.
\<close>

definition sessions_ok :: "WebdiffWsServer \<Rightarrow> bool" where
  "sessions_ok s \<longleftrightarrow>
     ran (m_mapSessions s) \<subseteq> dom (m_players s) \<and> inj_on (m_mapSessions s) (dom (m_mapSessions s)) \<and>
     (\<forall>p \<in> dom (m_players s). p < m_nNextPlayer s) \<and>
     (\<forall>ctx \<in> ran (m_contexts s). set_option (m_pPlayerContext ctx) \<subseteq> ran (m_mapSessions s))"

definition timers_ok :: "WebdiffWsServer \<Rightarrow> bool" where
  "timers_ok s \<longleftrightarrow>
     (\<forall>t ch. m_timers s t = Some ch \<longleftrightarrow> (\<exists>ctx. m_contexts s ch = Some ctx \<and> m_nTimerID ctx = Some t)) \<and>
     (\<forall>ctx \<in> ran (m_contexts s). m_nTimerID ctx \<noteq> None) \<and>
     (\<forall>t \<in> dom (m_timers s). t < m_nNextTimer s)"

definition ws_ok :: "WebdiffWsServer \<Rightarrow> bool" where
  "ws_ok s \<longleftrightarrow> sessions_ok s \<and> timers_ok s"

lemma ws_ok_new: "ws_ok WebdiffWsServer_new"
  by (simp add: ws_ok_def sessions_ok_def timers_ok_def WebdiffWsServer_new_def)

lemma ws_send_run [simp]: "ws_send ch j s = (Inr (), s\<lparr>m_sent := m_sent s @ [(ch, j)]\<rparr>)"
  by (simp add: ws_send_def)

lemma ws_ok_sent [simp]: "ws_ok (s\<lparr>m_sent := x\<rparr>) = ws_ok s"
  by (simp add: ws_ok_def sessions_ok_def timers_ok_def)

lemma ran_upd_subset: "ran (m(k \<mapsto> v)) \<subseteq> insert v (ran m)"
  by (auto simp: ran_def)

lemma ran_drop_subset: "ran (m(k := None)) \<subseteq> ran m"
  by (auto simp: ran_def split: if_splits)

lemma sessions_ok_contexts:
  assumes "sessions_ok s" "ran m \<subseteq> insert ctx (ran (m_contexts s))"
    "set_option (m_pPlayerContext ctx) \<subseteq> ran (m_mapSessions s)"
  shows "sessions_ok (s\<lparr>m_contexts := m\<rparr>)"
  using assms unfolding sessions_ok_def by (simp, blast)

lemma sessions_ok_timers [simp]:
  "sessions_ok (s\<lparr>m_timers := x\<rparr>) = sessions_ok s" "sessions_ok (s\<lparr>m_nNextTimer := n\<rparr>) = sessions_ok s"
  by (simp_all add: sessions_ok_def)

lemma timers_ok_players [simp]:
  "timers_ok (s\<lparr>m_players := x\<rparr>) = timers_ok s" "timers_ok (s\<lparr>m_mapSessions := y\<rparr>) = timers_ok s"
  "timers_ok (s\<lparr>m_nNextPlayer := n\<rparr>) = timers_ok s"
  by (simp_all add: timers_ok_def)

lemma timers_ok_iff:
  "timers_ok s \<Longrightarrow> m_timers s t = Some ch \<longleftrightarrow> (\<exists>ctx. m_contexts s ch = Some ctx \<and> m_nTimerID ctx = Some t)"
  by (simp add: timers_ok_def)

lemma timer_of_context:
  "timers_ok s \<Longrightarrow> m_contexts s ch = Some ctx \<Longrightarrow> m_nTimerID ctx = Some t \<Longrightarrow> m_timers s t = Some ch"
  by (auto simp: timers_ok_iff)

lemma ws_ok_onopen:
  assumes ok: "ws_ok s" and new: "m_contexts s ch = None" and run: "ws_onopen ch s = (Inr (), s')"
  shows "ws_ok s'"
proof -
  let ?t = "m_nNextTimer s" and ?ctx = "VvWsConnectionContext_new\<lparr>m_nTimerID := Some (m_nNextTimer s)\<rparr>"
  have s': "s' = s\<lparr>m_contexts := (m_contexts s)(ch \<mapsto> ?ctx), m_timers := (m_timers s)(?t \<mapsto> ch), m_nNextTimer := Suc ?t\<rparr>"
    using run by (simp add: ws_onopen_def)
  have fresh: "m_timers s ?t = None"
    using ok by (force simp: ws_ok_def timers_ok_def)
  have "sessions_ok s'"
    unfolding s' using ok ran_upd_subset [of "m_contexts s" ch ?ctx]
    by (simp add: ws_ok_def, intro sessions_ok_contexts [of _ _ ?ctx]) (simp_all add: VvWsConnectionContext_new_def)
  moreover have "timers_ok s'"
    unfolding timers_ok_def
  proof (intro conjI)
    show "\<forall>t c. m_timers s' t = Some c \<longleftrightarrow> (\<exists>ctx. m_contexts s' c = Some ctx \<and> m_nTimerID ctx = Some t)"
      using ok new fresh
      by (auto simp: s' ws_ok_def VvWsConnectionContext_new_def timers_ok_iff dest: timer_of_context)
    show "\<forall>ctx \<in> ran (m_contexts s'). m_nTimerID ctx \<noteq> None"
      using ok by (auto simp: s' ws_ok_def timers_ok_def dest!: subsetD [OF ran_upd_subset])
    show "\<forall>t \<in> dom (m_timers s'). t < m_nNextTimer s'"
      using ok by (auto simp: s' ws_ok_def timers_ok_def less_Suc_eq)
  qed
  ultimately show ?thesis by (simp add: ws_ok_def)
qed

lemma ws_onclose_run:
  assumes "ws_ok s" "m_contexts s ch = Some ctx"
  shows "\<exists>t. m_nTimerID ctx = Some t \<and> m_timers s t = Some ch \<and>
           ws_onclose ch s = (Inr (), s\<lparr>m_timers := (m_timers s)(t := None), m_contexts := (m_contexts s)(ch := None)\<rparr>)"
proof -
  obtain t where t: "m_nTimerID ctx = Some t"
    using assms by (force simp: ws_ok_def timers_ok_def ran_def)
  moreover have "m_timers s t = Some ch"
    using assms t by (auto simp: ws_ok_def timers_ok_def)
  ultimately show ?thesis
    using assms(2) by (simp add: ws_onclose_def context_of_def mbind_def)
qed

lemma ws_ok_onclose:
  assumes ok: "ws_ok s" and ch: "m_contexts s ch \<noteq> None" and run: "ws_onclose ch s = (Inr (), s')"
  shows "ws_ok s'"
proof -
  obtain ctx t where ctx: "m_contexts s ch = Some ctx" "m_nTimerID ctx = Some t" "m_timers s t = Some ch"
    and s': "s' = s\<lparr>m_timers := (m_timers s)(t := None), m_contexts := (m_contexts s)(ch := None)\<rparr>"
    using ws_onclose_run [OF ok] ch run by fastforce
  have "sessions_ok s'"
    unfolding s' using ok ran_drop_subset [of "m_contexts s" ch]
    by (auto simp: ws_ok_def VvWsConnectionContext_new_def intro!: sessions_ok_contexts [of _ _ VvWsConnectionContext_new])
  moreover have "timers_ok s'"
    unfolding timers_ok_def
  proof (intro conjI)
    show "\<forall>t c. m_timers s' t = Some c \<longleftrightarrow> (\<exists>ctx. m_contexts s' c = Some ctx \<and> m_nTimerID ctx = Some t)"
      using ok ctx
      by (auto simp: s' ws_ok_def dest: timer_of_context timers_ok_iff [THEN iffD1, rotated])
    show "\<forall>ctx \<in> ran (m_contexts s'). m_nTimerID ctx \<noteq> None"
      using ok by (auto simp: s' ws_ok_def timers_ok_def dest!: subsetD [OF ran_drop_subset])
    show "\<forall>t \<in> dom (m_timers s'). t < m_nNextTimer s'"
      using ok by (auto simp: s' ws_ok_def timers_ok_def)
  qed
  ultimately show ?thesis by (simp add: ws_ok_def)
qed

section \<open>What a message does\<close>

lemma player_at_run: "m_players s p = Some pl \<Longrightarrow> player_at p s = (Inr pl, s)"
  by (simp add: player_at_def mbind_def)

lemma context_of_run: "m_contexts s ch = Some ctx \<Longrightarrow> context_of ch s = (Inr ctx, s)"
  by (simp add: context_of_def mbind_def)

lemma bind_player_at: "m_players s p = Some pl \<Longrightarrow> mbind (player_at p) f s = f pl s"
  by (rule mbind_run) (rule player_at_run)

lemma bind_context_of: "m_contexts s ch = Some ctx \<Longrightarrow> mbind (context_of ch) f s = f ctx s"
  by (rule mbind_run) (rule context_of_run)

lemma player_of_context:
  assumes "ws_ok s" "m_contexts s ch = Some ctx" "m_pPlayerContext ctx = Some p"
  obtains t pl where "m_mapSessions s t = Some p" "m_players s p = Some pl"
proof -
  have "p \<in> ran (m_mapSessions s)"
    using assms by (force simp: ws_ok_def sessions_ok_def ran_def)
  moreover from this have "p \<in> dom (m_players s)"
    using assms(1) by (auto simp: ws_ok_def sessions_ok_def)
  ultimately show ?thesis using that by (auto simp: ran_def)
qed

text \<open>The state after the object of a player was moved, and after a token was set.\<close>

definition moved :: "nat \<Rightarrow> int \<Rightarrow> int \<Rightarrow> WebdiffWsServer \<Rightarrow> WebdiffWsServer" where
  "moved p x y s = s\<lparr>m_players := (m_players s)(p \<mapsto> the (m_players s p)\<lparr>m_nPlayerX := x, m_nPlayerY := y\<rparr>)\<rparr>"

definition with_session :: "string \<Rightarrow> WebdiffWsServer \<Rightarrow> WebdiffWsServer" where
  "with_session tok s =
     (if m_mapSessions s tok \<noteq> None then s
      else s\<lparr>m_players := (m_players s)(m_nNextPlayer s \<mapsto> PlayerContext_new),
             m_mapSessions := (m_mapSessions s)(tok \<mapsto> m_nNextPlayer s),
             m_nNextPlayer := Suc (m_nNextPlayer s)\<rparr>)"

definition attached :: "nat \<Rightarrow> string \<Rightarrow> WebdiffWsServer \<Rightarrow> WebdiffWsServer" where
  "attached ch tok s =
     s\<lparr>m_contexts := (m_contexts s)(ch \<mapsto> (the (m_contexts s ch))\<lparr>m_pPlayerContext := m_mapSessions s tok\<rparr>)\<rparr>"

lemma handleMessage_run:
  assumes "parse msg = Some j" "json_index j ''method'' = Inr (JString ''player_move_to'')"
    "m_pPlayerContext ctx = Some p" "m_players s p = Some pl"
    "param json_get_int j ''x'' = Pair (Inr x)" "param json_get_int j ''y'' = Pair (Inr y)"
  shows "handleMessage parse ctx msg s = (Inr 0, moved p x y s)"
  using assms by (simp add: handleMessage_def parse_message_def moved_def bind_player_at mbind_run [OF modify_apply])

lemma set_session_token_run:
  assumes "m_contexts s ch = Some ctx" "json_index j ''id'' = Inr i" "param json_get_string j ''token'' = Pair (Inr tok)"
  shows "set_session_token ch j s =
           (Inr (), (attached ch tok (with_session tok s))
              \<lparr>m_sent := m_sent s @ [(ch, json_build [(''id'', i), (''result'', JNull)])]\<rparr>)"
  using assms
  by (cases "m_mapSessions s tok")
     (simp_all add: set_session_token_def attached_def with_session_def mbind_def)

text \<open>What a message can leave behind: nothing new, a player moved, or a session attached.\<close>

definition message_effect :: "nat \<Rightarrow> WebdiffWsServer \<Rightarrow> WebdiffWsServer \<Rightarrow> bool" where
  "message_effect ch s s' \<longleftrightarrow>
     (\<exists>sent. s' = s\<lparr>m_sent := sent\<rparr>) \<or>
     (\<exists>ctx p x y. m_contexts s ch = Some ctx \<and> m_pPlayerContext ctx = Some p \<and> s' = moved p x y s) \<or>
     (\<exists>tok sent. s' = (attached ch tok (with_session tok s))\<lparr>m_sent := sent\<rparr>)"

text \<open>
  How a message can fail: its text is not JSON, or a field it needs is not there or has the wrong
  type. A coordinate given as a floating point number outside the range of \<open>int\<close> is undefined.
\<close>

definition message_failure :: "(string \<Rightarrow> json option) \<Rightarrow> string \<Rightarrow> cpp_error \<Rightarrow> bool" where
  "message_failure parse msg e \<longleftrightarrow>
     (case parse msg of
        None \<Rightarrow> e = Json_parse_error
      | Some j \<Rightarrow>
          e \<in> {Json_type_error 302, Json_type_error 305} \<or>
          e = Undefined_behaviour \<and>
            (\<exists>k \<in> {''x'', ''y''}. \<exists>m ex. bind_sum (json_index j ''params'') (\<lambda>ps. json_index ps k) = Inr (JFloat m ex)))"

definition message_outcome ::
  "(string \<Rightarrow> json option) \<Rightarrow> nat \<Rightarrow> string \<Rightarrow> WebdiffWsServer \<Rightarrow> (cpp_error + unit) \<times> WebdiffWsServer \<Rightarrow> bool" where
  "message_outcome parse ch msg s r \<longleftrightarrow>
     (\<exists>e. r = (Inl e, s) \<and> message_failure parse msg e) \<or>
     (\<exists>s'. r = (Inr (), s') \<and> message_effect ch s s')"

lemma json_index_fails: "json_index j k = Inl e \<Longrightarrow> e = Json_type_error 305"
  by (auto simp: json_index_def split: json.splits)

lemma json_get_string_fails: "json_get_string j = Inl e \<Longrightarrow> e = Json_type_error 302"
  by (auto simp: json_get_string_def split: json.splits)

lemma json_get_int_fails:
  "json_get_int j = Inl e \<Longrightarrow> e = Json_type_error 302 \<or> e = Undefined_behaviour \<and> (\<exists>m ex. j = JFloat m ex)"
  by (auto simp: json_get_int_def split: json.splits if_splits)

lemma param_int_fails:
  "param json_get_int j k = Pair (Inl e) \<Longrightarrow> parse msg = Some j \<Longrightarrow> k \<in> {''x'', ''y''} \<Longrightarrow> message_failure parse msg e"
  by (auto simp: param_def json_field_def message_failure_def bind_sum_def fun_eq_iff
           split: sum.splits dest!: json_index_fails json_get_int_fails)

lemma param_string_fails:
  "param json_get_string j k = Pair (Inl e) \<Longrightarrow> parse msg = Some j \<Longrightarrow> message_failure parse msg e"
  by (auto simp: param_def json_field_def message_failure_def bind_sum_def fun_eq_iff
           split: sum.splits dest!: json_index_fails json_get_string_fails)

lemma index_failure:
  "json_index j k = Inl e \<Longrightarrow> parse msg = Some j \<Longrightarrow> message_failure parse msg e"
  by (auto simp: message_failure_def dest: json_index_fails)

lemma param_cases:
  obtains e where "param conv j k = Pair (Inl e)" | x where "param conv j k = Pair (Inr x)"
  by (cases "bind_sum (json_index j ''params'') (\<lambda>ps. json_field conv ps k)") (auto simp: param_def)

lemma outcome_fail: "message_failure parse msg e \<Longrightarrow> message_outcome parse ch msg s (Inl e, s)"
  by (simp add: message_outcome_def)

lemma outcome_sent: "message_outcome parse ch msg s (Inr (), s\<lparr>m_sent := x\<rparr>)" "message_outcome parse ch msg s (Inr (), s)"
proof -
  have "s = s\<lparr>m_sent := m_sent s\<rparr>" by simp
  then show "message_outcome parse ch msg s (Inr (), s\<lparr>m_sent := x\<rparr>)" "message_outcome parse ch msg s (Inr (), s)"
    unfolding message_outcome_def message_effect_def by blast+
qed

lemma index_fail_outcome:
  assumes "json_index j k = Inl e" "parse msg = Some j"
  shows "message_outcome parse ch msg s (Inl e, s)"
  by (rule outcome_fail, rule index_failure) (fact assms)+

lemma get_player_position_outcome:
  assumes ok: "ws_ok s" and ctx: "m_contexts s ch = Some ctx" and msg: "parse msg = Some j"
  shows "message_outcome parse ch msg s (get_player_position ch ctx j s)"
proof (cases "json_index j ''id''")
  case (Inl e)
  then show ?thesis using msg by (simp add: get_player_position_def index_fail_outcome)
next
  case (Inr i)
  show ?thesis
  proof (cases "m_pPlayerContext ctx")
    case (Some p)
    then obtain pl where "m_players s p = Some pl" using player_of_context [OF ok ctx] by metis
    then show ?thesis
      using Inr Some by (simp add: get_player_position_def bind_player_at outcome_sent)
  qed (simp add: get_player_position_def Inr outcome_sent)
qed

lemma get_map_outcome:
  assumes ok: "ws_ok s" and ctx: "m_contexts s ch = Some ctx" and msg: "parse msg = Some j"
  shows "message_outcome parse ch msg s (get_map ch ctx j s)"
proof (cases "json_index j ''id''")
  case (Inl e)
  then show ?thesis using msg by (simp add: get_map_def index_fail_outcome)
next
  case (Inr i)
  show ?thesis
  proof (cases "m_pPlayerContext ctx")
    case (Some p)
    then obtain pl where "m_players s p = Some pl" using player_of_context [OF ok ctx] by metis
    then show ?thesis
      using Inr Some by (simp add: get_map_def bind_player_at outcome_sent)
  qed (simp add: get_map_def Inr outcome_sent)
qed

lemma handleMessage_outcome:
  assumes ok: "ws_ok s" and ctx: "m_contexts s ch = Some ctx" and msg: "parse msg = Some j"
    and sMeth: "json_index j ''method'' = Inr (JString ''player_move_to'')"
  shows "message_outcome parse ch msg s (mbind (handleMessage parse ctx msg) (\<lambda>_. ret ()) s)"
proof (cases "m_pPlayerContext ctx")
  case None
  then show ?thesis
    by (simp add: handleMessage_def parse_message_def msg sMeth outcome_sent)
next
  case (Some p)
  then obtain pl where pl: "m_players s p = Some pl" using player_of_context [OF ok ctx] by metis
  note run = handleMessage_def parse_message_def msg sMeth Some
  show ?thesis
  proof (cases rule: param_cases [of json_get_int j "''x''"])
    case (1 e)
    then have "message_failure parse msg e" using msg by (auto intro: param_int_fails)
    then show ?thesis using 1 by (simp add: run outcome_fail)
  next
    case x: (2 x)
    show ?thesis
    proof (cases rule: param_cases [of json_get_int j "''y''"])
      case (1 e)
      then have "message_failure parse msg e" using msg by (auto intro: param_int_fails)
      then show ?thesis using 1 x by (simp add: run outcome_fail)
    next
      case (2 y)
      have "mbind (handleMessage parse ctx msg) (\<lambda>_. ret ()) s = (Inr (), moved p x y s)"
        using handleMessage_run [of parse msg j ctx p s pl x y] msg sMeth Some pl x 2 by (simp add: mbind_run)
      then show ?thesis
        using ctx Some unfolding message_outcome_def message_effect_def by metis
    qed
  qed
qed

lemma set_session_token_outcome:
  assumes ctx: "m_contexts s ch = Some ctx" and msg: "parse msg = Some j"
  shows "message_outcome parse ch msg s (set_session_token ch j s)"
proof (cases "json_index j ''id''")
  case (Inl e)
  then show ?thesis using msg by (simp add: set_session_token_def index_fail_outcome)
next
  case id: (Inr i)
  show ?thesis
  proof (cases rule: param_cases [of json_get_string j "''token''"])
    case (1 e)
    then have "message_failure parse msg e" using msg by (auto intro: param_string_fails)
    then show ?thesis using 1 id by (simp add: set_session_token_def outcome_fail)
  next
    case (2 tok)
    show ?thesis
      unfolding set_session_token_run [OF ctx id 2] message_outcome_def message_effect_def by blast
  qed
qed

lemma onMessage_outcome:
  assumes ok: "ws_ok s" and ctx: "m_contexts s ch = Some ctx"
  shows "message_outcome parse ch msg s (onMessage parse ch msg s)"
proof (cases "parse msg")
  case None
  then have "message_failure parse msg Json_parse_error" by (simp add: message_failure_def)
  then show ?thesis
    using None by (simp add: onMessage_def bind_context_of [OF ctx] parse_message_def outcome_fail)
next
  case msg: (Some j)
  show ?thesis
  proof (cases "json_field json_get_string j ''method''")
    case (Inl e)
    then have "message_failure parse msg e"
      using msg by (auto simp: json_field_def message_failure_def split: sum.splits
          dest: json_index_fails json_get_string_fails)
    then show ?thesis
      using Inl msg
      by (simp add: onMessage_def bind_context_of [OF ctx] parse_message_def outcome_fail)
  next
    case (Inr m)
    then have "json_index j ''method'' = Inr (JString m)"
      by (auto simp: json_field_def json_get_string_def split: sum.splits json.splits)
    then have "m = ''player_move_to'' \<Longrightarrow>
        message_outcome parse ch msg s (mbind (handleMessage parse ctx msg) (\<lambda>_. ret ()) s)"
      using handleMessage_outcome [where parse = parse and msg = msg, OF ok ctx] msg by blast
    moreover have "onMessage parse ch msg s =
        (if m = ''get_player_position'' then get_player_position ch ctx j s
         else if m = ''player_move_to'' then mbind (handleMessage parse ctx msg) (\<lambda>_. ret ()) s
         else if m = ''set_session_token'' then set_session_token ch j s
         else if m = ''get_map'' then get_map ch ctx j s
         else (Inr (), s))"
      using Inr msg by (simp add: onMessage_def bind_context_of [OF ctx] parse_message_def)
    moreover note get_player_position_outcome [where parse = parse and msg = msg, OF ok ctx]
      get_map_outcome [where parse = parse and msg = msg, OF ok ctx]
      set_session_token_outcome [where parse = parse and msg = msg, OF ctx] outcome_sent
    ultimately show ?thesis using msg by presburger
  qed
qed

section \<open>The invariant in every reachable state\<close>

lemma sessions_ok_moved:
  assumes "sessions_ok s" "m_players s p = Some pl"
  shows "sessions_ok (moved p x y s)"
  using assms unfolding sessions_ok_def moved_def by auto

lemma sessions_ok_with_session:
  assumes "sessions_ok s"
  shows "sessions_ok (with_session tok s)" "tok \<in> dom (m_mapSessions (with_session tok s))"
proof -
  show "tok \<in> dom (m_mapSessions (with_session tok s))"
    by (auto simp: with_session_def)
  have fresh: "m_nNextPlayer s \<notin> dom (m_players s)" "m_nNextPlayer s \<notin> ran (m_mapSessions s)"
    using assms by (auto simp: sessions_ok_def)
  show "sessions_ok (with_session tok s)"
  proof (cases "m_mapSessions s tok")
    case None
    have ran: "ran ((m_mapSessions s)(tok \<mapsto> n)) = insert n (ran (m_mapSessions s))" for n
      using None by (simp add: ran_map_upd)
    have inj: "inj_on ((m_mapSessions s)(tok \<mapsto> m_nNextPlayer s)) (insert tok (dom (m_mapSessions s)))"
      using assms fresh(2) None by (auto simp: sessions_ok_def inj_on_def ran_def)
    have "\<forall>ctx \<in> ran (m_contexts s). set_option (m_pPlayerContext ctx) \<subseteq> insert (m_nNextPlayer s) (ran (m_mapSessions s))"
      using assms unfolding sessions_ok_def by blast
    moreover have "ran (m_mapSessions s) \<subseteq> insert (m_nNextPlayer s) (dom (m_players s))"
      using assms unfolding sessions_ok_def by blast
    moreover have "\<forall>p \<in> dom (m_players s). p < Suc (m_nNextPlayer s)"
      using assms by (simp add: sessions_ok_def less_Suc_eq)
    ultimately show ?thesis
      using inj by (simp add: with_session_def None sessions_ok_def ran)
  qed (simp add: with_session_def assms)
qed

lemma sessions_ok_attached:
  assumes "sessions_ok s" "m_contexts s ch = Some ctx"
  shows "sessions_ok (attached ch tok s)"
  unfolding attached_def
  by (rule sessions_ok_contexts [OF assms(1) ran_upd_subset]) (auto simp: ran_def)

lemma timers_ok_attached:
  assumes "timers_ok s" "m_contexts s ch = Some ctx"
  shows "timers_ok (attached ch tok s)"
proof -
  have "m_timers (attached ch tok s) t = Some c \<longleftrightarrow>
      (\<exists>x. m_contexts (attached ch tok s) c = Some x \<and> m_nTimerID x = Some t)" for t c
    using timers_ok_iff [OF assms(1), of t c] assms(2) by (auto simp: attached_def)
  moreover have "\<forall>x \<in> ran (m_contexts (attached ch tok s)). m_nTimerID x \<noteq> None"
    using assms by (auto simp: attached_def timers_ok_def ran_def)
  ultimately show ?thesis
    using assms by (simp add: timers_ok_def attached_def)
qed

lemma ws_ok_effect:
  assumes ok: "ws_ok s" and ctx: "m_contexts s ch = Some ctx" and eff: "message_effect ch s s'"
  shows "ws_ok s'"
  using eff unfolding message_effect_def
proof (elim disjE exE conjE)
  fix c p x y
  assume c: "m_contexts s ch = Some c" and p: "m_pPlayerContext c = Some p" and s': "s' = moved p x y s"
  obtain pl where "m_players s p = Some pl" using player_of_context [OF ok c p] by metis
  then have "sessions_ok s'" using ok sessions_ok_moved by (simp add: s' ws_ok_def)
  moreover have "timers_ok s'" using ok by (simp add: s' moved_def ws_ok_def)
  ultimately show ?thesis by (simp add: ws_ok_def)
next
  fix tok sent
  assume s': "s' = (attached ch tok (with_session tok s))\<lparr>m_sent := sent\<rparr>"
  have "m_contexts (with_session tok s) ch = Some ctx" "timers_ok (with_session tok s)"
    using ctx ok by (simp_all add: with_session_def ws_ok_def)
  then have "ws_ok (attached ch tok (with_session tok s))"
    using ok sessions_ok_with_session sessions_ok_attached timers_ok_attached by (metis ws_ok_def)
  then show ?thesis by (simp add: s')
qed (use ok in simp)

lemma ws_ok_step:
  assumes "ws_step parse s s'" "ws_ok s"
  shows "ws_ok s'"
  using assms
proof (cases rule: ws_step.cases)
  case (message ch msg)
  then obtain ctx where "m_contexts s ch = Some ctx" by auto
  then show ?thesis
    using onMessage_outcome [OF assms(2), of ch ctx parse msg] message ws_ok_effect [OF assms(2)]
    by (auto simp: message_outcome_def)
next
  case (tick t ch time)
  then show ?thesis using assms(2) by (auto simp: ws_tick_def)
qed (use assms(2) ws_ok_onopen ws_ok_onclose in blast)+

lemma ws_ok_reachable: "ws_reachable parse s \<Longrightarrow> ws_ok s"
  by (induction rule: ws_reachable.induct) (auto intro: ws_ok_new ws_ok_step)

lemma ws_steps_ok: "(ws_step parse)\<^sup>*\<^sup>* s s' \<Longrightarrow> ws_ok s \<Longrightarrow> ws_ok s'"
  by (induction rule: rtranclp_induct) (auto intro: ws_ok_step)

text \<open>A session, once made, keeps its object: no step drops or replaces it.\<close>

lemma session_kept_effect:
  "message_effect ch s s' \<Longrightarrow> m_mapSessions s tok = Some p \<Longrightarrow> m_mapSessions s' tok = Some p"
  by (auto simp: message_effect_def moved_def attached_def with_session_def)

lemma session_kept_step:
  assumes "ws_step parse s s'" "ws_ok s" "m_mapSessions s tok = Some p"
  shows "m_mapSessions s' tok = Some p"
  using assms
proof (cases rule: ws_step.cases)
  case (message ch msg)
  then obtain ctx where "m_contexts s ch = Some ctx" by auto
  then show ?thesis
    using onMessage_outcome [OF assms(2), of ch ctx parse msg] message session_kept_effect assms(3)
    by (auto simp: message_outcome_def)
next
  case (close ch)
  then show ?thesis using ws_onclose_run [OF assms(2)] assms(3) by fastforce
qed (auto simp: ws_onopen_def ws_tick_def)

lemma session_kept_steps:
  "(ws_step parse)\<^sup>*\<^sup>* s s' \<Longrightarrow> ws_ok s \<Longrightarrow> m_mapSessions s tok = Some p \<Longrightarrow> m_mapSessions s' tok = Some p"
  by (induction rule: rtranclp_induct) (auto intro: session_kept_step ws_steps_ok)

end
