(* ===== verification/Ws_Theorems.thy ===== *)
theory Ws_Theorems
  imports Ws_Server
begin

text \<open>
  What the web-socket server guarantees in every state its event loop can reach: its invariant,
  messages that cannot run into a missing object, sessions that outlive their connections, and
  positions shared by the connections of one session and by no others.
\<close>

section \<open>A run to evaluate\<close>

text \<open>
  Three connections, two of them with the token \<open>"t"\<close> and one with the token \<open>"u"\<close>. The texts
  of the messages are their first letters.
\<close>

definition token_message :: "string \<Rightarrow> json" where
  "token_message tok =
     JObject [(''id'', JString ''1''), (''method'', JString ''set_session_token''), (''params'', JObject [(''token'', JString tok)])]"

definition sample_parse :: "string \<Rightarrow> json option" where
  "sample_parse m =
     (if m = ''t'' then Some (token_message ''t'')
      else if m = ''u'' then Some (token_message ''u'')
      else if m = ''m'' then
        Some (JObject [(''method'', JString ''player_move_to''), (''params'', JObject [(''x'', JInteger 3), (''y'', JInteger (- 4))])])
      else if m = ''p'' then Some (JObject [(''id'', JString ''2''), (''method'', JString ''get_player_position'')])
      else None)"

definition sample_opened :: WebdiffWsServer where
  "sample_opened = snd (ws_onopen 7 (snd (ws_onopen 6 (snd (ws_onopen 5 WebdiffWsServer_new)))))"

definition sample_state :: WebdiffWsServer where
  "sample_state =
     snd (onMessage sample_parse 7 ''u'' (snd (onMessage sample_parse 6 ''t'' (snd (onMessage sample_parse 5 ''t'' sample_opened)))))"

lemma reachable_onopen:
  "ws_reachable parse s \<Longrightarrow> m_contexts s ch = None \<Longrightarrow> ws_reachable parse (snd (ws_onopen ch s))"
  by (rule ws_reachable.step, assumption, rule ws_step.open_ [of _ ch]) (simp_all add: ws_onopen_def)

lemma reachable_onMessage:
  assumes "ws_reachable parse s" "m_contexts s ch \<noteq> None" "fst (onMessage parse ch msg s) = Inr ()"
  shows "ws_reachable parse (snd (onMessage parse ch msg s))"
  using assms by (auto intro!: ws_reachable.step [OF assms(1)] ws_step.message [of _ ch] simp: prod_eq_iff)

lemmas ws_run_simps =
  onMessage_def context_of_def parse_message_def set_session_token_def param_def json_field_def json_index_def
  json_get_string_def json_get_int_def bind_sum_def mbind_def sample_parse_def token_message_def

lemma sample_opened_eq:
  "sample_opened =
     \<lparr>m_mapSessions = Map.empty, m_players = Map.empty, m_nNextPlayer = 0,
      m_contexts = [5 \<mapsto> \<lparr>m_nTimerID = Some 1, m_pPlayerContext = None\<rparr>, 6 \<mapsto> \<lparr>m_nTimerID = Some (Suc 1), m_pPlayerContext = None\<rparr>,
                    7 \<mapsto> \<lparr>m_nTimerID = Some (Suc (Suc 1)), m_pPlayerContext = None\<rparr>],
      m_timers = [1 \<mapsto> 5, Suc 1 \<mapsto> 6, Suc (Suc 1) \<mapsto> 7], m_nNextTimer = Suc (Suc (Suc 1)), m_sent = []\<rparr>"
  by (simp add: sample_opened_def ws_onopen_def WebdiffWsServer_new_def VvWsConnectionContext_new_def)

lemma sample_opened_reachable: "ws_reachable sample_parse sample_opened"
  unfolding sample_opened_def
  by (intro reachable_onopen ws_reachable.start)
     (simp_all add: ws_onopen_def WebdiffWsServer_new_def)

lemma sample_state_reachable: "ws_reachable sample_parse sample_state"
  unfolding sample_state_def
  by (intro reachable_onMessage sample_opened_reachable) (simp_all add: sample_opened_eq ws_run_simps)

lemma sample_state_fields:
  "m_mapSessions sample_state = [''t'' \<mapsto> 0, ''u'' \<mapsto> Suc 0]"
  "m_players sample_state = [0 \<mapsto> PlayerContext_new, Suc 0 \<mapsto> PlayerContext_new]"
  "m_contexts sample_state 5 = Some \<lparr>m_nTimerID = Some 1, m_pPlayerContext = Some 0\<rparr>"
  "m_contexts sample_state 6 = Some \<lparr>m_nTimerID = Some (Suc 1), m_pPlayerContext = Some 0\<rparr>"
  "m_contexts sample_state 7 = Some \<lparr>m_nTimerID = Some (Suc (Suc 1)), m_pPlayerContext = Some 1\<rparr>"
  by (simp_all add: sample_state_def sample_opened_eq ws_run_simps)

section \<open>Properties\<close>

text \<open>
  C10: In every state the event loop can reach, by any interleaving of opened connections,
  messages, timer ticks and closed connections, sessions and connections point to objects that
  exist, different tokens have different objects, and the active timers are exactly those of the
  open connections, one each.
\<close>

theorem ws_invariant: "ws_reachable parse s \<Longrightarrow> ws_ok s"
  by (rule ws_ok_reachable)

theorem ws_invariant_witness: "ws_ok sample_state"
  using ws_invariant [OF sample_state_reachable] .

text \<open>
  C16: A message that arrives on an open connection fails only for its own content: its text is
  not JSON, a field has the wrong type, or a coordinate is a floating point number. It never runs
  into a missing connection or player object. A message that fails leaves the state as it was, and
  one that does not keeps the invariant.
\<close>

theorem onMessage_safe:
  assumes "ws_reachable parse s" "m_contexts s ch \<noteq> None"
  shows "(\<exists>e. onMessage parse ch msg s = (Inl e, s) \<and> message_failure parse msg e) \<or>
         (\<exists>s'. onMessage parse ch msg s = (Inr (), s') \<and> ws_ok s')"
proof -
  obtain ctx where ctx: "m_contexts s ch = Some ctx" using assms(2) by auto
  have ok: "ws_ok s" using assms(1) by (rule ws_ok_reachable)
  show ?thesis
    using onMessage_outcome [OF ok ctx, of parse msg] ws_ok_effect [OF ok ctx]
    unfolding message_outcome_def by blast
qed

theorem onMessage_safe_witness:
  "fst (onMessage sample_parse 5 ''?'' sample_state) = Inl Json_parse_error \<and>
   ((\<exists>e. onMessage sample_parse 5 ''?'' sample_state = (Inl e, sample_state) \<and> message_failure sample_parse ''?'' e) \<or>
    (\<exists>s'. onMessage sample_parse 5 ''?'' sample_state = (Inr (), s') \<and> ws_ok s'))"
  using onMessage_safe [OF sample_state_reachable, of 5 "''?''"]
  by (simp add: sample_state_fields onMessage_def bind_context_of parse_message_def sample_parse_def)

text \<open>
  C15: A message with a session token attaches the connection to the session of that token. When
  the token is new its player is at (2147483647, 2147483647); when it is known, its player keeps
  the position. The session keeps its object in every later state, whatever connections are closed
  or opened in between.
\<close>

theorem session_is_permanent:
  assumes reach: "ws_reachable parse s" and open_ch: "m_contexts s ch = Some ctx"
    and msg: "parse msg = Some j" "json_field json_get_string j ''method'' = Inr ''set_session_token''"
    and tok: "json_index j ''id'' = Inr i" "param json_get_string j ''token'' = ret tok"
  shows "\<exists>p ctx' s1. onMessage parse ch msg s = (Inr (), s1) \<and>
           m_contexts s1 ch = Some ctx' \<and> m_pPlayerContext ctx' = Some p \<and>
           m_players s1 p = (case m_mapSessions s tok of None \<Rightarrow> Some PlayerContext_new | Some q \<Rightarrow> m_players s q) \<and>
           (\<forall>s2. (ws_step parse)\<^sup>*\<^sup>* s1 s2 \<longrightarrow> m_mapSessions s2 tok = Some p \<and> m_players s2 p \<noteq> None)"
proof -
  have ok: "ws_ok s" using reach by (rule ws_ok_reachable)
  define s1 where "s1 = (attached ch tok (with_session tok s))
      \<lparr>m_sent := m_sent s @ [(ch, json_build [(''id'', i), (''result'', JNull)])]\<rparr>"
  have run: "onMessage parse ch msg s = (Inr (), s1)"
    using msg set_session_token_run [OF open_ch tok(1), of tok] tok(2)
    by (simp add: onMessage_def bind_context_of [OF open_ch] parse_message_def s1_def)
  have ok1: "ws_ok s1"
    by (rule ws_ok_effect [OF ok open_ch]) (unfold message_effect_def s1_def, blast)
  obtain p where p: "m_mapSessions (with_session tok s) tok = Some p"
    using sessions_ok_with_session(2) ok by (fastforce simp: ws_ok_def)
  then have kept: "m_mapSessions s2 tok = Some p \<and> m_players s2 p \<noteq> None" if "(ws_step parse)\<^sup>*\<^sup>* s1 s2" for s2
    using session_kept_steps [OF that ok1, of tok p] ws_steps_ok [OF that ok1]
    by (auto simp: s1_def attached_def ws_ok_def sessions_ok_def ran_def)
  moreover have "m_contexts s1 ch = Some (ctx\<lparr>m_pPlayerContext := Some p\<rparr>)"
    using open_ch p by (simp add: s1_def attached_def) (simp add: with_session_def)
  moreover have "m_players s1 p = (case m_mapSessions s tok of None \<Rightarrow> Some PlayerContext_new | Some q \<Rightarrow> m_players s q)"
    using p by (auto simp: s1_def attached_def with_session_def split: option.splits if_splits)
  ultimately show ?thesis using run by (intro exI [of _ p] exI [of _ "ctx\<lparr>m_pPlayerContext := Some p\<rparr>"] exI [of _ s1]) simp
qed

theorem session_is_permanent_witness:
  "\<exists>p ctx' s1. onMessage sample_parse 7 ''t'' sample_state = (Inr (), s1) \<and>
     m_contexts s1 7 = Some ctx' \<and> m_pPlayerContext ctx' = Some p \<and>
     m_players s1 p = (case m_mapSessions sample_state ''t'' of None \<Rightarrow> Some PlayerContext_new | Some q \<Rightarrow> m_players sample_state q) \<and>
     (\<forall>s2. (ws_step sample_parse)\<^sup>*\<^sup>* s1 s2 \<longrightarrow> m_mapSessions s2 ''t'' = Some p \<and> m_players s2 p \<noteq> None)"
  by (rule session_is_permanent [where j = "token_message ''t''" and i = "JString ''1''", OF sample_state_reachable sample_state_fields(5)])
     (simp_all add: sample_parse_def token_message_def json_field_def json_index_def json_get_string_def param_def bind_sum_def)

text \<open>
  C14: When two connections hold the same session and a move arrives on one of them, a later
  question for the position on the other is answered with the coordinates of the move. The
  players of all other sessions stay where they are.
\<close>

theorem move_is_shared:
  assumes reach: "ws_reachable parse s"
    and a: "m_contexts s a = Some ca" "m_pPlayerContext ca = m_mapSessions s tok"
    and b: "m_contexts s b = Some cb" "m_pPlayerContext cb = m_mapSessions s tok"
    and session: "m_mapSessions s tok \<noteq> None"
    and move: "parse move = Some j" "json_field json_get_string j ''method'' = Inr ''player_move_to''"
      "param json_get_int j ''x'' = ret x" "param json_get_int j ''y'' = ret y"
    and ask: "parse question = Some k" "json_field json_get_string k ''method'' = Inr ''get_player_position''"
      "json_index k ''id'' = Inr i"
  shows "\<exists>s1. onMessage parse a move s = (Inr (), s1) \<and>
           onMessage parse b question s1 =
             (Inr (), s1\<lparr>m_sent := m_sent s1 @
                [(b, json_build [(''id'', i), (''method'', JString ''get_player_position''),
                       (''result'', json_build [(''x'', JInteger x), (''y'', JInteger y)])])]\<rparr>) \<and>
           (\<forall>tok' q. tok' \<noteq> tok \<longrightarrow> m_mapSessions s1 tok' = Some q \<longrightarrow> m_players s1 q = m_players s q)"
proof -
  have ok: "ws_ok s" using reach by (rule ws_ok_reachable)
  obtain p where p: "m_mapSessions s tok = Some p" using session by auto
  then obtain pl where pl: "m_players s p = Some pl"
    using ok by (auto simp: ws_ok_def sessions_ok_def ran_def)
  have "json_index j ''method'' = Inr (JString ''player_move_to'')"
    using move(2) by (auto simp: json_field_def json_get_string_def split: sum.splits json.splits)
  then have "onMessage parse a move s = (Inr (), moved p x y s)"
    using move a p pl handleMessage_run [of parse move j ca p s pl x y]
    by (simp add: onMessage_def bind_context_of [OF a(1)] parse_message_def mbind_run)
  moreover have "m_contexts (moved p x y s) b = Some cb" using b(1) by (simp add: moved_def)
  then have "onMessage parse b question (moved p x y s) =
      (Inr (), (moved p x y s)\<lparr>m_sent := m_sent (moved p x y s) @
        [(b, json_build [(''id'', i), (''method'', JString ''get_player_position''),
               (''result'', json_build [(''x'', JInteger x), (''y'', JInteger y)])])]\<rparr>)"
    using ask b(2) p pl
    by (simp add: onMessage_def bind_context_of parse_message_def get_player_position_def)
       (subst bind_player_at [of _ p "pl\<lparr>m_nPlayerX := x, m_nPlayerY := y\<rparr>"], simp_all add: moved_def)
  moreover have "m_players (moved p x y s) q = m_players s q"
    if "tok' \<noteq> tok" "m_mapSessions (moved p x y s) tok' = Some q" for tok' q
  proof -
    have "q \<noteq> p"
      using that ok p by (auto simp: moved_def ws_ok_def sessions_ok_def inj_on_def dom_def)
    then show ?thesis by (simp add: moved_def)
  qed
  ultimately show ?thesis by blast
qed

theorem move_is_shared_witness:
  "\<exists>s1. onMessage sample_parse 5 ''m'' sample_state = (Inr (), s1) \<and>
     onMessage sample_parse 6 ''p'' s1 =
       (Inr (), s1\<lparr>m_sent := m_sent s1 @
          [(6, json_build [(''id'', JString ''2''), (''method'', JString ''get_player_position''),
                 (''result'', json_build [(''x'', JInteger 3), (''y'', JInteger (- 4))])])]\<rparr>) \<and>
     (\<forall>tok' q. tok' \<noteq> ''t'' \<longrightarrow> m_mapSessions s1 tok' = Some q \<longrightarrow> m_players s1 q = m_players sample_state q)"
  by (rule move_is_shared [where j = "the (sample_parse ''m'')" and k = "the (sample_parse ''p'')",
        OF sample_state_reachable sample_state_fields(3) _ sample_state_fields(4)])
     (simp_all add: sample_state_fields sample_parse_def json_field_def json_index_def json_get_string_def
        json_get_int_def to_int32_def param_def bind_sum_def)

end
