(* ===== verification/Wsjcpp_Time.thy ===== *)
theory Wsjcpp_Time
  imports Prelude
begin

text \<open>
  Time in \<open>WsjcppCore\<close> (\<open>src.wsjcpp/wsjcpp_core/wsjcpp_core.cpp\<close>): broken-down time in UTC and the
  four texts the program makes of it. \<open>gmtime_r\<close> and \<open>strftime\<close> belong to the C library and are
  modelled here: a day is located by walking over the years and months of the 400-year cycle of
  the Gregorian calendar that begins in 1970. \<open>gmtime_r\<close> fails when the year does not fit into
  \<open>tm_year\<close>; the callers do not look at its result, so the text is then undefined.
\<close>

section \<open>Broken-down time\<close>

definition is_leap :: "int \<Rightarrow> bool" where
  "is_leap y \<longleftrightarrow> 4 dvd y \<and> \<not> 100 dvd y \<or> 400 dvd y"

definition year_days :: "int \<Rightarrow> nat" where
  "year_days y = (if is_leap y then 366 else 365)"

definition month_days :: "int \<Rightarrow> nat \<Rightarrow> nat" where
  "month_days y m = (if m = 2 then (if is_leap y then 29 else 28) else if m \<in> {4, 6, 9, 11} then 30 else 31)"

record tm =
  tm_year :: int
  tm_mon :: nat
  tm_mday :: nat
  tm_hour :: nat
  tm_min :: nat
  tm_sec :: nat
  tm_wday :: nat

function year_of :: "int \<Rightarrow> nat \<Rightarrow> int \<times> nat" where
  "year_of y d = (if d < year_days y then (y, d) else year_of (y + 1) (d - year_days y))"
  by pat_completeness auto
termination by (relation "measure snd") (auto simp: year_days_def split: if_splits)

function month_of :: "int \<Rightarrow> nat \<Rightarrow> nat \<Rightarrow> nat \<times> nat" where
  "month_of y m d = (if 12 \<le> m \<or> d < month_days y m then (m, d) else month_of y (Suc m) (d - month_days y m))"
  by pat_completeness auto
termination by (relation "measure (\<lambda>(y, m, d). 12 - m)") auto

declare year_of.simps [simp del] month_of.simps [simp del]

text \<open>The date of a day counted from 1970-01-01, which was a Thursday.\<close>

definition civil :: "int \<Rightarrow> int \<times> nat \<times> nat" where
  "civil day =
     (case year_of 1970 (nat (day mod 146097)) of
        (y, r) \<Rightarrow> case month_of y 1 r of (m, d) \<Rightarrow> (y + 400 * (day div 146097), m, Suc d))"

definition broken_down :: "int \<Rightarrow> tm" where
  "broken_down t =
     (case civil (t div 86400) of
        (y, m, d) \<Rightarrow>
          \<lparr>tm_year = y, tm_mon = m, tm_mday = d,
           tm_hour = nat (t mod 86400 div 3600), tm_min = nat (t mod 3600 div 60), tm_sec = nat (t mod 60),
           tm_wday = nat ((t div 86400 + 4) mod 7)\<rparr>)"

definition gmtime_r :: "int \<Rightarrow> tm option" where
  "gmtime_r t = (let b = broken_down t in if int32 (tm_year b - 1900) then Some b else None)"

section \<open>Texts\<close>

definition two_digits :: "nat \<Rightarrow> string" where
  "two_digits n = [digit_char (n div 10), digit_char (n mod 10)]"

definition day_names :: "string list" where
  "day_names = [''Sun'', ''Mon'', ''Tue'', ''Wed'', ''Thu'', ''Fri'', ''Sat'']"

definition month_names :: "string list" where
  "month_names = [''Jan'', ''Feb'', ''Mar'', ''Apr'', ''May'', ''Jun'', ''Jul'', ''Aug'', ''Sep'', ''Oct'', ''Nov'', ''Dec'']"

definition clock_text :: "tm \<Rightarrow> string" where
  "clock_text b = two_digits (tm_hour b) @ '':'' @ two_digits (tm_min b) @ '':'' @ two_digits (tm_sec b)"

definition format_with :: "(tm \<Rightarrow> string) \<Rightarrow> int \<Rightarrow> cpp_error + string" where
  "format_with fmt t = (case gmtime_r t of None \<Rightarrow> Inl Undefined_behaviour | Some b \<Rightarrow> Inr (fmt b))"

definition formatTimeForWeb :: "int \<Rightarrow> cpp_error + string" where
  "formatTimeForWeb =
     format_with (\<lambda>b. day_names ! tm_wday b @ '', '' @ two_digits (tm_mday b) @ '' '' @ month_names ! (tm_mon b - 1) @ '' '' @
       to_string (tm_year b) @ '' '' @ clock_text b @ '' GMT'')"

definition formatTimeForFilename :: "int \<Rightarrow> cpp_error + string" where
  "formatTimeForFilename =
     format_with (\<lambda>b. to_string (tm_year b) @ two_digits (tm_mon b) @ two_digits (tm_mday b) @ ''_'' @
       two_digits (tm_hour b) @ two_digits (tm_min b) @ two_digits (tm_sec b))"

text \<open>
  The format \<open>"%Y-%m-%d %H:%M:%S"\<close>. \<open>formatTimeUTC\<close> takes an \<open>int\<close>, so that the conversion of its
  argument wraps around at 32 bits; \<open>getCurrentTimeForLogFormat\<close> formats a \<open>long\<close>.
\<close>

definition utc_text :: "int \<Rightarrow> cpp_error + string" where
  "utc_text =
     format_with (\<lambda>b. to_string (tm_year b) @ ''-'' @ two_digits (tm_mon b) @ ''-'' @ two_digits (tm_mday b) @ '' '' @ clock_text b)"

definition formatTimeUTC :: "int \<Rightarrow> cpp_error + string" where
  "formatTimeUTC nTimeInSec = utc_text (to_int32 nTimeInSec)"

text \<open>
  The remainder and quotient of C round towards zero. With a clock before 1970 the milliseconds
  can take four characters, and a \<open>std::string\<close> of length \<open>3 - 4\<close> throws.
\<close>

definition getCurrentTimeForLogFormat :: "int \<Rightarrow> cpp_error + string" where
  "getCurrentTimeForLogFormat ms =
     (let sMilliseconds = to_string (sgn ms * (\<bar>ms\<bar> mod 1000));
          nTimeStart = sgn ms * (\<bar>ms\<bar> div 1000)
      in case utc_text nTimeStart of
           Inl e \<Rightarrow> Inl e
         | Inr buf \<Rightarrow>
             (if 3 < length sMilliseconds then Inl Std_length_error
              else Inr (buf @ ''.'' @ replicate (3 - length sMilliseconds) CHR ''0'' @ sMilliseconds)))"

section \<open>The calendar\<close>

text \<open>The number of leap years up to a year, and the day number of the first of January.\<close>

definition leaps :: "int \<Rightarrow> int" where
  "leaps y = y div 4 - y div 100 + y div 400"

definition days_to :: "int \<Rightarrow> int" where
  "days_to y = 365 * (y - 1970) + leaps (y - 1) - leaps 1969"

fun days_before :: "int \<Rightarrow> nat \<Rightarrow> int" where
  "days_before y 0 = 0"
| "days_before y (Suc m) = (if m = 0 then 0 else days_before y m + int (month_days y m))"

definition day_number :: "int \<times> nat \<times> nat \<Rightarrow> int" where
  "day_number = (\<lambda>(y, m, d). days_to y + days_before y m + int d - 1)"

definition valid_date :: "int \<times> nat \<times> nat \<Rightarrow> bool" where
  "valid_date = (\<lambda>(y, m, d). 1 \<le> m \<and> m \<le> 12 \<and> 1 \<le> d \<and> d \<le> month_days y m)"

lemma div_pred: "0 < (k :: int) \<Longrightarrow> y div k = (y - 1) div k + (if k dvd y then 1 else 0)"
proof (cases "k dvd y")
  case True
  assume k: "0 < k"
  from True obtain q where "y = k * q" by (auto simp: dvd_def)
  moreover from this k have "(y - 1) div k = q - 1"
    by (intro int_div_pos_eq [of _ _ _ "k - 1"]) (auto simp: algebra_simps)
  ultimately show ?thesis using k True by simp
next
  case False
  assume k: "0 < k"
  have "0 < y mod k" using False k pos_mod_sign [OF k, of y] by (auto simp: dvd_eq_mod_eq_0 less_le)
  then have "(y - 1) div k = y div k"
    using pos_mod_bound [OF k, of y] mult_div_mod_eq [of k y]
    by (intro int_div_pos_eq [of _ _ _ "y mod k - 1"]) auto
  then show ?thesis using False by simp
qed

lemma days_to_Suc: "days_to (y + 1) = days_to y + int (year_days y)"
proof -
  have "leaps y = leaps (y - 1) + (if is_leap y then 1 else 0)"
    using div_pred [of 4 y] div_pred [of 100 y] div_pred [of 400 y] dvd_trans [of 100 400 y] dvd_trans [of 4 100 y]
    by (auto simp: leaps_def is_leap_def)
  then show ?thesis by (simp add: days_to_def year_days_def)
qed

lemma days_to_1970 [simp]: "days_to 1970 = 0"
  by (simp add: days_to_def)

lemma is_leap_cycle: "is_leap (y + 400 * c) = is_leap y"
proof -
  have "4 dvd 400 * c" "100 dvd 400 * c" "400 dvd 400 * c" by (simp_all add: dvd_mult2)
  then show ?thesis by (simp add: is_leap_def dvd_add_left_iff)
qed

lemma month_days_cycle [simp]: "month_days (y + 400 * c) m = month_days y m"
  by (simp add: month_days_def is_leap_cycle)

lemma days_before_cycle [simp]: "days_before (y + 400 * c) m = days_before y m"
  by (induction m) simp_all

lemma days_to_cycle: "days_to (y + 400 * c) = days_to y + 146097 * c"
proof -
  have "(y + 400 * c - 1) div k = (y - 1) div k + (400 div k) * c" if "k \<in> {4, 100, 400}" for k
  proof -
    have "y + 400 * c - 1 = (y - 1) + k * ((400 div k) * c)" using that by auto
    then show ?thesis using that by (simp only: div_mult_self2) auto
  qed
  then show ?thesis by (simp add: days_to_def leaps_def)
qed

lemma year_of_spec:
  "year_of y d = (y', r) \<Longrightarrow> r < year_days y' \<and> days_to y + int d = days_to y' + int r \<and> y \<le> y'"
proof (induction y d arbitrary: y' r rule: year_of.induct)
  case (1 y d)
  show ?case
  proof (cases "d < year_days y")
    case False
    then have "year_of (y + 1) (d - year_days y) = (y', r)"
      using 1(2) by (simp add: year_of.simps [of y d])
    from 1(1) [OF False this] show ?thesis
      using False days_to_Suc [of y] by (simp add: of_nat_diff)
  qed (use 1(2) in \<open>simp add: year_of.simps [of y d]\<close>)
qed

lemma days_before_Suc: "1 \<le> m \<Longrightarrow> days_before y (Suc m) = days_before y m + int (month_days y m)"
  by simp

lemma days_before_13: "days_before y 13 = int (year_days y)"
  by (simp add: eval_nat_numeral month_days_def year_days_def)

lemma month_of_spec:
  "month_of y m d = (m', r) \<Longrightarrow> 1 \<le> m \<Longrightarrow> m \<le> 12 \<Longrightarrow> days_before y m + int d < int (year_days y) \<Longrightarrow>
     1 \<le> m' \<and> m' \<le> 12 \<and> r < month_days y m' \<and> days_before y m + int d = days_before y m' + int r"
proof (induction y m d arbitrary: m' r rule: month_of.induct)
  case (1 y m d)
  show ?case
  proof (cases "d < month_days y m")
    case False
    have "m \<noteq> 12"
      using False 1(5) days_before_Suc [of 12 y] days_before_13 [of y] by auto
    then have stop: "\<not> (12 \<le> m \<or> d < month_days y m)" using False 1(4) by simp
    then have "month_of y (Suc m) (d - month_days y m) = (m', r)"
      using 1(2) by (simp add: month_of.simps [of y m d])
    from 1(1) [OF stop this] show ?thesis
      using False 1(3,5) stop by (simp add: of_nat_diff)
  qed (use 1 in \<open>simp add: month_of.simps [of y m d]\<close>)
qed

lemma civil_spec: "valid_date (civil day) \<and> day_number (civil day) = day"
proof -
  obtain y r where y: "year_of 1970 (nat (day mod 146097)) = (y, r)" by fastforce
  obtain m d where m: "month_of y 1 r = (m, d)" by fastforce
  have r: "r < year_days y" "day mod 146097 = days_to y + int r"
    using year_of_spec [OF y] by simp_all
  have md: "1 \<le> m" "m \<le> 12" "d < month_days y m" "int r = days_before y m + int d"
    using month_of_spec [OF m] r(1) by simp_all
  have civ: "civil day = (y + 400 * (day div 146097), m, Suc d)"
    using m by (simp add: civil_def y)
  have "day = 146097 * (day div 146097) + (days_to y + int r)"
    using mult_div_mod_eq [of 146097 day] r(2) by simp
  then show ?thesis
    using md by (simp add: civ valid_date_def day_number_def days_to_cycle)
qed

text \<open>Later dates have larger day numbers.\<close>

lemma days_to_mono: "y \<le> y' \<Longrightarrow> days_to y \<le> days_to y'"
  by (induction y' rule: int_ge_induct) (simp_all add: days_to_Suc)

lemma days_before_mono: "m \<le> m' \<Longrightarrow> 1 \<le> m \<Longrightarrow> days_before y m \<le> days_before y m'"
  by (induction m' rule: dec_induct) auto

lemma valid_date_bounds:
  assumes "valid_date (y, m, d)"
  shows "days_to y + days_before y m \<le> day_number (y, m, d)" "day_number (y, m, d) < days_to y + days_before y (Suc m)"
    "days_to y \<le> day_number (y, m, d)" "day_number (y, m, d) < days_to (y + 1)"
proof -
  show 1: "days_to y + days_before y m \<le> day_number (y, m, d)" "day_number (y, m, d) < days_to y + days_before y (Suc m)"
    using assms by (auto simp: valid_date_def day_number_def)
  have "0 \<le> days_before y m" using days_before_mono [of 1 m y] assms by (simp add: valid_date_def)
  moreover have "days_before y (Suc m) \<le> int (year_days y)"
    using days_before_mono [of "Suc m" 13 y] assms by (simp add: valid_date_def days_before_13 del: days_before.simps)
  ultimately show "days_to y \<le> day_number (y, m, d)" "day_number (y, m, d) < days_to (y + 1)"
    using 1 days_to_Suc [of y] by simp_all
qed

lemma day_number_less:
  assumes "valid_date (y, m, d)" "valid_date (y', m', d')" "y < y' \<or> y = y' \<and> (m < m' \<or> m = m' \<and> d < d')"
  shows "day_number (y, m, d) < day_number (y', m', d')"
proof (cases "y < y'")
  case True
  then show ?thesis
    using valid_date_bounds(4) [OF assms(1)] valid_date_bounds(3) [OF assms(2)] days_to_mono [of "y + 1" y'] by simp
next
  case False
  then have y: "y' = y" using assms(3) by auto
  show ?thesis
  proof (cases "m < m'")
    case True
    then show ?thesis
      using valid_date_bounds(2) [OF assms(1)] valid_date_bounds(1) [OF assms(2)] days_before_mono [of "Suc m" m' y] y
      by (simp del: days_before.simps)
  qed (use assms y in \<open>auto simp: day_number_def\<close>)
qed

section \<open>Broken-down time and seconds\<close>

definition valid_tm :: "tm \<Rightarrow> bool" where
  "valid_tm b \<longleftrightarrow> valid_date (tm_year b, tm_mon b, tm_mday b) \<and> tm_hour b < 24 \<and> tm_min b < 60 \<and> tm_sec b < 60"

definition seconds_of :: "tm \<Rightarrow> int" where
  "seconds_of b =
     day_number (tm_year b, tm_mon b, tm_mday b) * 86400 + int (tm_hour b) * 3600 + int (tm_min b) * 60 + int (tm_sec b)"

lemma quotient_less: "0 < k \<Longrightarrow> n < k * m \<Longrightarrow> n div k < (m :: int)"
proof (rule ccontr)
  assume k: "0 < k" and n: "n < k * m" and "\<not> n div k < m"
  then have "k * m \<le> k * (n div k)" by (intro mult_left_mono) auto
  with n show False using mult_div_mod_eq [of k n] pos_mod_sign [OF k, of n] by linarith
qed

lemma broken_down_spec: "valid_tm (broken_down t) \<and> seconds_of (broken_down t) = t"
proof -
  define day h mi s where parts: "day = t div 86400" "h = t mod 86400 div 3600" "mi = t mod 3600 div 60" "s = t mod 60"
  obtain y m d where civ: "civil day = (y, m, d)" by (cases "civil day")
  have date: "valid_date (y, m, d)" "day_number (y, m, d) = day"
    using civil_spec [of day] civ by simp_all
  have sum: "day * 86400 + (h * 3600 + (mi * 60 + s)) = t"
    unfolding parts
    using div_mult_mod_eq [of "t mod 86400" 3600] div_mult_mod_eq [of "t mod 3600" 60] by (simp add: mod_mod_cancel)
  have "h < 24" "mi < 60" "s < 60" "0 \<le> h" "0 \<le> mi" "0 \<le> s"
    by (simp_all add: parts quotient_less pos_imp_zdiv_nonneg_iff)
  moreover have "broken_down t = \<lparr>tm_year = y, tm_mon = m, tm_mday = d, tm_hour = nat h, tm_min = nat mi, tm_sec = nat s,
      tm_wday = nat ((day + 4) mod 7)\<rparr>"
    unfolding broken_down_def parts [symmetric] civ by simp
  ultimately show ?thesis
    using date sum by (simp add: valid_tm_def seconds_of_def nat_less_iff)
qed

lemma gmtime_valid: "gmtime_r t = Some b \<Longrightarrow> valid_tm b \<and> seconds_of b = t"
  using broken_down_spec [of t] by (auto simp: gmtime_r_def Let_def split: if_splits)

lemma gmtime_in_range:
  assumes "0 \<le> t" "t < 253402300800"
  shows "\<exists>b. gmtime_r t = Some b \<and> 1970 \<le> tm_year b \<and> tm_year b \<le> 9999"
proof -
  let ?b = "broken_down t"
  have v: "valid_date (tm_year ?b, tm_mon ?b, tm_mday ?b)"
    and n: "day_number (tm_year ?b, tm_mon ?b, tm_mday ?b) * 86400 \<le> t" "t < (day_number (tm_year ?b, tm_mon ?b, tm_mday ?b) + 1) * 86400"
    using broken_down_spec [of t] by (auto simp: valid_tm_def seconds_of_def)
  have "\<not> tm_year ?b < 1970"
    using valid_date_bounds(4) [OF v] days_to_mono [of "tm_year ?b + 1" 1970] n(2) assms by auto
  moreover have "\<not> 9999 < tm_year ?b"
    using valid_date_bounds(3) [OF v] days_to_mono [of 10000 "tm_year ?b"] n(1) assms by (auto simp: days_to_def leaps_def)
  ultimately show ?thesis by (simp add: gmtime_r_def Let_def int32_def)
qed

section \<open>Names of log files\<close>

text \<open>The order of \<open>std::string\<close>.\<close>

definition string_less :: "string \<Rightarrow> string \<Rightarrow> bool" where
  "string_less s t \<longleftrightarrow> (s, t) \<in> lexord {(c, d). (of_char c :: nat) < of_char d}"

lemma string_less_prefix: "string_less s t \<Longrightarrow> length t \<le> length s \<Longrightarrow> string_less (s @ u) (t @ v)"
  by (simp add: string_less_def lexord_sufI)

lemma string_less_common [simp]: "string_less (s @ u) (s @ v) \<longleftrightarrow> string_less u v"
  by (auto simp: string_less_def intro: lexord_append_leftI lexord_append_leftD)

lemma string_less_Cons: "string_less (c # u) (d # v) \<longleftrightarrow> (of_char c :: nat) < of_char d \<or> c = d \<and> string_less u v"
  by (simp add: string_less_def)

lemma length_two_digits [simp]: "length (two_digits n) = 2"
  by (simp add: two_digits_def)

lemma two_digits_less: "a < b \<Longrightarrow> b < 100 \<Longrightarrow> string_less (two_digits a) (two_digits b)"
proof -
  assume ab: "a < b" "b < 100"
  have digit: "(of_char (digit_char d) :: nat) = 48 + d" if "d < 10" for d
    using that by (simp add: digit_char_def)
  define q r q' r' where qr: "q = a div 10" "r = a mod 10" "q' = b div 10" "r' = b mod 10"
  have "a = 10 * q + r" "b = 10 * q' + r'" "r < 10" "r' < 10" by (simp_all add: qr)
  then have "q < q' \<or> q = q' \<and> r < r'" "q < 10" "q' < 10" using ab by linarith+
  then show ?thesis
    unfolding two_digits_def qr [symmetric] using \<open>r < 10\<close> \<open>r' < 10\<close> by (auto simp: string_less_Cons digit)
qed

text \<open>Fields below 100, compared in order, and their texts.\<close>

lemma fields_less:
  "(xs, ys) \<in> lexord {(a, b). a < b} \<Longrightarrow> length xs = length ys \<Longrightarrow> \<forall>y \<in> set ys. y < 100 \<Longrightarrow>
     string_less (concat (map two_digits xs)) (concat (map two_digits ys))"
proof (induction xs arbitrary: ys)
  case (Cons x xs)
  then obtain y ys' where ys: "ys = y # ys'" by (cases ys) auto
  show ?case
  proof (cases "x < y")
    case True
    then show ?thesis using Cons.prems by (simp add: ys string_less_prefix two_digits_less)
  qed (use Cons ys in auto)
qed simp

lemma year_digits: "1000 \<le> y \<Longrightarrow> y \<le> 9999 \<Longrightarrow> to_string y = two_digits (nat (y div 100)) @ two_digits (nat (y mod 100))"
proof -
  assume y: "1000 \<le> y" "y \<le> 9999"
  define n where "n = nat y"
  then have n: "1000 \<le> n" "n \<le> 9999" "y = int n" using y by simp_all
  have "nat_to_string n = two_digits (n div 100) @ two_digits (n mod 100)"
  proof -
    have "\<not> n < 10" "\<not> n div 10 < 10" "\<not> n div 10 div 10 < 10" "n div 10 div 10 div 10 < 10" using n by (simp_all add: div_mult2_eq [symmetric])
    moreover have "n mod 100 = 10 * (n div 10 mod 10) + n mod 10" using mod_mult2_eq [of n 10 10] by simp
    ultimately show ?thesis
      by (simp add: nat_to_string.simps two_digits_def div_mult2_eq [symmetric])
  qed
  then show ?thesis using n by (simp add: to_string_def nat_div_distrib nat_mod_distrib)
qed

text \<open>The fields of a broken-down time of which the name of a log file is made.\<close>

definition name_fields :: "tm \<Rightarrow> nat list" where
  "name_fields b =
     [nat (tm_year b div 100), nat (tm_year b mod 100), tm_mon b, tm_mday b, tm_hour b, tm_min b, tm_sec b]"

lemma hundreds_less:
  fixes y y' :: int
  assumes "1970 \<le> y" "1970 \<le> y'"
  shows "nat (y div 100) < nat (y' div 100) \<or> nat (y div 100) = nat (y' div 100) \<and> nat (y mod 100) < nat (y' mod 100) \<Longrightarrow> y < y'"
    "nat (y div 100) = nat (y' div 100) \<Longrightarrow> nat (y mod 100) = nat (y' mod 100) \<Longrightarrow> y = y'"
proof -
  define q r q' r' where qr: "q = y div 100" "r = y mod 100" "q' = y' div 100" "r' = y' mod 100"
  have "y = 100 * q + r" "y' = 100 * q' + r'" "0 \<le> r" "r < 100" "0 \<le> r'" "r' < 100" by (simp_all add: qr)
  then show "nat (y div 100) < nat (y' div 100) \<or> nat (y div 100) = nat (y' div 100) \<and> nat (y mod 100) < nat (y' mod 100) \<Longrightarrow> y < y'"
    "nat (y div 100) = nat (y' div 100) \<Longrightarrow> nat (y mod 100) = nat (y' mod 100) \<Longrightarrow> y = y'"
    unfolding qr [symmetric] using assms by linarith+
qed

lemma seconds_less:
  assumes a: "valid_tm a" "1970 \<le> tm_year a" and b: "valid_tm b" "1970 \<le> tm_year b"
    and less: "(name_fields a, name_fields b) \<in> lexord {(x, y). x < y}"
  shows "seconds_of a < seconds_of b"
proof -
  let ?da = "day_number (tm_year a, tm_mon a, tm_mday a)" and ?db = "day_number (tm_year b, tm_mon b, tm_mday b)"
  note year = hundreds_less [OF a(2) b(2)]
  consider "tm_year a < tm_year b \<or> tm_year a = tm_year b \<and> (tm_mon a < tm_mon b \<or> tm_mon a = tm_mon b \<and> tm_mday a < tm_mday b)"
    | "tm_year a = tm_year b" "tm_mon a = tm_mon b" "tm_mday a = tm_mday b"
      "tm_hour a < tm_hour b \<or> tm_hour a = tm_hour b \<and> (tm_min a < tm_min b \<or> tm_min a = tm_min b \<and> tm_sec a < tm_sec b)"
    using less year unfolding name_fields_def by (simp, blast)
  then show ?thesis
  proof cases
    case 1
    then have "?da < ?db" using a b by (intro day_number_less) (auto simp: valid_tm_def)
    then show ?thesis using a(1) b(1) by (simp add: seconds_of_def valid_tm_def)
  next
    case 2
    then show ?thesis using a(1) b(1) by (auto simp: seconds_of_def valid_tm_def)
  qed
qed

lemma filename_of_fields:
  assumes "valid_tm b" "1970 \<le> tm_year b" "tm_year b \<le> 9999" "gmtime_r t = Some b"
  shows "formatTimeForFilename t =
           Inr (concat (map two_digits (take 4 (name_fields b))) @ ''_'' @ concat (map two_digits (drop 4 (name_fields b))))"
  using assms year_digits [of "tm_year b"]
  by (simp add: formatTimeForFilename_def format_with_def name_fields_def)

lemma lexord_split:
  "length xs = length ys \<Longrightarrow> (xs @ us, ys @ vs) \<in> lexord r \<Longrightarrow> (xs, ys) \<in> lexord r \<or> xs = ys \<and> (us, vs) \<in> lexord r"
  by (induction xs ys rule: list_induct2) auto

lemma name_fields_less:
  assumes "valid_tm a" "valid_tm b" "1970 \<le> tm_year a" "1970 \<le> tm_year b" "seconds_of a < seconds_of b"
  shows "(name_fields a, name_fields b) \<in> lexord {(x, y). x < y}"
proof -
  have "(name_fields b, name_fields a) \<notin> lexord {(x, y). x < y}"
    using seconds_less [of b a] assms by auto
  moreover have "name_fields a \<noteq> name_fields b"
    using hundreds_less(2) [of "tm_year a" "tm_year b"] assms by (auto simp: name_fields_def seconds_of_def)
  moreover have "(name_fields a, name_fields b) \<in> lexord {(x, y). x < y} \<or> name_fields a = name_fields b \<or>
      (name_fields b, name_fields a) \<in> lexord {(x, y). x < y}"
    by (rule lexord_linear) auto
  ultimately show ?thesis by blast
qed

lemma name_fields_bounds:
  assumes "valid_tm b" "1970 \<le> tm_year b" "tm_year b \<le> 9999"
  shows "\<forall>x \<in> set (name_fields b). x < 100"
proof -
  have "tm_mday b < 100" using assms(1) by (auto simp: valid_tm_def valid_date_def month_days_def split: if_splits)
  moreover have "tm_year b div 100 < 100" "tm_year b mod 100 < 100" using assms(3) by (simp_all add: quotient_less)
  ultimately show ?thesis
    using assms(1) by (simp add: name_fields_def valid_tm_def valid_date_def nat_less_iff)
qed

lemma log_file_times:
  assumes "0 \<le> t" "t < t'" "t' < 253402300800"
  shows "\<exists>n n'. formatTimeForFilename t = Inr n \<and> formatTimeForFilename t' = Inr n' \<and>
           length n = 15 \<and> length n' = 15 \<and> string_less n n'"
proof -
  obtain a where a: "gmtime_r t = Some a" "1970 \<le> tm_year a" "tm_year a \<le> 9999"
    using gmtime_in_range [of t] assms by auto
  obtain b where b: "gmtime_r t' = Some b" "1970 \<le> tm_year b" "tm_year b \<le> 9999"
    using gmtime_in_range [of t'] assms by auto
  have va: "valid_tm a" "seconds_of a = t" and vb: "valid_tm b" "seconds_of b = t'"
    using gmtime_valid [OF a(1)] gmtime_valid [OF b(1)] by auto
  let ?T = "\<lambda>b. take 4 (name_fields b)" and ?D = "\<lambda>b. drop 4 (name_fields b)"
  have "(?T a @ ?D a, ?T b @ ?D b) \<in> lexord {(x, y). x < y}"
    using name_fields_less [OF va(1) vb(1) a(2) b(2)] va vb assms(2) by simp
  then have "(?T a, ?T b) \<in> lexord {(x, y). x < y} \<or> ?T a = ?T b \<and> (?D a, ?D b) \<in> lexord {(x, y). x < y}"
    by (rule lexord_split [rotated]) (simp add: name_fields_def)
  moreover have "\<forall>x \<in> set (?T b). x < 100" "\<forall>x \<in> set (?D b). x < 100"
    using name_fields_bounds [OF vb(1) b(2,3)] by (auto dest: in_set_takeD in_set_dropD)
  moreover have "length (?T a) = length (?T b)" "length (?D a) = length (?D b)" by (simp_all add: name_fields_def)
  ultimately have "string_less (concat (map two_digits (?T a)) @ ''_'' @ concat (map two_digits (?D a)))
      (concat (map two_digits (?T b)) @ ''_'' @ concat (map two_digits (?D b)))"
    using fields_less [of "?T a" "?T b"] fields_less [of "?D a" "?D b"]
    by (auto simp: string_less_Cons length_concat o_def sum_list_triv intro: string_less_prefix)
  then show ?thesis
    using filename_of_fields [OF va(1) a(2,3,1)] filename_of_fields [OF vb(1) b(2,3,1)]
    by (simp add: length_concat o_def name_fields_def)
qed

text \<open>
  C30: between 1970 and the end of the year 9999, the time in the name of a log file always has
  fifteen characters, and the names sort like the times: a file opened later has the larger name.
\<close>

theorem log_names_sort_by_time:
  assumes "0 \<le> t" "t < t'" "t' < 253402300800"
  shows "\<exists>n n'. formatTimeForFilename t = Inr n \<and> formatTimeForFilename t' = Inr n' \<and>
           length n = 15 \<and> length n' = 15 \<and> string_less n n'"
  using log_file_times [OF assms] .

theorem log_names_sort_by_time_witness:
  "\<exists>n n'. formatTimeForFilename 951782399 = Inr n \<and> formatTimeForFilename 951782400 = Inr n' \<and>
     length n = 15 \<and> length n' = 15 \<and> string_less n n'"
  using log_names_sort_by_time [of 951782399 951782400] by simp

section \<open>The texts exist\<close>

lemma format_with_returns: "0 \<le> t \<Longrightarrow> t < 253402300800 \<Longrightarrow> \<exists>s. format_with fmt t = Inr s"
  using gmtime_in_range [of t] by (auto simp: format_with_def)

lemma format_times_return:
  assumes "0 \<le> t" "t < 253402300800"
  shows "\<exists>s. utc_text t = Inr s" "\<exists>s. formatTimeForFilename t = Inr s" "\<exists>s. formatTimeForWeb t = Inr s"
  unfolding utc_text_def formatTimeForFilename_def formatTimeForWeb_def by (rule format_with_returns [OF assms])+

lemma length_milliseconds: "0 \<le> n \<Longrightarrow> n < 1000 \<Longrightarrow> length (to_string n) \<le> 3"
proof -
  assume "0 \<le> n" "n < 1000"
  then have "nat n div 10 div 10 < 10" by (simp add: div_mult2_eq [symmetric] nat_less_iff)
  then show ?thesis using \<open>0 \<le> n\<close> by (simp add: to_string_def nat_to_string.simps)
qed

text \<open>The quotient of C is the quotient of HOL where nothing is negative.\<close>

lemma c_quotient: "0 \<le> n \<Longrightarrow> sgn n * (\<bar>n\<bar> div k) = n div (k :: int)" "0 \<le> n \<Longrightarrow> sgn n * (\<bar>n\<bar> mod k) = n mod k"
  by (cases "n = 0"; simp add: sgn_pos)+

lemma seconds_bounds:
  "0 \<le> ms \<Longrightarrow> ms < 253402300800000 \<Longrightarrow> 0 \<le> ms div 1000 \<and> ms div (1000 :: int) < 253402300800"
  by (intro conjI quotient_less pos_imp_zdiv_nonneg_iff [THEN iffD2]) simp_all

lemma log_time_returns:
  assumes "0 \<le> ms" "ms < 253402300800000"
  shows "\<exists>s. getCurrentTimeForLogFormat ms = Inr s"
proof -
  obtain s where "utc_text (ms div 1000) = Inr s"
    using format_times_return(1) seconds_bounds [OF assms] by blast
  moreover have "length (to_string (ms mod 1000)) \<le> 3"
    by (rule length_milliseconds) simp_all
  ultimately show ?thesis
    by (simp add: getCurrentTimeForLogFormat_def c_quotient [OF assms(1)] Let_def)
qed

section \<open>Reading a text back\<close>

text \<open>The seconds that a text \<open>YYYY-MM-DD hh:mm:ss\<close> stands for.\<close>

definition utc_seconds :: "string \<Rightarrow> int" where
  "utc_seconds s =
     seconds_of \<lparr>tm_year = int (digits_val (take 4 s)), tm_mon = digits_val (take 2 (drop 5 s)),
       tm_mday = digits_val (take 2 (drop 8 s)), tm_hour = digits_val (take 2 (drop 11 s)),
       tm_min = digits_val (take 2 (drop 14 s)), tm_sec = digits_val (take 2 (drop 17 s)), tm_wday = 0\<rparr>"

lemma digits_two: "n < 100 \<Longrightarrow> digits_val (two_digits n) = n"
proof -
  assume "n < 100"
  then have "n div 10 < 10" "n mod 10 < 10" by simp_all
  then show ?thesis by (simp add: two_digits_def digits_val_def)
qed

lemma digits_four: "a < 100 \<Longrightarrow> b < 100 \<Longrightarrow> digits_val (two_digits a @ two_digits b) = 100 * a + b"
proof -
  assume "a < 100" "b < 100"
  then have "a div 10 < 10" "a mod 10 < 10" "b div 10 < 10" "b mod 10 < 10" by simp_all
  then have "digits_val (two_digits a @ two_digits b) = (10 * (a div 10) + a mod 10) * 100 + (10 * (b div 10) + b mod 10)"
    by (simp add: two_digits_def digits_val_def)
  then show ?thesis by simp
qed

lemma utc_layout:
  assumes "length y = 4" "length m = 2" "length d = 2" "length h = 2" "length i = 2" "length s = 2"
    and "t = y @ ''-'' @ m @ ''-'' @ d @ '' '' @ h @ '':'' @ i @ '':'' @ s"
  shows "take 4 t = y" "take 2 (drop 5 t) = m" "take 2 (drop 8 t) = d" "take 2 (drop 11 t) = h"
    "take 2 (drop 14 t) = i" "take 2 (drop 17 t) = s" "length t = 19"
  unfolding assms(7) using assms(1-6) by simp_all

lemma utc_text_seconds:
  assumes "0 \<le> t" "t < 253402300800"
  shows "\<exists>s. utc_text t = Inr s \<and> length s = 19 \<and> utc_seconds s = t"
proof -
  obtain b where b: "gmtime_r t = Some b" "1970 \<le> tm_year b" "tm_year b \<le> 9999"
    using gmtime_in_range [OF assms] by auto
  have v: "valid_tm b" "seconds_of b = t" using gmtime_valid [OF b(1)] by auto
  define c d where cd: "c = nat (tm_year b div 100)" "d = nat (tm_year b mod 100)"
  have y: "to_string (tm_year b) = two_digits c @ two_digits d" unfolding cd using b by (intro year_digits) auto
  have fields: "c < 100" "d < 100" "tm_mon b < 100" "tm_mday b < 100" "tm_hour b < 100" "tm_min b < 100" "tm_sec b < 100"
    using name_fields_bounds [OF v(1) b(2,3)] by (simp_all add: name_fields_def cd)
  have "int c = tm_year b div 100" "int d = tm_year b mod 100"
    using b(2) by (simp_all only: cd int_nat_eq pos_imp_zdiv_nonneg_iff [of 100] pos_mod_sign if_True) simp_all
  then have year: "tm_year b = 100 * int c + int d" by (simp only: mult_div_mod_eq)
  define s where "s = (two_digits c @ two_digits d) @ ''-'' @ two_digits (tm_mon b) @ ''-'' @ two_digits (tm_mday b) @ '' '' @ clock_text b"
  have whole: "utc_text t = Inr s" using b(1) by (simp add: utc_text_def format_with_def s_def y)
  have parts: "take 4 s = two_digits c @ two_digits d" "take 2 (drop 5 s) = two_digits (tm_mon b)"
    "take 2 (drop 8 s) = two_digits (tm_mday b)" "take 2 (drop 11 s) = two_digits (tm_hour b)"
    "take 2 (drop 14 s) = two_digits (tm_min b)" "take 2 (drop 17 s) = two_digits (tm_sec b)" "length s = 19"
    by (rule utc_layout [of "two_digits c @ two_digits d" "two_digits (tm_mon b)" "two_digits (tm_mday b)" "two_digits (tm_hour b)"
          "two_digits (tm_min b)" "two_digits (tm_sec b)"]; simp add: s_def clock_text_def)+
  have "utc_seconds s = seconds_of b"
    unfolding utc_seconds_def parts seconds_of_def year using fields by (simp add: digits_two digits_four)
  then show ?thesis using whole parts(7) v(2) by auto
qed

text \<open>
  C31: the text \<open>formatTimeUTC\<close> makes of a time from 1970 until the 32-bit counter of seconds ends
  always exists and has nineteen characters, and read as a date of the Gregorian calendar and a
  time of day it stands for exactly that time.
\<close>

theorem formatTimeUTC_reads_back:
  assumes "0 \<le> t" "t < 2 ^ 31"
  shows "\<exists>s. formatTimeUTC t = Inr s \<and> length s = 19 \<and> utc_seconds s = t"
proof -
  have "to_int32 t = t" using assms by (simp add: to_int32_id int32_def)
  then show ?thesis using utc_text_seconds [of t] assms by (simp add: formatTimeUTC_def)
qed

theorem formatTimeUTC_reads_back_witness:
  "formatTimeUTC 951782400 = Inr ''2000-02-29 00:00:00'' \<and> utc_seconds ''2000-02-29 00:00:00'' = 951782400"
proof -
  have "formatTimeUTC 951782400 = Inr ''2000-02-29 00:00:00''" by code_simp
  then show ?thesis using formatTimeUTC_reads_back [of 951782400] by simp
qed

end
