(* ===== verification/Wsjcpp_Log.thy ===== *)
theory Wsjcpp_Log
  imports Wsjcpp_Time
begin

text \<open>
  \<open>WsjcppLog\<close> and \<open>WsjcppLogGlobalConf\<close> (\<open>src.wsjcpp/wsjcpp_core/wsjcpp_core.cpp\<close>): the log file and
  its rotation, the last messages, the console; and the three file-system calls the program makes
  at start-up.

  The machine the program runs on is the record \<open>host\<close>: the readings of the system clock (any
  function of the number of the reading), the identifier of the thread, the directories, which
  directories can be made, the lines of the files, which files can be opened for appending, and
  the lines on the console. The mutex of the log protects the last messages and the file; the
  program runs one thread, so it is left out.
\<close>

section \<open>The host\<close>

record host =
  host_clock_ms :: "nat \<Rightarrow> int"
  host_readings :: nat
  host_thread :: int
  host_dirs :: "string list"
  host_can_mkdir :: "string \<Rightarrow> bool"
  host_can_append :: "string \<Rightarrow> bool"
  host_files :: "string \<Rightarrow> string list"
  host_console :: "string list"

definition getCurrentTimeInMilliseconds :: "(host, int) M" where
  "getCurrentTimeInMilliseconds =
     mbind (gets (\<lambda>h. host_clock_ms h (host_readings h))) (\<lambda>ms.
     mbind (modify (\<lambda>h. h\<lparr>host_readings := Suc (host_readings h)\<rparr>)) (\<lambda>_. ret ms))"

text \<open>\<open>duration_cast\<close> to seconds truncates towards zero.\<close>

definition getCurrentTimeInSeconds :: "(host, int) M" where
  "getCurrentTimeInSeconds = mbind getCurrentTimeInMilliseconds (\<lambda>ms. ret (sgn ms * (\<bar>ms\<bar> div 1000)))"

definition getCurrentTimeForFilename :: "(host, string) M" where
  "getCurrentTimeForFilename = mbind getCurrentTimeInSeconds (\<lambda>t. lift_sum (formatTimeForFilename t))"

definition hex_digit :: "nat \<Rightarrow> char" where
  "hex_digit d = ''0123456789abcdef'' ! d"

text \<open>\<open>"0x"\<close> and 16 hexadecimal digits of the 64-bit identifier.\<close>

definition getThreadId :: "int \<Rightarrow> string" where
  "getThreadId val = ''0x'' @ map (\<lambda>i. hex_digit (nat (val div 16 ^ i mod 16))) (rev [0..<16])"

definition dirExists :: "string \<Rightarrow> (host, bool) M" where
  "dirExists sDirname = gets (\<lambda>h. c_str sDirname \<in> set (host_dirs h))"

text \<open>\<open>mkdir\<close> answers 0 or -1; \<open>makeDir\<close> compares the answer with \<open>EACCES\<close>, which is 13.\<close>

definition mkdir :: "string \<Rightarrow> (host, int) M" where
  "mkdir sDirname =
     mbind (gets (\<lambda>h. c_str sDirname \<notin> set (host_dirs h) \<and> host_can_mkdir h (c_str sDirname))) (\<lambda>b.
       if b then mbind (modify (\<lambda>h. h\<lparr>host_dirs := c_str sDirname # host_dirs h\<rparr>)) (\<lambda>_. ret 0) else ret (- 1))"

definition console :: "string \<Rightarrow> (host, unit) M" where
  "console line = modify (\<lambda>h. h\<lparr>host_console := host_console h @ [line]\<rparr>)"

definition makeDir :: "string \<Rightarrow> (host, bool) M" where
  "makeDir sDirname =
     mbind (mkdir sDirname) (\<lambda>nStatus.
       if nStatus = 0 then ret True
       else if nStatus = 13 then mbind (console (''FAILED create folder '' @ sDirname)) (\<lambda>_. ret False)
       else ret True)"

section \<open>Configuration\<close>

record WsjcppLogGlobalConf =
  logDir :: string
  logPrefixFile :: string
  logFile :: string
  enableLogFile :: bool
  logStartTime :: int
  logRotationPeriodInSeconds :: int
  logLastMessages :: "string list"

definition WsjcppLogGlobalConf_new :: WsjcppLogGlobalConf where
  "WsjcppLogGlobalConf_new =
     \<lparr>logDir = ''./'', logPrefixFile = '''', logFile = '''', enableLogFile = True, logStartTime = 0,
      logRotationPeriodInSeconds = 51000, logLastMessages = []\<rparr>"

type_synonym 'a L = "(WsjcppLogGlobalConf \<times> host, 'a) M"

definition get_conf :: "WsjcppLogGlobalConf L" where
  "get_conf = gets fst"

definition put_conf :: "(WsjcppLogGlobalConf \<Rightarrow> WsjcppLogGlobalConf) \<Rightarrow> unit L" where
  "put_conf f = modify (map_prod f id)"

definition doLogRotateUpdateFilename :: "bool \<Rightarrow> unit L" where
  "doLogRotateUpdateFilename bForce =
     mbind (on_snd getCurrentTimeInSeconds) (\<lambda>t.
     mbind get_conf (\<lambda>c.
       if logStartTime c = 0 \<or> t - logStartTime c > logRotationPeriodInSeconds c \<or> bForce then
         mbind (put_conf (\<lambda>c. c\<lparr>logStartTime := t\<rparr>)) (\<lambda>_.
         mbind (lift_sum (formatTimeForFilename t)) (\<lambda>sTime.
           put_conf (\<lambda>c. c\<lparr>logFile := logDir c @ ''/'' @ logPrefixFile c @ ''_'' @ sTime @ ''.log''\<rparr>)))
       else ret ()))"

section \<open>Messages\<close>

datatype WsjcppColorCode = FG_RED | FG_GREEN | FG_YELLOW | FG_BLUE | FG_DEFAULT | BG_RED | BG_GREEN | BG_BLUE | BG_DEFAULT

fun color_code :: "WsjcppColorCode \<Rightarrow> int" where
  "color_code FG_RED = 31"
| "color_code FG_GREEN = 32"
| "color_code FG_YELLOW = 93"
| "color_code FG_BLUE = 34"
| "color_code FG_DEFAULT = 39"
| "color_code BG_RED = 41"
| "color_code BG_GREEN = 42"
| "color_code BG_BLUE = 44"
| "color_code BG_DEFAULT = 49"

definition WsjcppColorModifier :: "WsjcppColorCode \<Rightarrow> string" where
  "WsjcppColorModifier clr = CHR 0x1B # ''['' @ to_string (color_code clr) @ ''m''"

text \<open>The loop that drops messages from the end of the deque.\<close>

function keep_last :: "string list \<Rightarrow> string list" where
  "keep_last xs = (if 50 < length xs then keep_last (butlast xs) else xs)"
  by pat_completeness auto
termination by (relation "measure length") auto

declare keep_last.simps [simp del]

definition append_file :: "string \<Rightarrow> string \<Rightarrow> (host, bool) M" where
  "append_file sFile line =
     mbind (gets (\<lambda>h. host_can_append h sFile)) (\<lambda>b.
       if b then mbind (modify (\<lambda>h. h\<lparr>host_files := (host_files h)(sFile := host_files h sFile @ [line])\<rparr>)) (\<lambda>_. ret True)
       else ret False)"

definition log_add :: "WsjcppColorCode \<Rightarrow> string \<Rightarrow> string \<Rightarrow> string \<Rightarrow> unit L" where
  "log_add clr sType sTag sMessage =
     mbind (doLogRotateUpdateFilename False) (\<lambda>_.
     mbind (on_snd getCurrentTimeInMilliseconds) (\<lambda>ms.
     mbind (lift_sum (getCurrentTimeForLogFormat ms)) (\<lambda>sTime.
     mbind (gets (host_thread \<circ> snd)) (\<lambda>thread.
     let sLogMessage = sTime @ '', '' @ getThreadId thread @ '' ['' @ sType @ ''] '' @ sTag @ '': '' @ sMessage in
     mbind (on_snd (console (WsjcppColorModifier clr @ sLogMessage @ WsjcppColorModifier FG_DEFAULT))) (\<lambda>_.
     mbind (put_conf (\<lambda>c. c\<lparr>logLastMessages := keep_last (sLogMessage # logLastMessages c)\<rparr>)) (\<lambda>_.
     mbind get_conf (\<lambda>c.
       if enableLogFile c then
         mbind (on_snd (append_file (logFile c) sLogMessage)) (\<lambda>bOpened.
           if bOpened then ret () else on_snd (console ''Error Opening File''))
       else ret ())))))))"

definition log_info :: "string \<Rightarrow> string \<Rightarrow> unit L" where
  "log_info sTag sMessage = log_add FG_DEFAULT ''INFO'' sTag sMessage"

definition log_err :: "string \<Rightarrow> string \<Rightarrow> unit L" where
  "log_err sTag sMessage = log_add FG_RED ''ERR'' sTag sMessage"

definition log_throw_err :: "string \<Rightarrow> string \<Rightarrow> 'a L" where
  "log_throw_err sTag sMessage = mbind (log_add FG_RED ''ERR'' sTag sMessage) (\<lambda>_. throw (Runtime_error sMessage))"

definition log_warn :: "string \<Rightarrow> string \<Rightarrow> unit L" where
  "log_warn sTag sMessage = log_add FG_YELLOW ''WARN'' sTag sMessage"

definition log_ok :: "string \<Rightarrow> string \<Rightarrow> unit L" where
  "log_ok sTag sMessage = log_add FG_GREEN ''OK'' sTag sMessage"

definition getLastLogMessages :: "string list L" where
  "getLastLogMessages = mbind get_conf (\<lambda>c. ret (map (\<lambda>i. logLastMessages c ! i) [0..<length (logLastMessages c)]))"

definition setLogDirectory :: "string \<Rightarrow> unit L" where
  "setLogDirectory sDirectoryPath =
     mbind (put_conf (\<lambda>c. c\<lparr>logDir := sDirectoryPath\<rparr>)) (\<lambda>_.
     mbind (on_snd (dirExists sDirectoryPath)) (\<lambda>b.
     mbind (if b then ret ()
            else mbind (on_snd (makeDir sDirectoryPath)) (\<lambda>made.
              if made then ret ()
              else log_err ''setLogDirectory'' (''Could not create log directory '' @ [CHR 0x27] @ sDirectoryPath @ [CHR 0x27]))) (\<lambda>_.
       doLogRotateUpdateFilename True)))"

definition setPrefixLogFile :: "string \<Rightarrow> unit L" where
  "setPrefixLogFile sPrefixLogFile =
     mbind (put_conf (\<lambda>c. c\<lparr>logPrefixFile := sPrefixLogFile\<rparr>)) (\<lambda>_. doLogRotateUpdateFilename True)"

definition setEnableLogFile :: "bool \<Rightarrow> unit L" where
  "setEnableLogFile bEnable = put_conf (\<lambda>c. c\<lparr>enableLogFile := bEnable\<rparr>)"

definition setRotationPeriodInSec :: "int \<Rightarrow> unit L" where
  "setRotationPeriodInSec nRotationPeriodInSec = put_conf (\<lambda>c. c\<lparr>logRotationPeriodInSeconds := nRotationPeriodInSec\<rparr>)"

section \<open>What the calls do\<close>

lemma put_conf_run [simp]: "put_conf f (c, h) = (Inr (), (f c, h))"
  by (simp add: put_conf_def)

lemma get_conf_run [simp]: "get_conf (c, h) = (Inr c, (c, h))"
  by (simp add: get_conf_def)

lemma console_run [simp]: "console s h = (Inr (), h\<lparr>host_console := host_console h @ [s]\<rparr>)"
  by (simp add: console_def)

definition reading_ms :: "host \<Rightarrow> int" where
  "reading_ms h = host_clock_ms h (host_readings h)"

definition reading :: "host \<Rightarrow> int" where
  "reading h = sgn (reading_ms h) * (\<bar>reading_ms h\<bar> div 1000)"

definition next_reading :: "host \<Rightarrow> host" where
  "next_reading h = h\<lparr>host_readings := Suc (host_readings h)\<rparr>"

lemma milliseconds_run [simp]: "getCurrentTimeInMilliseconds h = (Inr (reading_ms h), next_reading h)"
  by (simp add: getCurrentTimeInMilliseconds_def mbind_def reading_ms_def next_reading_def)

lemma seconds_run [simp]: "getCurrentTimeInSeconds h = (Inr (reading h), next_reading h)"
  by (simp add: getCurrentTimeInSeconds_def mbind_def reading_def)

lemma host_next_reading [simp]:
  "host_files (next_reading h) = host_files h" "host_console (next_reading h) = host_console h"
  "host_thread (next_reading h) = host_thread h" "host_can_append (next_reading h) = host_can_append h"
  by (simp_all add: next_reading_def)

lemma keep_last_take [simp]: "keep_last xs = take 50 xs"
proof (induction xs rule: keep_last.induct)
  case (1 xs)
  show ?case
  proof (cases "50 < length xs")
    case True
    then have "keep_last xs = take 50 (butlast xs)" using 1 by (simp add: keep_last.simps [of xs])
    then show ?thesis using True by (simp add: take_butlast)
  qed (simp add: keep_last.simps [of xs])
qed

text \<open>The file a configuration names for a start time.\<close>

definition log_name :: "WsjcppLogGlobalConf \<Rightarrow> string \<Rightarrow> string" where
  "log_name c sTime = logDir c @ ''/'' @ logPrefixFile c @ ''_'' @ sTime @ ''.log''"

definition rotates :: "WsjcppLogGlobalConf \<Rightarrow> int \<Rightarrow> bool \<Rightarrow> bool" where
  "rotates c t bForce \<longleftrightarrow> logStartTime c = 0 \<or> t - logStartTime c > logRotationPeriodInSeconds c \<or> bForce"

lemma rotate_run:
  assumes "doLogRotateUpdateFilename bForce (c, h) = (Inr (), (c', h'))"
  shows "h' = next_reading h \<and>
         (if rotates c (reading h) bForce
          then \<exists>s. formatTimeForFilename (reading h) = Inr s \<and> c' = c\<lparr>logStartTime := reading h, logFile := log_name c s\<rparr>
          else c' = c)"
  using assms
  by (cases "formatTimeForFilename (reading h)")
     (auto simp: doLogRotateUpdateFilename_def mbind_def rotates_def log_name_def split: if_splits)

text \<open>The line of a message.\<close>

definition log_line :: "int \<Rightarrow> string \<Rightarrow> string \<Rightarrow> string \<Rightarrow> string \<Rightarrow> string" where
  "log_line thread sTime sType sTag sMessage =
     sTime @ '', '' @ getThreadId thread @ '' ['' @ sType @ ''] '' @ sTag @ '': '' @ sMessage"

lemma log_add_run:
  assumes "log_add clr sType sTag sMessage (c, h) = (Inr (), (c', h'))"
  obtains c1 sTime where "doLogRotateUpdateFilename False (c, h) = (Inr (), (c1, next_reading h))"
    "c' = c1\<lparr>logLastMessages := take 50 (log_line (host_thread h) sTime sType sTag sMessage # logLastMessages c1)\<rparr>"
    "host_files h' = (if enableLogFile c1 \<and> host_can_append h (logFile c1)
       then (host_files h)(logFile c1 := host_files h (logFile c1) @ [log_line (host_thread h) sTime sType sTag sMessage])
       else host_files h)"
    "host_thread h' = host_thread h" "host_can_append h' = host_can_append h"
    "host_clock_ms h' = host_clock_ms h" "host_readings h' = Suc (Suc (host_readings h))"
proof -
  obtain c1 h1 where rot: "doLogRotateUpdateFilename False (c, h) = (Inr (), (c1, h1))"
    using assms by (auto simp: log_add_def mbind_Inr_iff)
  then have h1: "h1 = next_reading h" using rotate_run by blast
  obtain sTime where t: "getCurrentTimeForLogFormat (reading_ms h1) = Inr sTime"
    using assms rot by (cases "getCurrentTimeForLogFormat (reading_ms h1)") (auto simp: log_add_def mbind_def)
  show thesis
    using assms rot t
    by (intro that [of c1 sTime])
       (auto simp: log_add_def mbind_def h1 log_line_def append_file_def Let_def next_reading_def split: if_splits)
qed

section \<open>A sequence of messages\<close>

type_synonym log_call = "WsjcppColorCode \<times> string \<times> string \<times> string"

definition log_all :: "log_call list \<Rightarrow> unit L" where
  "log_all calls = for_each calls (\<lambda>(clr, sType, sTag, sMessage). log_add clr sType sTag sMessage)"

definition line_of :: "int \<Rightarrow> log_call \<Rightarrow> string \<Rightarrow> bool" where
  "line_of thread = (\<lambda>(clr, sType, sTag, sMessage) line. \<exists>sTime. line = log_line thread sTime sType sTag sMessage)"

lemma rotate_keeps:
  assumes "doLogRotateUpdateFilename bForce (c, h) = (Inr (), (c', h'))"
  shows "logLastMessages c' = logLastMessages c" "enableLogFile c' = enableLogFile c" "logDir c' = logDir c"
    "logPrefixFile c' = logPrefixFile c" "logRotationPeriodInSeconds c' = logRotationPeriodInSeconds c"
  using rotate_run [OF assms] by (auto split: if_splits)

lemma take_append_take: "take n (xs @ take n ys) = take n (xs @ ys)"
  by (simp add: min_def)

lemma log_all_run:
  assumes "log_all calls (c, h) = (Inr (), (c', h'))" "length (logLastMessages c) \<le> 50"
    and "enableLogFile c" "\<forall>f. host_can_append h f"
  shows "\<exists>lines files. list_all2 (line_of (host_thread h)) calls lines \<and> length files = length lines \<and>
           logLastMessages c' = take 50 (rev lines @ logLastMessages c) \<and>
           (\<forall>f. host_files h' f = host_files h f @ map fst (filter (\<lambda>(l, f'). f' = f) (zip lines files)))"
  using assms
proof (induction calls arbitrary: c h)
  case Nil
  then show ?case by (auto simp: log_all_def intro: exI [of _ "[]"])
next
  case (Cons call calls)
  obtain clr sType sTag sMessage where call: "call = (clr, sType, sTag, sMessage)" by (cases call)
  obtain s1 where one: "log_add clr sType sTag sMessage (c, h) = (Inr (), s1)" and rest: "log_all calls s1 = (Inr (), (c', h'))"
    using Cons.prems(1) by (auto simp: log_all_def call mbind_Inr_iff)
  obtain c2 h2 where s1: "s1 = (c2, h2)" by (cases s1)
  obtain c1 sTime where rot: "doLogRotateUpdateFilename False (c, h) = (Inr (), (c1, next_reading h))"
    and c2: "c2 = c1\<lparr>logLastMessages := take 50 (log_line (host_thread h) sTime sType sTag sMessage # logLastMessages c1)\<rparr>"
    and files: "host_files h2 = (if enableLogFile c1 \<and> host_can_append h (logFile c1)
       then (host_files h)(logFile c1 := host_files h (logFile c1) @ [log_line (host_thread h) sTime sType sTag sMessage])
       else host_files h)"
    and h2: "host_thread h2 = host_thread h" "host_can_append h2 = host_can_append h"
    using log_add_run [OF one [unfolded s1]] by metis
  define line where "line = log_line (host_thread h) sTime sType sTag sMessage"
  have c2': "logLastMessages c2 = take 50 (line # logLastMessages c)" "enableLogFile c2"
    using rotate_keeps [OF rot] Cons.prems(3) by (simp_all add: c2 line_def)
  have files': "host_files h2 = (host_files h)(logFile c1 := host_files h (logFile c1) @ [line])"
    using files rotate_keeps [OF rot] Cons.prems(3,4) by (simp add: line_def)
  obtain lines fs where IH: "list_all2 (line_of (host_thread h)) calls lines" "length fs = length lines"
    "logLastMessages c' = take 50 (rev lines @ logLastMessages c2)"
    "\<forall>f. host_files h' f = host_files h2 f @ map fst (filter (\<lambda>(l, f'). f' = f) (zip lines fs))"
    using Cons.IH [OF rest [unfolded s1]] c2' h2 Cons.prems(4) by auto
  have "line_of (host_thread h) call line" by (auto simp: line_of_def call line_def)
  moreover have "take 50 (rev lines @ logLastMessages c2) = take 50 (rev (line # lines) @ logLastMessages c)"
    using take_append_take [of 50 "rev lines" "line # logLastMessages c"] by (simp only: c2' rev.simps append_assoc append.simps)
  ultimately show ?case
    using IH files' by (intro exI [of _ "line # lines"] exI [of _ "logFile c1 # fs"]) auto
qed

text \<open>With a clock between 1970 and the end of the year 9999 no message throws.\<close>

lemma rotate_returns:
  assumes "0 \<le> reading_ms h" "reading_ms h < 253402300800000"
  shows "\<exists>c1. doLogRotateUpdateFilename bForce (c, h) = (Inr (), (c1, next_reading h))"
proof -
  have "0 \<le> reading h" "reading h < 253402300800"
    using seconds_bounds [OF assms] by (simp_all only: reading_def c_quotient [OF assms(1)])
  then obtain s where "formatTimeForFilename (reading h) = Inr s"
    using format_times_return(2) by blast
  then show ?thesis
    by (cases "rotates c (reading h) bForce") (auto simp: doLogRotateUpdateFilename_def mbind_def rotates_def)
qed

lemma log_add_returns:
  assumes "\<forall>n \<le> Suc (host_readings h). 0 \<le> host_clock_ms h n \<and> host_clock_ms h n < 253402300800000"
  shows "fst (log_add clr sType sTag sMessage (c, h)) = Inr ()"
proof -
  have ms: "0 \<le> reading_ms h" "reading_ms h < 253402300800000" "0 \<le> reading_ms (next_reading h)" "reading_ms (next_reading h) < 253402300800000"
    using assms by (simp_all add: reading_ms_def next_reading_def)
  obtain c1 where "doLogRotateUpdateFilename False (c, h) = (Inr (), (c1, next_reading h))"
    using rotate_returns [OF ms(1,2)] by blast
  moreover obtain s' where "getCurrentTimeForLogFormat (reading_ms (next_reading h)) = Inr s'"
    using log_time_returns ms(3,4) by blast
  ultimately show ?thesis
    by (simp add: log_add_def mbind_def append_file_def Let_def)
qed

lemma log_all_returns:
  assumes "\<forall>n \<le> host_readings h + 2 * length calls. 0 \<le> host_clock_ms h n \<and> host_clock_ms h n < 253402300800000"
  shows "fst (log_all calls (c, h)) = Inr ()"
  using assms
proof (induction calls arbitrary: c h)
  case (Cons call calls)
  obtain clr sType sTag sMessage where call: "call = (clr, sType, sTag, sMessage)" by (cases call)
  obtain c1 h1 where one: "log_add clr sType sTag sMessage (c, h) = (Inr (), (c1, h1))"
    using log_add_returns [of h clr sType sTag sMessage c] Cons.prems
    by (cases "log_add clr sType sTag sMessage (c, h)") auto
  have "host_clock_ms h1 = host_clock_ms h" "host_readings h1 = Suc (Suc (host_readings h))"
    using log_add_run [OF one] by metis+
  then show ?case
    using Cons.IH [of h1 c1] Cons.prems one by (simp add: log_all_def call mbind_def)
qed (simp add: log_all_def)

text \<open>
  C28: whatever the clock shows and however often the log rotates, a sequence of messages that is
  logged with the log file switched on and files that can be opened leaves each message, in order,
  in exactly one log file, loses no earlier line, and keeps the last 50 messages, newest first.
\<close>

theorem log_keeps_messages:
  assumes "log_all calls (c, h) = (Inr (), (c', h'))" "length (logLastMessages c) \<le> 50"
    and "enableLogFile c" "\<forall>f. host_can_append h f"
  shows "\<exists>lines files. list_all2 (line_of (host_thread h)) calls lines \<and> length files = length lines \<and>
           fst (getLastLogMessages (c', h')) = Inr (take 50 (rev lines @ logLastMessages c)) \<and>
           (\<forall>f. host_files h' f = host_files h f @ map fst (filter (\<lambda>(l, f'). f' = f) (zip lines files)))"
proof -
  have "fst (getLastLogMessages (c', h')) = Inr (logLastMessages c')"
    by (simp add: getLastLogMessages_def mbind_def map_nth)
  then show ?thesis using log_all_run [OF assms] by metis
qed

definition sample_host :: host where
  "sample_host =
     \<lparr>host_clock_ms = (\<lambda>n. 951782399000 + 30000000 * int n), host_readings = 0, host_thread = 7, host_dirs = [],
      host_can_mkdir = (\<lambda>_. False), host_can_append = (\<lambda>_. True), host_files = (\<lambda>_. []), host_console = []\<rparr>"

definition sample_calls :: "log_call list" where
  "sample_calls = [(FG_RED, ''ERR'', ''MAIN'', ''a''), (FG_GREEN, ''OK'', ''MAIN'', ''b'')]"

definition sample_log :: "(cpp_error + unit) \<times> WsjcppLogGlobalConf \<times> host" where
  "sample_log = log_all sample_calls (WsjcppLogGlobalConf_new, sample_host)"

lemma sample_log_returns: "fst sample_log = Inr ()"
  unfolding sample_log_def by (rule log_all_returns) (simp_all add: sample_host_def sample_calls_def)

theorem log_keeps_messages_witness:
  "\<exists>lines files. list_all2 (line_of 7) sample_calls lines \<and> length files = length lines \<and>
     fst (getLastLogMessages (snd sample_log)) = Inr (take 50 (rev lines @ [])) \<and>
     (\<forall>f. host_files (snd (snd sample_log)) f = [] @ map fst (filter (\<lambda>(l, f'). f' = f) (zip lines files)))"
proof -
  have "log_all sample_calls (WsjcppLogGlobalConf_new, sample_host) = (Inr (), (fst (snd sample_log), snd (snd sample_log)))"
    using sample_log_returns by (simp add: sample_log_def [symmetric] prod_eq_iff)
  from log_keeps_messages [OF this] show ?thesis
    by (simp add: WsjcppLogGlobalConf_new_def sample_host_def)
qed

section \<open>Rotation\<close>



section \<open>Making a directory\<close>

text \<open>
  C39: \<open>makeDir\<close> always answers true: \<open>mkdir\<close> reports a failure as -1 and the code compares the result
  with \<open>EACCES\<close>. A caller that tests the answer cannot notice that the directory was not made;
  \<open>setLogDirectory\<close> never reports it, and it does not create the directory then.
\<close>

theorem makeDir_always_succeeds:
  "fst (makeDir d h) = Inr True \<and>
   (\<not> host_can_mkdir h (c_str d) \<longrightarrow> snd (makeDir d h) = h \<and>
      host_console (snd (snd (setLogDirectory d (c, h)))) = host_console h)"
proof -
  have run: "makeDir d h = (Inr True, if c_str d \<notin> set (host_dirs h) \<and> host_can_mkdir h (c_str d)
      then h\<lparr>host_dirs := c_str d # host_dirs h\<rparr> else h)" for h
    by (simp add: makeDir_def mkdir_def mbind_def)
  then show ?thesis
    by (cases "formatTimeForFilename (reading h)")
       (auto simp: setLogDirectory_def doLogRotateUpdateFilename_def dirExists_def mbind_def)
qed

theorem makeDir_always_succeeds_witness:
  "fst (makeDir ''.logs'' sample_host) = Inr True \<and> snd (makeDir ''.logs'' sample_host) = sample_host"
  using makeDir_always_succeeds [of "''.logs''" sample_host] by (simp add: sample_host_def)

end
