(* ===== verification/Webdiff_Main.thy ===== *)
theory Webdiff_Main
  imports Server_Theorems Ws_Theorems Wsjcpp_Log
begin

text \<open>
  \<open>main\<close> (\<open>src/main.cpp\<close>) and \<open>WebdiffServer\<close> (\<open>src/server/webdiff_server.cpp\<close>): the log is set up,
  the database is brought to the newest version, the caches are loaded, and the HTTP and web-socket
  services are started on port 1234. The seed of the random generator and the two names of the
  application are not used by anything that is modelled.
\<close>

section \<open>Start-up\<close>

type_synonym ('w, 'a) P = "((WsjcppLogGlobalConf \<times> host) \<times> (MySqlStorage \<times> 'w), 'a) M"

text \<open>Code that works on the log and the host.\<close>

definition on_fst :: "('s, 'a) M \<Rightarrow> ('s \<times> 't, 'a) M" where
  "on_fst m = (\<lambda>(s, t). case m s of (r, s') \<Rightarrow> (r, (s', t)))"

text \<open>What \<open>websocket_server_run\<close> is given: the port and the two services.\<close>

record websocket_server_t =
  srv_port :: int
  srv_service :: "api_handler HttpService"
  srv_ws :: WebdiffWsServer

definition startSync :: "int \<Rightarrow> websocket_server_t" where
  "startSync nPort = \<lparr>srv_port = nPort, srv_service = WebdiffHttpServer_new, srv_ws = WebdiffWsServer_new\<rparr>"

definition webdiff_main :: "'w mysql \<Rightarrow> (string \<rightharpoonup> string) \<Rightarrow> ('w, websocket_server_t) P" where
  "webdiff_main my env =
     mbind (on_fst (on_snd (dirExists ''.logs''))) (\<lambda>bLogs.
     mbind (if bLogs then ret True else on_fst (on_snd (makeDir ''.logs''))) (\<lambda>_.
     mbind (on_fst (setPrefixLogFile ''web-diff-files-tree'')) (\<lambda>_.
     mbind (on_fst (setLogDirectory ''.logs'')) (\<lambda>_.
     mbind (on_snd (put_storage (\<lambda>_. MySqlStorage_new env))) (\<lambda>_.
     mbind (on_snd (MySqlStorage_upgrade my)) (\<lambda>_.
     mbind (on_snd (MySqlStorage_loadCache my)) (\<lambda>bLoaded.
     mbind (if bLoaded then ret () else on_fst (log_throw_err ''MAIN'' ''Could not load cache'')) (\<lambda>_.
     mbind (on_fst (on_snd (console (''Starting on port: http://localhost:'' @ to_string 1234 @ ''/'')))) (\<lambda>_.
       ret (startSync 1234))))))))))"

section \<open>What has happened when the server starts\<close>

lemma on_fst_Inr: "on_fst m (s, t) = (Inr x, u) \<longleftrightarrow> (\<exists>s'. u = (s', t) \<and> m s = (Inr x, s'))"
  by (auto simp: on_fst_def split: prod.splits)

lemma on_snd_Inr: "on_snd m (s, t) = (Inr x, u) \<longleftrightarrow> (\<exists>t'. u = (s, t') \<and> m t = (Inr x, t'))"
  by (auto simp: on_snd_def split: prod.splits)

lemma webdiff_main_run:
  assumes "webdiff_main my env (l, (st, w)) = (Inr srv, (l', (st', w')))"
  obtains st1 w1 where "MySqlStorage_upgrade my (MySqlStorage_new env, w) = (Inr (), (st1, w1))"
    "MySqlStorage_loadCache my (st1, w1) = (Inr True, (st', w'))" "srv = startSync 1234"
proof -
  have logged: "log_throw_err tag msg s \<noteq> (Inr x, s')" for tag msg s x s'
    by (auto simp: log_throw_err_def mbind_Inr_iff)
  from assms show ?thesis
    by (cases l)
       (auto simp: webdiff_main_def mbind_Inr_iff on_fst_Inr on_snd_Inr logged simp del: on_snd_apply
         split: if_splits intro: that)
qed

text \<open>
  What is asked of the tables before the caches are loaded: consistent, and no NUL in a name or
  path, which the MySQL client library would cut off.
\<close>

definition loadable :: "tables \<Rightarrow> bool" where
  "loadable T \<longleftrightarrow> db_ok T \<and>
     (\<forall>r \<in> set (t_versions T). CHR 0x00 \<notin> set (vr_name r)) \<and> (\<forall>r \<in> set (t_groups T). CHR 0x00 \<notin> set (gr_name r)) \<and>
     (\<forall>r \<in> set (t_defines T). CHR 0x00 \<notin> set (dr_path r))"

text \<open>
  C1: the server starts serving only after the upgrade has run to its end on the database and the
  caches have been loaded from what it left. If the migrations leave loadable tables, the caches
  agree with the tables when the first request arrives, and they still do, with consistent tables
  and nothing stored lost, after any sequence of answered requests.
\<close>

theorem main_serves_consistent:
  assumes "mysql_server my tbl" "webdiff_main my env (l, (st0, w0)) = (Inr srv, (l', (st, w)))"
    and "\<And>c w1 b w2. tbl w1 = tbl w0 \<Longrightarrow> upgrade_spec my c w1 = (Inr b, w2) \<Longrightarrow> loadable (tbl w2)"
    and "serves my parse static (st, w) (st', w')"
  shows "srv_port srv = 1234 \<and> srv_service srv = WebdiffHttpServer_new \<and> ws_ok (srv_ws srv) \<and>
         (\<exists>c w1 b w2. tbl w1 = tbl w0 \<and> upgrade_spec my c w1 = (Inr b, w2) \<and> tbl w = tbl w2) \<and>
         db_ok (tbl w') \<and> coherent st' (tbl w') \<and> stored (tbl w) \<subseteq> stored (tbl w')"
proof -
  obtain st1 w2 where up: "MySqlStorage_upgrade my (MySqlStorage_new env, w0) = (Inr (), (st1, w2))"
    and load: "MySqlStorage_loadCache my (st1, w2) = (Inr True, (st, w))" and srv: "srv = startSync 1234"
    using webdiff_main_run [OF assms(2)] by metis
  obtain b where up': "with_connection my (MySqlStorageAllUpdates_upgrade my) (MySqlStorage_new env, w0) = (Inr b, (st1, w2))"
    using up by (auto simp: MySqlStorage_upgrade_def mbind_Inr_iff)
  obtain c w1 where conn: "same_caches (MySqlStorage_new env) st1" "tbl w1 = tbl w0" "upgrade_spec my c w1 = (Inr b, w2)"
    using mysql_server.with_connection_returns [OF assms(1) up'] unfolding upgrade_is_spec by metis
  have ok: "loadable (tbl w2)" using assms(3) conn(2,3) by blast
  have fresh: "m_mapCacheFileDefinsIds st1 = Map.empty" "m_cacheGroups st1 = ModelCacheFilesVersion_new"
    using conn(1) by (simp_all add: same_caches_def MySqlStorage_new_def)
  have loaded: "tbl w = tbl w2" "coherent st (tbl w)"
    using mysql_server.loadCache_ok [OF assms(1) load _ fresh] ok by (auto simp: loadable_def)
  have "request_effect tbl (st, w) (st', w')" using serves_keeps [OF assms(1,4)] .
  then have "db_ok (tbl w') \<and> coherent st' (tbl w') \<and> stored (tbl w) \<subseteq> stored (tbl w')"
    using loaded ok by (simp add: request_effect_def loadable_def)
  then show ?thesis
    using conn loaded ws_ok_new by (auto simp: srv startSync_def)
qed

section \<open>A start to evaluate\<close>

lemma on_fst_apply [simp]: "on_fst m (s, t) = (fst (m s), (snd (m s), t))"
  by (simp add: on_fst_def split: prod.splits)

lemma returned: "map_sum id g (fst r) = Inr y \<Longrightarrow> \<exists>x s t. r = (Inr x, (s, t)) \<and> g x = y"
  by (cases r, cases "fst r") auto

lemma sample_upgrade: "map_sum id (\<lambda>_. ()) (fst (MySqlStorage_upgrade reference_mysql (MySqlStorage_new Map.empty, ex_world))) = Inr ()"
  by code_simp

lemma sample_load:
  "map_sum id id (fst (MySqlStorage_loadCache reference_mysql
     (snd (MySqlStorage_upgrade reference_mysql (MySqlStorage_new Map.empty, ex_world))))) = Inr True"
  by code_simp

lemma sample_start:
  "\<exists>l'. webdiff_main reference_mysql Map.empty ((WsjcppLogGlobalConf_new, sample_host), (MySqlStorage_new Map.empty, ex_world)) =
     (Inr (startSync 1234), (l', snd (MySqlStorage_loadCache reference_mysql
        (snd (MySqlStorage_upgrade reference_mysql (MySqlStorage_new Map.empty, ex_world))))))"
proof -
  obtain st1 w1 where up: "MySqlStorage_upgrade reference_mysql (MySqlStorage_new Map.empty, ex_world) = (Inr (), (st1, w1))"
    using returned [OF sample_upgrade] by auto
  obtain st2 w2 where load: "MySqlStorage_loadCache reference_mysql (st1, w1) = (Inr True, (st2, w2))"
    using returned [OF sample_load [unfolded up snd_conv]] by auto
  have made: "makeDir d sample_host = (Inr True, sample_host)" "dirExists d sample_host = (Inr False, sample_host)" for d
    by (simp_all add: makeDir_def mkdir_def dirExists_def mbind_def sample_host_def)
  have clock: "0 \<le> reading_ms sample_host" "reading_ms sample_host < 253402300800000"
    "0 \<le> reading_ms (next_reading sample_host)" "reading_ms (next_reading sample_host) < 253402300800000"
    by (simp_all add: reading_ms_def next_reading_def sample_host_def)
  obtain c1 where c1: "setPrefixLogFile ''web-diff-files-tree'' (WsjcppLogGlobalConf_new, sample_host) = (Inr (), (c1, next_reading sample_host))"
    using rotate_returns [OF clock(1,2)] by (fastforce simp: setPrefixLogFile_def mbind_def)
  have made': "makeDir d (next_reading sample_host) = (Inr True, next_reading sample_host)"
    "dirExists d (next_reading sample_host) = (Inr False, next_reading sample_host)" for d
    by (simp_all add: makeDir_def mkdir_def dirExists_def mbind_def sample_host_def next_reading_def)
  obtain c2 where c2: "setLogDirectory ''.logs'' (c1, next_reading sample_host) = (Inr (), (c2, next_reading (next_reading sample_host)))"
    using rotate_returns [OF clock(3,4)] by (fastforce simp: setLogDirectory_def mbind_def made')
  show ?thesis
    by (simp add: webdiff_main_def mbind_def made c1 c2 up load)
qed

text \<open>On an up-to-date database the upgrade changes nothing.\<close>

lemma reference_upgrade:
  assumes "upgrade_spec reference_mysql c w1 = (Inr b, w2)"
  shows "ref_tbl w2 = ref_tbl w1"
proof -
  have whole: "c_str sql_last_db_version = sql_last_db_version" by (rule c_str_id) (simp add: sql_last_db_version_def)
  have parsed: "parse_sql sql_last_db_version = Last_version"
    unfolding sql_last_db_version_def by (simp add: parse_sql_def templates_def)
  obtain n w' where n: "lastDatabaseVersion reference_mysql c w1 = (Inr n, w')" "\<not> n < 0"
    and rest: "mbind (for_each (filter (\<lambda>u. n < m_nVersion u) m_vDatabaseUpdates) (upgrade_step reference_mysql c)) (\<lambda>_. ret True) w' = (Inr b, w2)"
    using assms by (auto simp: upgrade_spec_def mbind_Inr_iff split: if_splits)
  have w': "ref_tbl w' = ref_tbl w1 \<and> n = 9"
    using n by (auto simp: lastDatabaseVersion_def mbind_def run_query_def whole reference_mysql_def ref_query_def parsed ref_run_def
        ref_tbl_def Let_def int32_def split: list.splits bool.splits if_splits)
  then have "filter (\<lambda>u. n < m_nVersion u) m_vDatabaseUpdates = []" by (simp add: m_vDatabaseUpdates_def)
  then show ?thesis using rest w' by simp
qed

lemma ex_tables_loadable: "loadable ex_tables"
  using ex_tables_ok by (simp add: loadable_def ex_tables_def empty_tables_def)

theorem main_serves_consistent_witness:
  "let s = snd (MySqlStorage_loadCache reference_mysql
             (snd (MySqlStorage_upgrade reference_mysql (MySqlStorage_new Map.empty, ex_world))))
   in db_ok (ref_tbl (snd s)) \<and> coherent (fst s) (ref_tbl (snd s)) \<and> srv_port (startSync 1234) = 1234"
proof -
  obtain l' st w where run: "webdiff_main reference_mysql Map.empty ((WsjcppLogGlobalConf_new, sample_host), (MySqlStorage_new Map.empty, ex_world)) =
      (Inr (startSync 1234), (l', (st, w)))" and s: "snd (MySqlStorage_loadCache reference_mysql
        (snd (MySqlStorage_upgrade reference_mysql (MySqlStorage_new Map.empty, ex_world)))) = (st, w)"
    using sample_start by (metis surj_pair)
  have "loadable (ref_tbl w2)" if "ref_tbl w1 = ref_tbl ex_world" "upgrade_spec reference_mysql c w1 = (Inr b, w2)" for c w1 b w2
    using reference_upgrade [OF that(2)] that(1) ex_tables_loadable ex_tbl by simp
  from main_serves_consistent [OF reference.mysql_server_axioms run this serves_start]
  show ?thesis unfolding s by simp
qed

end
