(* ===== verification/Wsjcpp_Permissions.thy ===== *)
theory Wsjcpp_Permissions
  imports Prelude "HOL-Library.Word"
begin

text \<open>
  \<open>WsjcppFilePermissions\<close> (\<open>src.wsjcpp/wsjcpp_core/wsjcpp_core.cpp\<close>): nine flags, their 16-bit code
  (one hexadecimal digit for each of owner, group and other), their text, and the translation to and
  from the mode bits of the system in \<open>setFilePermissions\<close> and \<open>getFilePermissions\<close>.
\<close>

unbundle bit_operations_syntax

section \<open>Flags\<close>

record WsjcppFilePermissions =
  m_bOwnerReadFlag :: bool
  m_bOwnerWriteFlag :: bool
  m_bOwnerExecuteFlag :: bool
  m_bGroupReadFlag :: bool
  m_bGroupWriteFlag :: bool
  m_bGroupExecuteFlag :: bool
  m_bOtherReadFlag :: bool
  m_bOtherWriteFlag :: bool
  m_bOtherExecuteFlag :: bool

definition WsjcppFilePermissions_new :: WsjcppFilePermissions where
  "WsjcppFilePermissions_new =
     \<lparr>m_bOwnerReadFlag = True, m_bOwnerWriteFlag = True, m_bOwnerExecuteFlag = False,
      m_bGroupReadFlag = False, m_bGroupWriteFlag = False, m_bGroupExecuteFlag = False,
      m_bOtherReadFlag = True, m_bOtherWriteFlag = False, m_bOtherExecuteFlag = False\<rparr>"

definition WsjcppFilePermissions_flags ::
    "bool \<Rightarrow> bool \<Rightarrow> bool \<Rightarrow> bool \<Rightarrow> bool \<Rightarrow> bool \<Rightarrow> bool \<Rightarrow> bool \<Rightarrow> bool \<Rightarrow> WsjcppFilePermissions" where
  "WsjcppFilePermissions_flags bOwnerRead bOwnerWrite bOwnerExecute bGroupRead bGroupWrite bGroupExecute
     bOtherRead bOtherWrite bOtherExecute =
     \<lparr>m_bOwnerReadFlag = bOwnerRead, m_bOwnerWriteFlag = bOwnerWrite, m_bOwnerExecuteFlag = bOwnerExecute,
      m_bGroupReadFlag = bGroupRead, m_bGroupWriteFlag = bGroupWrite, m_bGroupExecuteFlag = bGroupExecute,
      m_bOtherReadFlag = bOtherRead, m_bOtherWriteFlag = bOtherWrite, m_bOtherExecuteFlag = bOtherExecute\<rparr>"

text \<open>The conversion of \<open>n & msk\<close> to \<open>bool\<close>.\<close>

definition has_bits :: "'a::len word \<Rightarrow> 'a word \<Rightarrow> bool" where
  "has_bits n msk \<longleftrightarrow> n AND msk \<noteq> 0"

definition WsjcppFilePermissions_of :: "16 word \<Rightarrow> WsjcppFilePermissions" where
  "WsjcppFilePermissions_of nFilePermission =
     \<lparr>m_bOwnerReadFlag = has_bits nFilePermission 0x0400, m_bOwnerWriteFlag = has_bits nFilePermission 0x0200,
      m_bOwnerExecuteFlag = has_bits nFilePermission 0x0100,
      m_bGroupReadFlag = has_bits nFilePermission 0x0040, m_bGroupWriteFlag = has_bits nFilePermission 0x0020,
      m_bGroupExecuteFlag = has_bits nFilePermission 0x0010,
      m_bOtherReadFlag = has_bits nFilePermission 0x0004, m_bOtherWriteFlag = has_bits nFilePermission 0x0002,
      m_bOtherExecuteFlag = has_bits nFilePermission 0x0001\<rparr>"

definition setOwnerReadFlag :: "bool \<Rightarrow> WsjcppFilePermissions \<Rightarrow> WsjcppFilePermissions" where
  "setOwnerReadFlag b p = p\<lparr>m_bOwnerReadFlag := b\<rparr>"

definition setOwnerWriteFlag :: "bool \<Rightarrow> WsjcppFilePermissions \<Rightarrow> WsjcppFilePermissions" where
  "setOwnerWriteFlag b p = p\<lparr>m_bOwnerWriteFlag := b\<rparr>"

definition setOwnerExecuteFlag :: "bool \<Rightarrow> WsjcppFilePermissions \<Rightarrow> WsjcppFilePermissions" where
  "setOwnerExecuteFlag b p = p\<lparr>m_bOwnerExecuteFlag := b\<rparr>"

definition setGroupReadFlag :: "bool \<Rightarrow> WsjcppFilePermissions \<Rightarrow> WsjcppFilePermissions" where
  "setGroupReadFlag b p = p\<lparr>m_bGroupReadFlag := b\<rparr>"

definition setGroupWriteFlag :: "bool \<Rightarrow> WsjcppFilePermissions \<Rightarrow> WsjcppFilePermissions" where
  "setGroupWriteFlag b p = p\<lparr>m_bGroupWriteFlag := b\<rparr>"

definition setGroupExecuteFlag :: "bool \<Rightarrow> WsjcppFilePermissions \<Rightarrow> WsjcppFilePermissions" where
  "setGroupExecuteFlag b p = p\<lparr>m_bGroupExecuteFlag := b\<rparr>"

definition setOtherReadFlag :: "bool \<Rightarrow> WsjcppFilePermissions \<Rightarrow> WsjcppFilePermissions" where
  "setOtherReadFlag b p = p\<lparr>m_bOtherReadFlag := b\<rparr>"

definition setOtherWriteFlag :: "bool \<Rightarrow> WsjcppFilePermissions \<Rightarrow> WsjcppFilePermissions" where
  "setOtherWriteFlag b p = p\<lparr>m_bOtherWriteFlag := b\<rparr>"

definition setOtherExecuteFlag :: "bool \<Rightarrow> WsjcppFilePermissions \<Rightarrow> WsjcppFilePermissions" where
  "setOtherExecuteFlag b p = p\<lparr>m_bOtherExecuteFlag := b\<rparr>"

definition setOwnerFlags :: "bool \<Rightarrow> bool \<Rightarrow> bool \<Rightarrow> WsjcppFilePermissions \<Rightarrow> WsjcppFilePermissions" where
  "setOwnerFlags r w x p = p\<lparr>m_bOwnerReadFlag := r, m_bOwnerWriteFlag := w, m_bOwnerExecuteFlag := x\<rparr>"

definition setGroupFlags :: "bool \<Rightarrow> bool \<Rightarrow> bool \<Rightarrow> WsjcppFilePermissions \<Rightarrow> WsjcppFilePermissions" where
  "setGroupFlags r w x p = p\<lparr>m_bGroupReadFlag := r, m_bGroupWriteFlag := w, m_bGroupExecuteFlag := x\<rparr>"

definition setOtherFlags :: "bool \<Rightarrow> bool \<Rightarrow> bool \<Rightarrow> WsjcppFilePermissions \<Rightarrow> WsjcppFilePermissions" where
  "setOtherFlags r w x p = p\<lparr>m_bOtherReadFlag := r, m_bOtherWriteFlag := w, m_bOtherExecuteFlag := x\<rparr>"

section \<open>Text and code\<close>

definition flag_char :: "bool \<Rightarrow> char \<Rightarrow> string" where
  "flag_char b c = (if b then [c] else ''-'')"

definition WsjcppFilePermissions_toString :: "WsjcppFilePermissions \<Rightarrow> string" where
  "WsjcppFilePermissions_toString p =
     ''-'' @
     flag_char (m_bOwnerReadFlag p) CHR ''r'' @ flag_char (m_bOwnerWriteFlag p) CHR ''w'' @ flag_char (m_bOwnerExecuteFlag p) CHR ''x'' @
     flag_char (m_bGroupReadFlag p) CHR ''r'' @ flag_char (m_bGroupWriteFlag p) CHR ''w'' @ flag_char (m_bGroupExecuteFlag p) CHR ''x'' @
     flag_char (m_bOtherReadFlag p) CHR ''r'' @ flag_char (m_bOtherWriteFlag p) CHR ''w'' @ flag_char (m_bOtherExecuteFlag p) CHR ''x''"

definition flag_bits :: "bool \<Rightarrow> 'a::len word \<Rightarrow> 'a word" where
  "flag_bits b msk = (if b then msk else 0)"

text \<open>The digit of the owner is put together with \<open>|=\<close>, the other two with \<open>+=\<close>.\<close>

definition WsjcppFilePermissions_toUInt16 :: "WsjcppFilePermissions \<Rightarrow> 16 word" where
  "WsjcppFilePermissions_toUInt16 p =
     ((0 OR flag_bits (m_bOwnerReadFlag p) 0x0400) OR flag_bits (m_bOwnerWriteFlag p) 0x0200 OR flag_bits (m_bOwnerExecuteFlag p) 0x0100) +
     flag_bits (m_bGroupReadFlag p) 0x0040 + flag_bits (m_bGroupWriteFlag p) 0x0020 + flag_bits (m_bGroupExecuteFlag p) 0x0010 +
     flag_bits (m_bOtherReadFlag p) 0x0004 + flag_bits (m_bOtherWriteFlag p) 0x0002 + flag_bits (m_bOtherExecuteFlag p) 0x0001"

section \<open>Mode bits of the system\<close>

text \<open>
  \<open>setFilePermissions\<close> starts from a local variable \<open>m\<close> that it does not initialise; its value is
  the argument \<open>m0\<close>. The mode it passes to \<open>chmod\<close>, and the flags \<open>getFilePermissions\<close> reads from
  \<open>st_mode\<close>. Both call the system for a file given by its path; \<open>chmod_ok\<close> is whether \<open>chmod\<close>
  succeeds, and the two lookups of \<open>getFilePermissions\<close> are \<open>fileExists\<close> and \<open>stat\<close>.
\<close>

type_synonym mode_t = "32 word"

definition setFilePermissions_mode :: "mode_t \<Rightarrow> WsjcppFilePermissions \<Rightarrow> mode_t" where
  "setFilePermissions_mode m0 p =
     m0 OR flag_bits (m_bOwnerReadFlag p) 0x100 OR flag_bits (m_bOwnerWriteFlag p) 0x80 OR flag_bits (m_bOwnerExecuteFlag p) 0x40
        OR flag_bits (m_bGroupReadFlag p) 0x20 OR flag_bits (m_bGroupWriteFlag p) 0x10 OR flag_bits (m_bGroupExecuteFlag p) 0x8
        OR flag_bits (m_bOtherReadFlag p) 0x4 OR flag_bits (m_bOtherWriteFlag p) 0x2 OR flag_bits (m_bOtherExecuteFlag p) 0x1"

definition setFilePermissions ::
    "(string \<Rightarrow> mode_t \<Rightarrow> 'w \<Rightarrow> bool \<times> 'w) \<Rightarrow> mode_t \<Rightarrow> string \<Rightarrow> WsjcppFilePermissions \<Rightarrow> 'w \<Rightarrow> (string option) \<times> 'w" where
  "setFilePermissions chmod m0 sFilePath p w =
     (case chmod sFilePath (setFilePermissions_mode m0 p) w of
        (chmod_ok, w') \<Rightarrow>
          (if chmod_ok then None else Some (''Could not change permissions for: '' @ [CHR 0x27] @ sFilePath @ [CHR 0x27]), w'))"

definition permissions_of_mode :: "mode_t \<Rightarrow> WsjcppFilePermissions \<Rightarrow> WsjcppFilePermissions" where
  "permissions_of_mode m p =
     setOtherExecuteFlag (has_bits m 0x1) (
     setOtherWriteFlag (has_bits m 0x2) (
     setOtherReadFlag (has_bits m 0x4) (
     setGroupExecuteFlag (has_bits m 0x8) (
     setGroupWriteFlag (has_bits m 0x10) (
     setGroupReadFlag (has_bits m 0x20) (
     setOwnerExecuteFlag (has_bits m 0x40) (
     setOwnerWriteFlag (has_bits m 0x80) (
     setOwnerReadFlag (has_bits m 0x100) p))))))))"

definition getFilePermissions ::
    "(string \<Rightarrow> 'w \<Rightarrow> mode_t option) \<Rightarrow> (string \<Rightarrow> 'w \<Rightarrow> bool) \<Rightarrow> string \<Rightarrow>
      WsjcppFilePermissions \<Rightarrow> 'w \<Rightarrow> string + WsjcppFilePermissions" where
  "getFilePermissions stat fileExists sFilePath p w =
     (if \<not> fileExists sFilePath w then Inl (''File '' @ [CHR 0x27] @ sFilePath @ [CHR 0x27] @ '' - not found'')
      else case stat sFilePath w of
             None \<Rightarrow> Inl (''Could not get info about file '' @ [CHR 0x27] @ sFilePath @ [CHR 0x27] @ ''.'')
           | Some m \<Rightarrow> Inr (permissions_of_mode m p))"

section \<open>Round trips\<close>

lemma has_bits_flag [simp]: "has_bits (flag_bits b msk) msk' \<longleftrightarrow> b \<and> msk AND msk' \<noteq> 0"
  by (simp add: has_bits_def flag_bits_def)

lemma has_bits_or [simp]: "has_bits (m OR n) msk \<longleftrightarrow> has_bits m msk \<or> has_bits n msk"
  by (simp add: has_bits_def word_ao_dist or_eq_0_iff)

lemma flag_sum: "m AND msk = 0 \<Longrightarrow> m + flag_bits b msk = m OR flag_bits b msk"
  by (simp add: flag_bits_def disjunctive_add_eq_or)

lemma flag_disjoint: "flag_bits b msk' AND msk = 0 \<longleftrightarrow> \<not> b \<or> msk' AND msk = 0"
  by (simp add: flag_bits_def)

text \<open>No carry: the code is the same with every \<open>+=\<close> read as \<open>|=\<close>.\<close>

lemma toUInt16_or:
  "WsjcppFilePermissions_toUInt16 p =
     flag_bits (m_bOwnerReadFlag p) 0x0400 OR flag_bits (m_bOwnerWriteFlag p) 0x0200 OR flag_bits (m_bOwnerExecuteFlag p) 0x0100 OR
     flag_bits (m_bGroupReadFlag p) 0x0040 OR flag_bits (m_bGroupWriteFlag p) 0x0020 OR flag_bits (m_bGroupExecuteFlag p) 0x0010 OR
     flag_bits (m_bOtherReadFlag p) 0x0004 OR flag_bits (m_bOtherWriteFlag p) 0x0002 OR flag_bits (m_bOtherExecuteFlag p) 0x0001"
  by (simp add: WsjcppFilePermissions_toUInt16_def flag_sum flag_disjoint word_ao_dist or_eq_0_iff word_bw_assocs)

text \<open>
  C34: the 16-bit code keeps all nine flags: the constructor that reads a code gives back the flags
  the code was made from, so different permissions have different codes.
\<close>

theorem permissions_code_roundtrip: "WsjcppFilePermissions_of (WsjcppFilePermissions_toUInt16 p) = p"
  by (simp add: WsjcppFilePermissions_of_def toUInt16_or)

lemmas setter_defs =
  setOwnerReadFlag_def setOwnerWriteFlag_def setOwnerExecuteFlag_def setGroupReadFlag_def setGroupWriteFlag_def
  setGroupExecuteFlag_def setOtherReadFlag_def setOtherWriteFlag_def setOtherExecuteFlag_def

text \<open>The flags that either of two permissions has.\<close>

definition permissions_or :: "WsjcppFilePermissions \<Rightarrow> WsjcppFilePermissions \<Rightarrow> WsjcppFilePermissions" where
  "permissions_or p q =
     \<lparr>m_bOwnerReadFlag = m_bOwnerReadFlag p \<or> m_bOwnerReadFlag q, m_bOwnerWriteFlag = m_bOwnerWriteFlag p \<or> m_bOwnerWriteFlag q,
      m_bOwnerExecuteFlag = m_bOwnerExecuteFlag p \<or> m_bOwnerExecuteFlag q,
      m_bGroupReadFlag = m_bGroupReadFlag p \<or> m_bGroupReadFlag q, m_bGroupWriteFlag = m_bGroupWriteFlag p \<or> m_bGroupWriteFlag q,
      m_bGroupExecuteFlag = m_bGroupExecuteFlag p \<or> m_bGroupExecuteFlag q,
      m_bOtherReadFlag = m_bOtherReadFlag p \<or> m_bOtherReadFlag q, m_bOtherWriteFlag = m_bOtherWriteFlag p \<or> m_bOtherWriteFlag q,
      m_bOtherExecuteFlag = m_bOtherExecuteFlag p \<or> m_bOtherExecuteFlag q\<rparr>"

lemma has_bits_stored:
  "msk AND 0xFFF = msk \<Longrightarrow> kind AND 0xFFF = 0 \<Longrightarrow> has_bits (kind OR (m AND 0xFFF)) msk \<longleftrightarrow> has_bits (m :: mode_t) msk"
proof -
  assume msk: "msk AND 0xFFF = msk" and kind: "kind AND 0xFFF = 0"
  have "n AND (msk AND 0xFFF) = (n AND 0xFFF) AND msk" for n by (simp only: ac_simps)
  then have cut: "(n AND 0xFFF) AND msk = n AND msk" for n by (simp add: msk)
  show ?thesis using cut [of kind] cut [of m] by (simp add: has_bits_def word_ao_dist kind)
qed

lemma permissions_of_stored:
  assumes "kind AND 0xFFF = 0"
  shows "permissions_of_mode (kind OR (setFilePermissions_mode m0 p AND 0xFFF)) q =
           permissions_or p (permissions_of_mode m0 q)"
  using has_bits_stored [OF _ assms, of _ "setFilePermissions_mode m0 p"]
  by (cases q rule: WsjcppFilePermissions.cases)
     (simp add: permissions_of_mode_def setter_defs permissions_or_def del: has_bits_or,
      simp add: setFilePermissions_mode_def disj_commute)

text \<open>
  C35: the local variable of \<open>setFilePermissions\<close> is not initialised. When \<open>chmod\<close> succeeds and
  \<open>stat\<close> then reports the twelve mode bits it was given, \<open>getFilePermissions\<close> reads back the flags
  that were asked for together with every permission bit that was left in the variable; it reads
  back exactly the flags asked for when the variable happened to hold none.
\<close>

theorem permissions_read_back:
  assumes "fst (chmod path (setFilePermissions_mode m0 p) w)" "setFilePermissions chmod m0 path p w = (r, w')"
    and "fileExists path w'" "kind AND 0xFFF = 0"
    and "stat path w' = Some (kind OR (setFilePermissions_mode m0 p AND 0xFFF))"
  shows "r = None \<and> getFilePermissions stat fileExists path q w' = Inr (permissions_or p (permissions_of_mode m0 q)) \<and>
         (m0 AND 0x1FF = 0 \<longrightarrow> getFilePermissions stat fileExists path q w' = Inr p)"
proof -
  have reads: "getFilePermissions stat fileExists path q w' = Inr (permissions_or p (permissions_of_mode m0 q))"
    using assms(3-5) by (simp add: getFilePermissions_def permissions_of_stored)
  have "has_bits m0 msk = False" if "m0 AND 0x1FF = 0" "0x1FF AND msk = msk" for msk
  proof -
    have "m0 AND (0x1FF AND msk) = (m0 AND 0x1FF) AND msk" by (simp only: ac_simps)
    then show ?thesis using that by (simp add: has_bits_def)
  qed
  then have "permissions_or p (permissions_of_mode m0 q) = p" if "m0 AND 0x1FF = 0"
    using that by (simp add: permissions_or_def permissions_of_mode_def setter_defs)
  then show ?thesis
    using reads assms(1,2) by (auto simp: setFilePermissions_def split: prod.splits)
qed

text \<open>One file whose permission bits are the state.\<close>

definition one_file_chmod :: "string \<Rightarrow> mode_t \<Rightarrow> mode_t \<Rightarrow> bool \<times> mode_t" where
  "one_file_chmod path m w = (True, 0x8000 OR (m AND 0xFFF))"

theorem permissions_read_back_witness:
  "getFilePermissions (\<lambda>_ w. Some w) (\<lambda>_ _. True) ''a'' WsjcppFilePermissions_new
     (snd (setFilePermissions one_file_chmod 0x49 ''a'' WsjcppFilePermissions_new 0x8000)) =
   Inr (WsjcppFilePermissions_flags True True True False False True True False True)"
  using permissions_read_back [where chmod = one_file_chmod and path = "''a''" and ?m0.0 = "0x49" and p = WsjcppFilePermissions_new
      and w = "0x8000" and kind = "0x8000" and stat = "\<lambda>_ w. Some w" and fileExists = "\<lambda>_ _. True" and q = WsjcppFilePermissions_new,
      OF _ surjective_pairing]
  by (simp add: one_file_chmod_def setFilePermissions_def permissions_or_def permissions_of_mode_def setter_defs
      WsjcppFilePermissions_new_def WsjcppFilePermissions_flags_def has_bits_def)

end
