(* ===== verification/Spec2Isabelle.thy ===== *)
theory Spec2Isabelle
  imports Webdiff_Main Wsjcpp_Permissions
begin

text \<open>
  A verification development for the webdiff server: a C++ program that stores the file trees of
  the versions of a product in MySQL, answers what differs between two versions over an HTTP
  interface with JSON, keeps comments on files, and moves the players of a small game over web
  sockets.

  \<^bold>\<open>The program.\<close> \<open>src/main.cpp\<close> sets up the log, builds the storage, upgrades the database, loads
  the caches and starts \<open>WebdiffServer\<close>, which runs two services on one port.
  \<open>WebdiffHttpServer\<close> registers its routes with the HTTP library; their handlers take the JSON
  body apart and call \<open>MySqlStorage\<close>. The storage keeps one connection per thread and replaces it
  when it is outdated, keeps versions, groups, the identifiers of file definitions and the
  identifiers of files in caches, and works through \<open>MySqlStorageConnection\<close>, which writes the
  queries as text and reads rows of text. \<open>WebdiffWsServer\<close> keeps a context and a timer per
  connection and answers messages. \<open>WsjcppCore\<close> has the helpers: paths, strings, time, log.

  \<^bold>\<open>Theories, from the bottom.\<close>
  \<^item> \<open>Prelude\<close>: outcomes of C++ code (\<open>cpp_error\<close>: exceptions and undefined behaviour as values),
    the computations \<open>('s, 'a) M\<close> (a state, kept at an exception as in the program), triples with
    one rule per way of composing, \<open>std::map\<close>, 32-bit integers, decimal text.
  \<^item> \<open>Json\<close>: the values of \<open>nlohmann::json\<close>, access and conversion with the numbered exceptions.
  \<^item> \<open>Models_Basic\<close>, \<open>Models_Cache\<close>, \<open>Models_Diff\<close>: the classes of \<open>src/database/models_*.cpp\<close>. The
    cache is stated through the locale \<open>id_cache\<close>, interpreted at each of its levels; the
    difference has the invariant \<open>diff_groups_ok\<close> of its counters and key vectors.
  \<^item> \<open>Sql_Text\<close>, \<open>Mysql_Connection\<close>: \<open>src/database/mysql_storage_connection.cpp\<close>, every query text
    character for character, escaping, the reading of rows and the exception of a failed query.
  \<^item> \<open>Mysql_Updates\<close>: \<open>src/database/mysql_storage_updates.cpp\<close>, the nine migrations and the loop
    that applies them, with an abstract specification: the missing updates, each followed by the
    record that it was applied, in order.
  \<^item> \<open>Mysql_Storage\<close>: \<open>src/database/mysql_storage.cpp\<close>, the state and all operations of the storage.
  \<^item> \<open>Mysql_Server\<close>: the interface to the database as the locale \<open>mysql_server\<close>. MySQL and its client
    library are not in the repository: they are the parameter \<open>my\<close>, a record of the functions
    the source calls over an opaque state, and \<open>tbl\<close> reads the tables in that state. The laws
    say what the MySQL manual says of each statement in terms of the tables it touches.
  \<^item> \<open>Mysql_Client\<close>, \<open>Storage_Cache\<close>, \<open>Storage_Diff\<close>: what the operations do under those laws.
    \<open>db_ok\<close> is the consistency of the tables (keys, the tree of definitions and of files, the
    counters of children), \<open>coherent\<close> the agreement of the caches with the tables.
  \<^item> \<open>Reference_Server\<close>: an executable database that reads query text back into statements and
    runs them on lists, with a plan of failing queries. It interprets \<open>mysql_server\<close>, so the laws
    can hold together, and the concrete runs evaluate on it.
  \<^item> \<open>Storage_Theorems\<close>, \<open>Diff_Theorems\<close>: the properties of the storage.
  \<^item> \<open>Libhv_Router\<close>, \<open>Http_Server\<close>, \<open>Http_Theorems\<close>, \<open>Server_Theorems\<close>: routing as in
    \<open>src-libhv/http/server/HttpService.cpp\<close>, every handler of \<open>src/server/webdiff_http_server.cpp\<close>,
    and what holds after any sequence of answered requests (\<open>serves\<close>).
  \<^item> \<open>Ws_Server\<close>, \<open>Ws_Theorems\<close>: \<open>src/server/webdiff_ws_server.cpp\<close> and \<open>player_context.cpp\<close>:
    connections, timers, sessions and messages, with the invariant of the contexts and timers
    over every sequence of events.
  \<^item> \<open>Wsjcpp_Strings\<close>, \<open>Wsjcpp_Time\<close>, \<open>Wsjcpp_Log\<close>, \<open>Wsjcpp_Permissions\<close>: the helpers of
    \<open>src.wsjcpp/wsjcpp_core/wsjcpp_core.cpp\<close>.
  \<^item> \<open>Webdiff_Main\<close>: \<open>src/main.cpp\<close> and \<open>src/server/webdiff_server.cpp\<close>, and the property of the whole.

  \<^bold>\<open>What is shown.\<close> Adding a file refines the insertion of its path, with all its directories, into
  the set of stored paths of the version and group; it is idempotent, loses nothing when a query
  fails, and keeps tables and caches consistent. The difference of two versions is exactly the
  files that are in one and not in the other, with parents and comments. A value is one SQL
  literal whatever it contains. The migrations bring the database to the newest version. Requests
  reach the handler of their route; wrong content types and bodies are refused or, where the code
  does not check, end in the exception that is named. A session of the game is permanent, a move
  is seen by all. Time text reads back to the time and sorts by it; the log keeps the last
  messages and rotates; permissions survive being coded and being written to a file.

  \<^bold>\<open>Parameters.\<close> Besides \<open>my\<close>: \<open>parse\<close>, the parser of JSON text of the HTTP library; \<open>static\<close>, the
  files it serves; \<open>env\<close>, the environment variables; for log and start-up a \<open>host\<close> with its clock
  and directories. Theorems hold for all of them, under the laws of \<open>mysql_server\<close> for \<open>my\<close> only.

  \<^bold>\<open>Loops and bounds.\<close> The loops of the code are structural recursion, or a \<open>partial_function\<close> with
  a proof that it returns: the upgrade, the search for parents in a difference. Identifiers and
  ports are \<open>int\<close>s read from text with the range check of the stream, permissions are 16-bit
  words, times are treated until the year 9999 or, where the code narrows them, until the 32-bit
  counter of seconds ends.

  \<^bold>\<open>Not modelled.\<close> The event loop, sockets, TLS and protocol parsers of the vendored library
  \<open>src-libhv\<close>, which call the modelled handlers; the text form of JSON; mutexes, since the program
  runs one event loop and each critical section is one step; the listing, copying and removing
  of files and the registry of resource files in \<open>WsjcppCore\<close>, which the program does not call;
  most log output of the handlers; the web pages and scripts.
\<close>

end
